(* ===== verification/GoPrelude.thy ===== *)
theory GoPrelude
  imports Main "HOL-Library.Multiset" "HOL-Library.AList" "HOL-Library.List_Lexorder"
    "HOL-Library.Char_ord"
begin

text \<open>
  What every theory of the development shares: the Go values the program computes with (instants
  and durations, byte strings, maps), the generic facts about them, and the collections of
  simplification rules the component theories fill.

  \<^item> An instant (\<open>time.Time\<close>) is the number of nanoseconds since the zero value of the type;
    \<open>IsZero\<close> is \<open>t = 0\<close>, \<open>After\<close> and \<open>Before\<close> are the order. A duration is the number of
    nanoseconds of the signed 64-bit integer; \<open>wrap64\<close> writes the wrap-around out.
  \<^item> A string is the list of its bytes, as in Go. \<open>strings.TrimSpace\<close>, \<open>strings.TrimRight\<close>,
    \<open>strings.Contains\<close>, \<open>HasPrefix\<close> and \<open>HasSuffix\<close> are modelled on bytes.
  \<^item> A Go map is an association list with distinct keys; the list order stands for one order in
    which \<open>range\<close> may visit it.
  \<^item> \<open>sort.SliceStable\<close> is a stable insertion sort over the comparison the code passes; what it
    promises is proved in the locale \<open>weak_order\<close>.
\<close>

named_theorems fsm_simps "unfolding rules of the state machine engine and of the entity tables"
named_theorems op_simps "unfolding rules of component operations"

section \<open>Instants, durations, integers\<close>

type_synonym instant = int
type_synonym duration = int

abbreviation zero_time :: instant where "zero_time \<equiv> 0"

definition wrap64 :: "int \<Rightarrow> int" where
  "wrap64 x = (x + 2 ^ 63) mod 2 ^ 64 - 2 ^ 63"

abbreviation in_int64 :: "int \<Rightarrow> bool" where
  "in_int64 x \<equiv> - (2 ^ 63) \<le> x \<and> x < 2 ^ 63"

lemma wrap64_id: "in_int64 x \<Longrightarrow> wrap64 x = x"
  by (simp add: wrap64_def)

lemma wrap64_range: "in_int64 (wrap64 x)"
  using pos_mod_bound [of "2 ^ 64" "x + 2 ^ 63"] pos_mod_sign [of "2 ^ 64" "x + 2 ^ 63"]
  by (simp add: wrap64_def)

text \<open>Go's integer division truncates towards zero.\<close>

definition go_quot :: "int \<Rightarrow> int \<Rightarrow> int" where
  "go_quot a b = sgn a * sgn b * (\<bar>a\<bar> div \<bar>b\<bar>)"

lemma go_quot_nonneg: "0 \<le> a \<Longrightarrow> 0 < b \<Longrightarrow> go_quot a b = a div b"
  by (cases "a = 0") (simp_all add: go_quot_def)

abbreviation nsec_second :: duration where "nsec_second \<equiv> 1000000000"
abbreviation nsec_minute :: duration where "nsec_minute \<equiv> 60 * nsec_second"
abbreviation nsec_hour :: duration where "nsec_hour \<equiv> 60 * nsec_minute"

text \<open>\<open>Time.Truncate d\<close> rounds down to a multiple of \<open>d\<close> since the zero time.\<close>

definition truncate_time :: "duration \<Rightarrow> instant \<Rightarrow> instant" where
  "truncate_time d t = (if d \<le> 0 then t else t - t mod d)"

section \<open>Strings\<close>

fun str_contains :: "string \<Rightarrow> string \<Rightarrow> bool" where
  "str_contains [] sub = (sub = [])"
| "str_contains (c # s) sub = (take (length sub) (c # s) = sub \<or> str_contains s sub)"

definition has_prefix :: "string \<Rightarrow> string \<Rightarrow> bool" where
  "has_prefix s p = (take (length p) s = p)"

definition has_suffix :: "string \<Rightarrow> string \<Rightarrow> bool" where
  "has_suffix s p = (length p \<le> length s \<and> drop (length s - length p) s = p)"

definition trim_prefix :: "string \<Rightarrow> string \<Rightarrow> string" where
  "trim_prefix s p = (if has_prefix s p then drop (length p) s else s)"

definition trim_suffix :: "string \<Rightarrow> string \<Rightarrow> string" where
  "trim_suffix s p = (if has_suffix s p then take (length s - length p) s else s)"

definition trim_right_char :: "char \<Rightarrow> string \<Rightarrow> string" where
  "trim_right_char c s = rev (dropWhile (\<lambda>d. d = c) (rev s))"

definition utf8 :: "nat list \<Rightarrow> string" where
  "utf8 bs = map char_of bs"

text \<open>The UTF-8 encodings of the code points with the Unicode property White_Space, which is what
  \<open>unicode.IsSpace\<close> tests.\<close>

definition space_runes :: "string list" where
  "space_runes = map utf8
     ([[9], [10], [11], [12], [13], [32], [0xC2, 0x85], [0xC2, 0xA0], [0xE1, 0x9A, 0x80]]
      @ map (\<lambda>b. [0xE2, 0x80, b]) [0x80 ..< 0x8B]
      @ [[0xE2, 0x80, 0xA8], [0xE2, 0x80, 0xA9], [0xE2, 0x80, 0xAF], [0xE2, 0x81, 0x9F],
         [0xE3, 0x80, 0x80]])"

definition rune_at :: "string list \<Rightarrow> string \<Rightarrow> nat" where
  "rune_at rs s = (case find (has_prefix s) rs of None \<Rightarrow> 0 | Some r \<Rightarrow> length r)"

function trim_front :: "string list \<Rightarrow> string \<Rightarrow> string" where
  "trim_front rs s =
     (if s = [] \<or> rune_at rs s = 0 then s else trim_front rs (drop (rune_at rs s) s))"
  by pat_completeness auto
termination
  by (relation "measure (\<lambda>(rs, s). length s)") auto

declare trim_front.simps [simp del]

definition trim_space :: "string \<Rightarrow> string" where
  "trim_space s = rev (trim_front (map rev space_runes) (rev (trim_front space_runes s)))"

text \<open>\<open>strings.ToLower\<close>: the path for strings of ASCII bytes is the code below; any other string
  goes through the Unicode case tables, which are the parameter \<open>ulow\<close>.\<close>

definition ascii_lower :: "char \<Rightarrow> char" where
  "ascii_lower c = (let n = (of_char c :: nat) in
     if 65 \<le> n \<and> n \<le> 90 then char_of (n + 32) else c)"

definition to_lower :: "(string \<Rightarrow> string) \<Rightarrow> string \<Rightarrow> string" where
  "to_lower ulow s =
     (if list_all (\<lambda>c. (of_char c :: nat) < 128) s then map ascii_lower s else ulow s)"

lemma has_prefix_append [simp]: "has_prefix (p @ s) p"
  by (simp add: has_prefix_def)

lemma has_suffix_append [simp]: "has_suffix (s @ p) p"
  by (simp add: has_suffix_def)

lemma has_suffix_iff: "has_suffix s p \<longleftrightarrow> (\<exists>q. s = q @ p)"
proof
  assume "has_suffix s p"
  then have "s = take (length s - length p) s @ p"
    by (metis append_take_drop_id has_suffix_def)
  then show "\<exists>q. s = q @ p" by blast
qed auto

lemma has_prefix_iff: "has_prefix s p \<longleftrightarrow> (\<exists>q. s = p @ q)"
  by (metis append_eq_conv_conj has_prefix_def)

lemma trim_suffix_append [simp]: "trim_suffix (s @ p) p = s"
  by (simp add: trim_suffix_def)

lemma trim_right_char_idem [simp]:
  "trim_right_char c (trim_right_char c s) = trim_right_char c s"
  by (simp add: trim_right_char_def dropWhile_idem)

lemma trim_right_char_last:
  "trim_right_char c s = [] \<or> last (trim_right_char c s) \<noteq> c"
  by (cases "dropWhile (\<lambda>d. d = c) (rev s) = []")
    (simp_all add: trim_right_char_def last_rev hd_dropWhile [where P = "\<lambda>d. d = c"])

lemma trim_right_char_id: "s = [] \<or> last s \<noteq> c \<Longrightarrow> trim_right_char c s = s"
  by (cases s rule: rev_cases) (auto simp: trim_right_char_def)

lemma str_contains_iff: "str_contains s sub \<longleftrightarrow> (\<exists>p q. s = p @ sub @ q)"
proof (induction s)
  case Nil
  then show ?case by simp
next
  case (Cons c s)
  have "(\<exists>p q. c # s = p @ sub @ q) \<longleftrightarrow>
        (\<exists>q. c # s = sub @ q) \<or> (\<exists>p q. s = p @ sub @ q)"
    by (metis append_Cons append_Nil list.exhaust list.inject)
  moreover have "take (length sub) (c # s) = sub \<longleftrightarrow> (\<exists>q. c # s = sub @ q)"
    using has_prefix_iff [of "c # s" sub] by (simp add: has_prefix_def)
  ultimately show ?case using Cons.IH by simp
qed

section \<open>Text of numbers, lists of words\<close>

text \<open>\<open>%d\<close>, and \<open>strings.Join\<close>.\<close>

fun nat_str :: "nat \<Rightarrow> string" where
  "nat_str n = (if n < 10 then [char_of (48 + n)] else nat_str (n div 10) @ [char_of (48 + n mod 10)])"

declare nat_str.simps [simp del]

definition int_str :: "int \<Rightarrow> string" where
  "int_str i = (if i < 0 then ''-'' @ nat_str (nat (- i)) else nat_str (nat i))"

text \<open>\<open>strings.Index\<close> and \<open>strings.Split\<close> at one byte.\<close>

fun str_index :: "string \<Rightarrow> string \<Rightarrow> nat option" where
  "str_index s sub =
     (if has_prefix s sub then Some 0
      else (case s of [] \<Rightarrow> None | _ # s' \<Rightarrow> map_option Suc (str_index s' sub)))"

declare str_index.simps [simp del]

fun split_on :: "char \<Rightarrow> string \<Rightarrow> string list" where
  "split_on c [] = [[]]"
| "split_on c (d # s) =
     (if d = c then [] # split_on c s
      else case split_on c s of [] \<Rightarrow> [[d]] | w # ws \<Rightarrow> (d # w) # ws)"

fun join_with :: "string \<Rightarrow> string list \<Rightarrow> string" where
  "join_with sep [] = []"
| "join_with sep [s] = s"
| "join_with sep (s # t # ss) = s @ sep @ join_with sep (t # ss)"

fun digits_nat :: "string \<Rightarrow> nat" where
  "digits_nat s = fold (\<lambda>c n. 10 * n + (of_char c - 48)) s 0"

lemma digits_nat_str: "digits_nat (nat_str n) = n"
proof (induction n rule: nat_str.induct)
  case (1 n)
  then show ?case by (subst nat_str.simps) (auto simp: of_char_of)
qed

lemma nat_str_inj: "nat_str i = nat_str j \<Longrightarrow> i = j"
  by (metis digits_nat_str)

section \<open>Maps\<close>

lemma map_of_alist_update [simp]: "map_of (AList.update k v m) = (map_of m)(k \<mapsto> v)"
  by (rule update_conv')

lemma map_of_alist_delete [simp]: "map_of (AList.delete k m) = (map_of m)(k := None)"
  by (rule delete_conv')

lemma map_of_map_snd: "map_of (map (\<lambda>(k, v). (k, f v)) m) k = map_option f (map_of m k)"
  by (induction m) auto

section \<open>Stable sorting\<close>

fun sort_insert :: "('a \<Rightarrow> 'a \<Rightarrow> bool) \<Rightarrow> 'a \<Rightarrow> 'a list \<Rightarrow> 'a list" where
  "sort_insert lt x [] = [x]"
| "sort_insert lt x (y # ys) =
     (if lt y x then y # sort_insert lt x ys else x # y # ys)"

definition stable_sort :: "('a \<Rightarrow> 'a \<Rightarrow> bool) \<Rightarrow> 'a list \<Rightarrow> 'a list" where
  "stable_sort lt xs = foldr (sort_insert lt) xs []"

lemma mset_sort_insert [simp]: "mset (sort_insert lt x ys) = add_mset x (mset ys)"
  by (induction ys) auto

lemma mset_stable_sort [simp]: "mset (stable_sort lt xs) = mset xs"
  by (induction xs) (auto simp: stable_sort_def)

lemma set_stable_sort [simp]: "set (stable_sort lt xs) = set xs"
  by (metis mset_stable_sort set_mset_mset)

lemma length_stable_sort [simp]: "length (stable_sort lt xs) = length xs"
  by (metis mset_stable_sort size_mset)

lemma distinct_map_stable_sort [simp]:
  "distinct (map f (stable_sort lt xs)) = distinct (map f xs)"
  by (metis mset_eq_imp_distinct_iff mset_map mset_stable_sort)

text \<open>
  The comparison a caller passes to \<open>sort.SliceStable\<close> has to be a strict weak order. A caller
  that interprets this locale with its comparison gets the two promises of the library: the
  result is ordered, and elements the comparison does not separate keep their order.
\<close>

locale weak_order =
  fixes lt :: "'a \<Rightarrow> 'a \<Rightarrow> bool"
  assumes asym: "lt a b \<Longrightarrow> \<not> lt b a"
    and neg_trans: "\<not> lt a b \<Longrightarrow> \<not> lt b c \<Longrightarrow> \<not> lt a c"
begin

lemma irrefl: "\<not> lt a a"
  using asym by blast

lemma insert_ordered:
  "sorted_wrt (\<lambda>a b. \<not> lt b a) ys \<Longrightarrow> sorted_wrt (\<lambda>a b. \<not> lt b a) (sort_insert lt x ys)"
proof (induction ys)
  case Nil
  then show ?case by simp
next
  case (Cons y ys)
  have set: "set (sort_insert lt x ys) = insert x (set ys)"
    by (metis mset_sort_insert set_mset_add_mset_insert set_mset_mset)
  show ?case
  proof (cases "lt y x")
    case True
    with Cons set show ?thesis by (auto dest: asym)
  next
    case False
    with Cons.prems have "\<not> lt z x" if "z \<in> set (y # ys)" for z
      using that neg_trans [of z y x] by auto
    with False Cons.prems show ?thesis by simp
  qed
qed

lemma sort_ordered: "sorted_wrt (\<lambda>a b. \<not> lt b a) (stable_sort lt xs)"
  by (induction xs) (auto simp: stable_sort_def intro: insert_ordered)

lemma filter_insert_equiv:
  assumes "sorted_wrt (\<lambda>a b. \<not> lt b a) ys"
  shows "filter (\<lambda>a. \<not> lt a k \<and> \<not> lt k a) (sort_insert lt x ys) =
         filter (\<lambda>a. \<not> lt a k \<and> \<not> lt k a) (x # ys)"
  using assms
proof (induction ys)
  case Nil
  then show ?case by simp
next
  case (Cons y ys)
  then show ?case using neg_trans by auto
qed

lemma sort_stable:
  "filter (\<lambda>a. \<not> lt a k \<and> \<not> lt k a) (stable_sort lt xs) =
   filter (\<lambda>a. \<not> lt a k \<and> \<not> lt k a) xs"
proof (induction xs)
  case Nil
  then show ?case by (simp add: stable_sort_def)
next
  case (Cons x xs)
  have "stable_sort lt (x # xs) = sort_insert lt x (stable_sort lt xs)"
    by (simp add: stable_sort_def)
  with filter_insert_equiv [OF sort_ordered, of k x xs] Cons.IH show ?case by simp
qed

lemma sort_id: "sorted_wrt (\<lambda>a b. \<not> lt b a) xs \<Longrightarrow> stable_sort lt xs = xs"
proof (induction xs)
  case Nil
  then show ?case by (simp add: stable_sort_def)
next
  case (Cons x xs)
  then have "stable_sort lt xs = xs" by simp
  moreover have "sort_insert lt x xs = x # xs"
    using Cons.prems by (cases xs) auto
  ultimately show ?case by (simp add: stable_sort_def)
qed

end

text \<open>Comparing by an integer key gives such an order.\<close>

lemma weak_order_key: "weak_order (\<lambda>a b. (f a :: int) < f b)"
  by unfold_locales auto
text \<open>A text with no space at either end is what \<open>TrimSpace\<close> gives back.\<close>

lemma rune_at_plain:
  assumes "s \<noteq> []" and "hd s \<notin> \<Union> (set ` set rs)"
  shows "rune_at rs s = 0"
proof (cases "find (has_prefix s) rs")
  case (Some r)
  then have r: "r \<in> set rs" "has_prefix s r" by (auto simp: find_Some_iff)
  have "r = []"
  proof (rule ccontr)
    assume "r \<noteq> []"
    with r(2) have "hd s \<in> set r" by (cases r) (auto simp: has_prefix_iff)
    with r(1) assms(2) show False by blast
  qed
  with Some show ?thesis by (simp add: rune_at_def)
qed (simp add: rune_at_def)

lemma trim_space_plain:
  assumes "s \<noteq> []" and "hd s \<notin> \<Union> (set ` set space_runes)" and "last s \<notin> \<Union> (set ` set space_runes)"
  shows "trim_space s = s"
proof -
  have "trim_front space_runes s = s" using rune_at_plain [OF assms(1,2)] by (simp add: trim_front.simps)
  moreover have "trim_front (map rev space_runes) (rev s) = rev s"
    using rune_at_plain [of "rev s" "map rev space_runes"] assms by (simp add: trim_front.simps hd_rev)
  ultimately show ?thesis by (simp add: trim_space_def)
qed

lemma solid_chars:
  "\<forall>ch \<in> set ''abcdefghijklmnopqrstuvwxyzABCDEFGHIJKLMNOPQRSTUVWXYZ0123456789:{}[]-/''. ch \<notin> \<Union> (set ` set space_runes)"
  by code_simp

lemma trim_front_drop:
  "rune_at rs s = n \<Longrightarrow> 0 < n \<Longrightarrow> s \<noteq> [] \<Longrightarrow> trim_front rs s = trim_front rs (drop n s)"
  by (subst trim_front.simps) simp

end
