(* ===== verification/Fsm.thy ===== *)
theory Fsm
  imports GoPrelude
begin

text \<open>
  The table-driven state machine engine of \<open>internal/fsm/fsm.go\<close>. The struct \<open>Machine\<close> is kept in
  two records: \<open>machine\<close> holds the fields that change while the machine runs (state, entry time,
  timer), \<open>rules\<close> the transition table and its index, which \<open>Add\<close> builds before the machine is
  used. A guard or an effect is a Go closure over the entity that owns the machine; here it is a
  function that also takes that entity's data (type \<open>'c\<close>), and an effect returns it updated.

  An operation reads the clock once: the instant is an argument. The locales state what a client
  machine has to promise about its table: \<open>fsm_effects\<close> (an effect leaves the state alone),
  \<open>fsm_invariant\<close> (an invariant every transition keeps) and \<open>fsm_pinned\<close> (states that only certain
  events leave). The entity theories interpret them.
\<close>

record 's machine =
  m_state :: 's
  m_entered_at :: instant
  m_wake_at :: instant

record ('e, 'p) fsm_context =
  ctx_event :: 'e
  ctx_payload :: "'p option"

record ('s, 'e, 'p, 'c) transition =
  t_from :: 's
  t_event :: 'e
  t_to :: 's
  t_guard :: "(('e, 'p) fsm_context \<Rightarrow> 'c \<Rightarrow> bool) option"
  t_effect :: "(instant \<Rightarrow> ('e, 'p) fsm_context \<Rightarrow> 's machine \<times> 'c \<Rightarrow> 's machine \<times> 'c) option"

record ('s, 'e, 'p, 'c) rules =
  r_table :: "('s, 'e, 'p, 'c) transition list"
  r_index :: "'s \<times> 'e \<Rightarrow> ('s, 'e, 'p, 'c) transition list"

definition new_machine :: "'s \<Rightarrow> instant \<Rightarrow> 's machine" where
  "new_machine initial now = \<lparr>m_state = initial, m_entered_at = now, m_wake_at = zero_time\<rparr>"

definition new_rules :: "('s, 'e, 'p, 'c) rules" where
  "new_rules = \<lparr>r_table = [], r_index = (\<lambda>_. [])\<rparr>"

definition add_rule ::
  "('s, 'e, 'p, 'c) transition \<Rightarrow> ('s, 'e, 'p, 'c) rules \<Rightarrow> ('s, 'e, 'p, 'c) rules" where
  "add_rule tr r =
     (let key = (t_from tr, t_event tr) in
      \<lparr>r_table = r_table r @ [tr], r_index = (r_index r)(key := r_index r key @ [tr])\<rparr>)"

definition build_rules :: "('s, 'e, 'p, 'c) transition list \<Rightarrow> ('s, 'e, 'p, 'c) rules" where
  "build_rules trs = fold add_rule trs new_rules"

definition set_timer :: "instant \<Rightarrow> 's machine \<Rightarrow> 's machine" where
  "set_timer at m = m\<lparr>m_wake_at := at\<rparr>"

definition guard_passes :: "('s, 'e, 'p, 'c) transition \<Rightarrow> 'e \<Rightarrow> 'p option \<Rightarrow> 'c \<Rightarrow> bool" where
  "guard_passes tr ev p c =
     (case t_guard tr of None \<Rightarrow> True | Some g \<Rightarrow> g \<lparr>ctx_event = ev, ctx_payload = p\<rparr> c)"

fun first_passing :: "('s, 'e, 'p, 'c) transition list \<Rightarrow> 'e \<Rightarrow> 'p option \<Rightarrow> 'c
    \<Rightarrow> ('s, 'e, 'p, 'c) transition option" where
  "first_passing [] ev p c = None"
| "first_passing (tr # trs) ev p c =
     (if guard_passes tr ev p c then Some tr else first_passing trs ev p c)"

definition match_locked :: "('s, 'e, 'p, 'c) rules \<Rightarrow> 's machine \<Rightarrow> 'e \<Rightarrow> 'p option \<Rightarrow> 'c
    \<Rightarrow> ('s, 'e, 'p, 'c) transition option" where
  "match_locked r m ev p c = first_passing (r_index r (m_state m, ev)) ev p c"

definition run_effect :: "('s, 'e, 'p, 'c) transition \<Rightarrow> instant \<Rightarrow> 'e \<Rightarrow> 'p option
    \<Rightarrow> 's machine \<times> 'c \<Rightarrow> 's machine \<times> 'c" where
  "run_effect tr now ev p mc =
     (case t_effect tr of None \<Rightarrow> mc
      | Some f \<Rightarrow> f now \<lparr>ctx_event = ev, ctx_payload = p\<rparr> mc)"

definition enter_state :: "'s \<Rightarrow> instant \<Rightarrow> 's machine \<Rightarrow> 's machine" where
  "enter_state s now m = m\<lparr>m_state := s, m_entered_at := now\<rparr>"

text \<open>\<open>Fire\<close>: the machine and its owner afterwards, the state reported, whether a transition was
  taken. The reported state is the destination captured under the lock.\<close>

definition fire :: "('s, 'e, 'p, 'c) rules \<Rightarrow> instant \<Rightarrow> 'e \<Rightarrow> 'p option \<Rightarrow> 's machine \<times> 'c
    \<Rightarrow> ('s machine \<times> 'c) \<times> 's \<times> bool" where
  "fire r now ev p mc =
     (case match_locked r (fst mc) ev p (snd mc) of
        None \<Rightarrow> (mc, m_state (fst mc), False)
      | Some tr \<Rightarrow>
          (run_effect tr now ev p (enter_state (t_to tr) now (fst mc), snd mc), t_to tr, True))"

definition advance :: "'e \<Rightarrow> ('s, 'e, 'p, 'c) rules \<Rightarrow> instant \<Rightarrow> 's machine \<times> 'c
    \<Rightarrow> ('s machine \<times> 'c) \<times> 's \<times> bool" where
  "advance tick r now mc =
     (if m_wake_at (fst mc) = zero_time \<or> now < m_wake_at (fst mc)
      then (mc, m_state (fst mc), False)
      else fire r now tick None (set_timer zero_time (fst mc), snd mc))"

lemma build_rules_snoc: "build_rules (trs @ [tr]) = add_rule tr (build_rules trs)"
  by (simp add: build_rules_def)

lemma r_table_build [simp]: "r_table (build_rules trs) = trs"
  by (induction trs rule: rev_induct)
    (simp_all add: build_rules_snoc, simp_all add: build_rules_def new_rules_def add_rule_def Let_def)

lemma r_index_build:
  "r_index (build_rules trs) (s, ev) = filter (\<lambda>tr. t_from tr = s \<and> t_event tr = ev) trs"
proof (induction trs rule: rev_induct)
  case Nil
  then show ?case by (simp add: build_rules_def new_rules_def)
next
  case (snoc tr trs)
  then show ?case by (auto simp: build_rules_snoc add_rule_def Let_def)
qed

lemma first_passing_find: "first_passing trs ev p c = find (\<lambda>tr. guard_passes tr ev p c) trs"
  by (induction trs) auto

lemma first_passing_Some:
  "first_passing trs ev p c = Some tr \<Longrightarrow> tr \<in> set trs \<and> guard_passes tr ev p c"
  by (induction trs) (auto split: if_splits)

lemma find_filter: "find Q (filter P xs) = find (\<lambda>x. P x \<and> Q x) xs"
  by (induction xs) auto

lemma match_locked_SomeD:
  assumes "match_locked (build_rules trs) m ev p c = Some tr"
  shows "tr \<in> set trs" "t_from tr = m_state m" "t_event tr = ev" "guard_passes tr ev p c"
  using first_passing_Some [OF assms [unfolded match_locked_def]]
  by (auto simp: r_index_build)

lemma set_timer_simps [simp]:
  "m_state (set_timer at m) = m_state m" "m_entered_at (set_timer at m) = m_entered_at m"
  "m_wake_at (set_timer at m) = at"
  by (simp_all add: set_timer_def)

lemma enter_state_simps [simp]:
  "m_state (enter_state s now m) = s" "m_entered_at (enter_state s now m) = now"
  "m_wake_at (enter_state s now m) = m_wake_at m"
  by (simp_all add: enter_state_def)

lemma new_machine_simps [simp]:
  "m_state (new_machine s now) = s" "m_entered_at (new_machine s now) = now"
  "m_wake_at (new_machine s now) = zero_time"
  by (simp_all add: new_machine_def)

lemma fire_None [fsm_simps]:
  "match_locked r m ev p c = None \<Longrightarrow> fire r now ev p (m, c) = ((m, c), m_state m, False)"
  by (simp add: fire_def)

lemma fire_Some [fsm_simps]:
  "match_locked r m ev p c = Some tr \<Longrightarrow>
   fire r now ev p (m, c) =
     (run_effect tr now ev p (enter_state (t_to tr) now m, c), t_to tr, True)"
  by (simp add: fire_def)

section \<open>Runs\<close>

datatype ('e, 'p) fsm_op = OpFire instant 'e "'p option" | OpAdvance instant | OpSetTimer instant

fun fsm_op_step :: "'e \<Rightarrow> ('s, 'e, 'p, 'c) rules \<Rightarrow> ('e, 'p) fsm_op \<Rightarrow> 's machine \<times> 'c
    \<Rightarrow> 's machine \<times> 'c" where
  "fsm_op_step tick r (OpFire now ev p) mc = fst (fire r now ev p mc)"
| "fsm_op_step tick r (OpAdvance now) mc = fst (advance tick r now mc)"
| "fsm_op_step tick r (OpSetTimer at) mc = (set_timer at (fst mc), snd mc)"

definition fsm_run :: "'e \<Rightarrow> ('s, 'e, 'p, 'c) rules \<Rightarrow> ('e, 'p) fsm_op list \<Rightarrow> 's machine \<times> 'c
    \<Rightarrow> 's machine \<times> 'c" where
  "fsm_run tick r ops mc = fold (fsm_op_step tick r) ops mc"

fun op_event :: "'e \<Rightarrow> ('e, 'p) fsm_op \<Rightarrow> 'e option" where
  "op_event tick (OpFire now ev p) = Some ev"
| "op_event tick (OpAdvance now) = Some tick"
| "op_event tick (OpSetTimer at) = None"

section \<open>What a client promises of its table\<close>

locale fsm_effects =
  fixes trs :: "('s, 'e, 'p, 'c) transition list"
    and tick :: 'e
  assumes effect_state:
    "tr \<in> set trs \<Longrightarrow> m_state (fst (run_effect tr now ev p (m, c))) = m_state m"
begin

lemma fire_state:
  "fire (build_rules trs) now ev p (m, c) = (mc', s, b) \<Longrightarrow> m_state (fst mc') = s"
  by (cases "match_locked (build_rules trs) m ev p c")
    (auto simp: fsm_simps effect_state dest: match_locked_SomeD)

lemma fire_unmatched_state:
  "fire (build_rules trs) now ev p (m, c) = (mc', s, False) \<Longrightarrow> mc' = (m, c) \<and> s = m_state m"
  by (cases "match_locked (build_rules trs) m ev p c") (auto simp: fsm_simps)

lemma fire_edge:
  assumes "fire (build_rules trs) now ev p (m, c) = (mc', s, True)"
  shows "\<exists>tr \<in> set trs. t_from tr = m_state m \<and> t_event tr = ev \<and> t_to tr = s"
proof (cases "match_locked (build_rules trs) m ev p c")
  case None
  with assms show ?thesis by (simp add: fsm_simps)
next
  case (Some tr)
  with assms match_locked_SomeD [OF Some] show ?thesis by (auto simp: fsm_simps)
qed

end

locale fsm_invariant =
  fixes trs :: "('s, 'e, 'p, 'c) transition list"
    and tick :: 'e
    and inv :: "'s machine \<times> 'c \<Rightarrow> bool"
  assumes step_inv: "tr \<in> set trs \<Longrightarrow> m_state m = t_from tr \<Longrightarrow> t_event tr \<noteq> tick \<Longrightarrow>
      inv (m, c) \<Longrightarrow> inv (run_effect tr now (t_event tr) p (enter_state (t_to tr) now m, c))"
    and tick_inv: "tr \<in> set trs \<Longrightarrow> m_state m = t_from tr \<Longrightarrow> t_event tr = tick \<Longrightarrow>
      inv (m, c) \<Longrightarrow>
      inv (run_effect tr now tick None (enter_state (t_to tr) now (set_timer zero_time m), c))"
    and lapse_inv: "inv (m, c) \<Longrightarrow> match_locked (build_rules trs) m tick None c = None \<Longrightarrow>
      inv (set_timer zero_time m, c)"
begin

lemma fire_inv:
  "inv (m, c) \<Longrightarrow> ev \<noteq> tick \<Longrightarrow> inv (fst (fire (build_rules trs) now ev p (m, c)))"
proof (cases "match_locked (build_rules trs) m ev p c")
  case (Some tr)
  assume "inv (m, c)" "ev \<noteq> tick"
  with Some match_locked_SomeD [OF Some] step_inv show ?thesis by (auto simp: fsm_simps)
qed (simp add: fsm_simps)

lemma advance_inv: "inv (m, c) \<Longrightarrow> inv (fst (advance tick (build_rules trs) now (m, c)))"
proof -
  assume i: "inv (m, c)"
  have eq: "match_locked (build_rules trs) (set_timer zero_time m) tick None c =
      match_locked (build_rules trs) m tick None c"
    by (simp add: match_locked_def)
  show ?thesis
  proof (cases "match_locked (build_rules trs) m tick None c")
    case None
    with i eq lapse_inv show ?thesis by (simp add: advance_def fsm_simps)
  next
    case (Some tr)
    with i eq match_locked_SomeD [OF Some] tick_inv show ?thesis
      by (auto simp: advance_def fsm_simps)
  qed
qed

end

locale fsm_pinned = fsm_effects trs tick
  for trs :: "('s, 'e, 'p, 'c) transition list" and tick :: 'e +
  fixes pinned :: "'s set" and exits :: "'e set"
  assumes closed: "tr \<in> set trs \<Longrightarrow> t_from tr \<in> pinned \<Longrightarrow> t_event tr \<notin> exits \<Longrightarrow> t_to tr \<in> pinned"
    and tick_no_exit: "tick \<notin> exits"
begin

lemma fire_pinned:
  assumes "m_state m \<in> pinned" and "ev \<notin> exits"
  shows "m_state (fst (fst (fire (build_rules trs) now ev p (m, c)))) \<in> pinned"
proof (cases "match_locked (build_rules trs) m ev p c")
  case None
  with assms show ?thesis by (simp add: fsm_simps)
next
  case (Some tr)
  with assms match_locked_SomeD [OF Some] closed show ?thesis
    by (auto simp: fsm_simps effect_state)
qed

lemma advance_pinned:
  assumes "m_state m \<in> pinned"
  shows "m_state (fst (fst (advance tick (build_rules trs) now (m, c)))) \<in> pinned"
  using assms fire_pinned [of "set_timer zero_time m" tick] tick_no_exit
  by (auto simp: advance_def)

lemma op_pinned:
  assumes "m_state m \<in> pinned" and "set_option (op_event tick op) \<inter> exits = {}"
  shows "m_state (fst (fsm_op_step tick (build_rules trs) op (m, c))) \<in> pinned"
  using assms fire_pinned advance_pinned by (cases op) auto

lemma run_pinned:
  assumes "m_state m \<in> pinned" and "\<forall>op \<in> set ops. set_option (op_event tick op) \<inter> exits = {}"
  shows "m_state (fst (fsm_run tick (build_rules trs) ops (m, c))) \<in> pinned"
  using assms
proof (induction ops arbitrary: m c)
  case Nil
  then show ?case by (simp add: fsm_run_def)
next
  case (Cons op ops)
  obtain m' c' where step: "fsm_op_step tick (build_rules trs) op (m, c) = (m', c')"
    by fastforce
  with Cons.prems op_pinned [of m op c] have "m_state m' \<in> pinned" by simp
  with Cons.IH [of m' c'] Cons.prems step show ?case by (simp add: fsm_run_def)
qed

end

section \<open>Priority of the rules\<close>

text \<open>\<open>Fire\<close> on a machine whose rules were added one by one takes the first rule, in the order of
  registration, that starts in the current state, reacts to the event and passes its guard (no
  guard counts as passing); it enters that rule's target, stamps the time and then runs the
  effect. With no such rule nothing changes and nothing is reported as changed. The index kept
  per state and event therefore decides exactly as a scan of the table would.\<close>

lemma fire_takes_first_rule:
  "fire (build_rules trs) now ev p (m, c) =
     (case find (\<lambda>tr. t_from tr = m_state m \<and> t_event tr = ev \<and> guard_passes tr ev p c) trs of
        None \<Rightarrow> ((m, c), m_state m, False)
      | Some tr \<Rightarrow>
          (run_effect tr now ev p (m\<lparr>m_state := t_to tr, m_entered_at := now\<rparr>, c), t_to tr, True))"
  by (simp add: fire_def match_locked_def r_index_build first_passing_find find_filter
      enter_state_def conj_assoc split: option.split)

end
