(* ===== verification/ApiFormat.thy ===== *)
theory ApiFormat
  imports GoPrelude
begin

text \<open>
  Protocol formats and upstream URLs: \<open>internal/apiformat/format.go\<close> and
  \<open>internal/apiformat/url.go\<close>. A format is a string, as in the code. Decoding a JSON array of
  strings (\<open>encoding/json\<close>) is the parameter \<open>decode\<close>, with \<open>None\<close> for a decoding error.
\<close>

type_synonym api_format = string

abbreviation FormatOpenAI :: api_format where "FormatOpenAI \<equiv> ''openai''"
abbreviation FormatAnthropic :: api_format where "FormatAnthropic \<equiv> ''anthropic''"
abbreviation FormatGemini :: api_format where "FormatGemini \<equiv> ''gemini''"

definition all_formats :: "api_format list" where
  "all_formats = [FormatOpenAI, FormatAnthropic, FormatGemini]"

definition valid_format :: "string \<Rightarrow> bool" where
  "valid_format f = (f = FormatOpenAI \<or> f = FormatAnthropic \<or> f = FormatGemini)"

definition parse_formats :: "(string \<Rightarrow> api_format list option) \<Rightarrow> string \<Rightarrow> api_format list" where
  "parse_formats decode json_str =
     (if json_str = '''' then [FormatOpenAI]
      else case decode json_str of
        None \<Rightarrow> [FormatOpenAI]
      | Some formats \<Rightarrow> if length formats = 0 then [FormatOpenAI] else formats)"

fun supports_format :: "api_format list \<Rightarrow> api_format \<Rightarrow> bool" where
  "supports_format [] f = False"
| "supports_format (v # formats) f = (if v = f then True else supports_format formats f)"

lemma supports_format_iff [simp]: "supports_format formats f \<longleftrightarrow> f \<in> set formats"
  by (induction formats) auto

lemma parse_formats_nonempty: "parse_formats decode s \<noteq> []"
  by (simp add: parse_formats_def split: option.split)

section \<open>URLs\<close>

definition known_suffixes :: "string list" where
  "known_suffixes =
     [''/v1/chat/completions'', ''/v1/messages'', ''/v1/responses'', ''/v1/images/'',
      ''/v1beta/models'', ''/v1beta'', ''/v1/chat'', ''/v1'']"

fun strip_first_suffix :: "string list \<Rightarrow> string \<Rightarrow> string" where
  "strip_first_suffix [] u = u"
| "strip_first_suffix (s # ss) u =
     (if has_suffix u s then trim_suffix u s else strip_first_suffix ss u)"

definition normalize_models_base_url :: "string \<Rightarrow> string" where
  "normalize_models_base_url base_url =
     trim_right_char CHR ''/''
       (strip_first_suffix known_suffixes (trim_right_char CHR ''/'' base_url))"

definition strip_suffixes :: "string \<Rightarrow> string list" where
  "strip_suffixes model =
     [''/v1/chat/completions'', ''/v1/messages'',
      ''/v1beta/models/'' @ model @ '':generateContent'',
      ''/v1beta/models'', ''/v1beta'', ''/v1/chat'', ''/v1'']"

definition strip_known_suffix :: "string \<Rightarrow> string \<Rightarrow> string" where
  "strip_known_suffix u model = strip_first_suffix (strip_suffixes model) u"

definition build_urls :: "string \<Rightarrow> string \<Rightarrow> api_format \<Rightarrow> string list" where
  "build_urls base_url model format =
     (let u = strip_known_suffix (trim_right_char CHR ''/'' base_url) model in
      if format = FormatAnthropic then [u @ ''/v1/messages'', u @ ''/messages'']
      else if format = FormatGemini then [u @ ''/v1beta/models/'' @ model @ '':generateContent'']
      else [u @ ''/v1/chat/completions'', u @ ''/chat/completions''])"

text \<open>\<open>BuildURL\<close> indexes the candidates at 0; \<open>build_urls_nonempty\<close> shows the index in range.\<close>

definition build_url :: "string \<Rightarrow> string \<Rightarrow> api_format \<Rightarrow> string" where
  "build_url base_url model format = build_urls base_url model format ! 0"

definition detect_format_from_path :: "string \<Rightarrow> api_format" where
  "detect_format_from_path path =
     (if has_prefix path ''/v1/messages'' then FormatAnthropic
      else if has_prefix path ''/v1beta/models/'' then FormatGemini
      else FormatOpenAI)"

fun replace_first :: "string \<Rightarrow> string \<Rightarrow> string \<Rightarrow> string" where
  "replace_first [] old new = (if old = [] then new else [])"
| "replace_first (c # s) old new =
     (if take (length old) (c # s) = old then new @ drop (length old) (c # s)
      else c # replace_first s old new)"

definition ensure_gemini_stream_sse :: "string \<Rightarrow> string" where
  "ensure_gemini_stream_sse u =
     (let u1 = (if \<not> str_contains u '':streamGenerateContent''
                then replace_first u '':generateContent'' '':streamGenerateContent'' else u) in
      if \<not> str_contains u1 ''alt=sse''
      then u1 @ (if str_contains u1 ''?'' then ''&'' else ''?'') @ ''alt=sse''
      else u1)"

definition extract_gemini_model :: "string \<Rightarrow> string" where
  "extract_gemini_model path =
     (if \<not> has_prefix path ''/v1beta/models/'' then ''''
      else let rest = trim_prefix path ''/v1beta/models/'';
               head = takeWhile (\<lambda>c. c \<noteq> CHR '':'') rest in
        if length head < length rest \<and> 0 < length head then head else rest)"

lemma build_urls_nonempty: "build_urls base_url model format \<noteq> []"
  by (simp add: build_urls_def Let_def)

lemma trim_slash_append [simp]:
  "trim_right_char c (s @ [c]) = trim_right_char c s"
  by (simp add: trim_right_char_def)

text \<open>Whatever number of trailing slashes a configured base URL carries, the candidate URLs are
  the same.\<close>

lemma build_urls_trailing_slash:
  "build_urls (base_url @ replicate n CHR ''/'') model format = build_urls base_url model format"
proof (induction n)
  case 0
  then show ?case by simp
next
  case (Suc n)
  have "base_url @ replicate (Suc n) CHR ''/'' = (base_url @ replicate n CHR ''/'') @ [CHR ''/'']"
    by (simp add: replicate_append_same)
  with Suc show ?case by (simp only: build_urls_def trim_slash_append)
qed

lemma has_prefix_simps [simp]:
  "has_prefix u [] = True" "has_prefix [] (d # p) = False"
  "has_prefix (c # u) (d # p) = (c = d \<and> has_prefix u p)"
  by (auto simp: has_prefix_def)

lemma has_suffix_rev: "has_suffix u s = has_prefix (rev u) (rev s)"
  unfolding has_suffix_iff has_prefix_iff by (metis rev_append rev_rev_ident)

lemmas suffix_simps = has_suffix_rev has_prefix_simps

lemma has_suffix_append_rev: "has_suffix (root @ s) t = has_prefix (rev s @ rev root) (rev t)"
  by (simp add: has_suffix_rev)

lemma strip_known_suffix_append:
  assumes "suffix \<in> set (strip_suffixes model)"
  shows "strip_known_suffix (root @ suffix) model = root"
proof -
  from assms consider "suffix = ''/v1/chat/completions''" | "suffix = ''/v1/messages''"
    | "suffix = ''/v1beta/models/'' @ model @ '':generateContent''"
    | "suffix = ''/v1beta/models''" | "suffix = ''/v1beta''" | "suffix = ''/v1/chat''"
    | "suffix = ''/v1''"
    unfolding strip_suffixes_def set_simps insert_iff empty_iff by blast
  then show ?thesis
    by cases (simp_all add: strip_known_suffix_def strip_suffixes_def has_suffix_append_rev)
qed

lemma strip_first_suffix_miss:
  "\<forall>s \<in> set ss. \<not> has_suffix u s \<Longrightarrow> strip_first_suffix ss u = u"
  by (induction ss) auto

text \<open>A base URL configured with any of the API paths the gateway knows at its end gives the same
  candidate URLs as the platform root itself, so no segment is ever doubled.\<close>

lemma build_urls_known_suffix:
  assumes root: "\<forall>s \<in> set (strip_suffixes model). \<not> has_suffix root s"
    and slash: "root = [] \<or> last root \<noteq> CHR ''/''"
    and suffix: "suffix \<in> set (strip_suffixes model)"
  shows "build_urls (root @ suffix) model format = build_urls root model format"
proof -
  have "trim_right_char CHR ''/'' root = root"
    using slash by (rule trim_right_char_id)
  moreover have "trim_right_char CHR ''/'' (root @ suffix) = root @ suffix"
    using suffix by (intro trim_right_char_id) (auto simp: strip_suffixes_def)
  moreover have "strip_known_suffix root model = root"
    using root by (simp add: strip_known_suffix_def strip_first_suffix_miss)
  moreover have "strip_known_suffix (root @ suffix) model = root"
    using suffix by (rule strip_known_suffix_append)
  ultimately show ?thesis by (simp add: build_urls_def)
qed

lemma build_urls_known_suffix_witness:
  "build_urls ''https://h/v1'' ''m'' FormatAnthropic = build_urls ''https://h'' ''m'' FormatAnthropic"
proof -
  have "\<forall>s \<in> set (strip_suffixes ''m''). \<not> has_suffix ''https://h'' s"
    by (simp add: strip_suffixes_def suffix_simps)
  then have "build_urls (''https://h'' @ ''/v1'') ''m'' FormatAnthropic =
      build_urls ''https://h'' ''m'' FormatAnthropic"
    by (rule build_urls_known_suffix) (simp_all add: strip_suffixes_def)
  then show ?thesis by simp
qed

section \<open>Gemini paths\<close>

lemma replace_first_no: "\<not> str_contains u old \<Longrightarrow> old \<noteq> [] \<Longrightarrow> replace_first u old new = u"
  by (induction u) auto

lemma replace_first_contains:
  "str_contains u old \<Longrightarrow> old \<noteq> [] \<Longrightarrow> str_contains (replace_first u old new) new"
proof (induction u)
  case Nil
  then show ?case by simp
next
  case (Cons c u)
  show ?case
  proof (cases "take (length old) (c # u) = old")
    case True
    then have "replace_first (c # u) old new = new @ drop (length old) (c # u)" by simp
    then show ?thesis by (metis append_Nil str_contains_iff)
  next
    case False
    with Cons show ?thesis by simp
  qed
qed

lemma str_contains_append: "str_contains u p \<Longrightarrow> str_contains (u @ v) p"
  by (metis append.assoc str_contains_iff)

lemma str_contains_append_right: "str_contains v p \<Longrightarrow> str_contains (u @ v) p"
  by (metis append.assoc str_contains_iff)

lemma take_fresh:
  "x \<notin> set p \<Longrightarrow> take (length p) (u @ x # v) = p \<longleftrightarrow> take (length p) u = p"
proof (induction p arbitrary: u)
  case Nil
  then show ?case by simp
next
  case (Cons y p)
  then show ?case by (cases u) auto
qed

text \<open>A character outside the pattern separates its occurrences.\<close>

lemma str_contains_separated:
  "x \<notin> set p \<Longrightarrow> p \<noteq> [] \<Longrightarrow> str_contains (u @ x # v) p \<longleftrightarrow> str_contains u p \<or> str_contains v p"
proof (induction u)
  case Nil
  then show ?case using take_fresh [of x p "[]" v] by auto
next
  case (Cons c u)
  then show ?case using take_fresh [of x p "c # u" v] by auto
qed

lemma str_contains_query:
  assumes "v = [] \<or> (\<exists>x. v = x # q \<and> (x = CHR ''?'' \<or> x = CHR ''&''))"
    and "CHR ''?'' \<notin> set p" "CHR ''&'' \<notin> set p" "p \<noteq> []" "\<not> str_contains q p"
  shows "str_contains (u @ v) p = str_contains u p"
proof (cases "v = []")
  case False
  with assms(1) obtain x where v: "v = x # q" and x: "x = CHR ''?'' \<or> x = CHR ''&''" by blast
  from x assms(2,3) have "x \<notin> set p" by blast
  from str_contains_separated [OF this assms(4)] assms(5) v show ?thesis by simp
qed simp

text \<open>Rewriting a Gemini URL into its streaming form is idempotent, and the result always asks for
  server-sent events; a URL with the method suffix gets the streaming method.\<close>

lemma ensure_gemini_stream_sse_idem:
  "ensure_gemini_stream_sse (ensure_gemini_stream_sse u) = ensure_gemini_stream_sse u \<and>
   str_contains (ensure_gemini_stream_sse u) ''alt=sse'' \<and>
   str_contains (ensure_gemini_stream_sse u) '':streamGenerateContent'' =
     (str_contains u '':generateContent'' \<or> str_contains u '':streamGenerateContent'')"
proof -
  let ?S = "'':streamGenerateContent''" and ?G = "'':generateContent''" and ?A = "''alt=sse''"
  define u1 where "u1 = (if \<not> str_contains u ?S then replace_first u ?G ?S else u)"
  define v where "v = (if str_contains u1 ?A then [] else
    (if str_contains u1 ''?'' then ''&'' else ''?'') @ ?A)"
  have e: "ensure_gemini_stream_sse u = u1 @ v"
    by (simp add: ensure_gemini_stream_sse_def u1_def v_def Let_def)
  have A: "str_contains (u1 @ v) ?A"
    by (auto simp: v_def intro: str_contains_append str_contains_append_right)
  have vs: "v = [] \<or> (\<exists>x. v = x # ?A \<and> (x = CHR ''?'' \<or> x = CHR ''&''))"
    by (auto simp: v_def)
  have S: "str_contains (u1 @ v) ?S = str_contains u1 ?S"
    by (rule str_contains_query [OF vs]) simp_all
  have G: "str_contains (u1 @ v) ?G = str_contains u1 ?G"
    by (rule str_contains_query [OF vs]) simp_all
  have S1: "str_contains u1 ?S = (str_contains u ?G \<or> str_contains u ?S)"
  proof (cases "str_contains u ?S")
    case False
    then show ?thesis
      using replace_first_contains [of u ?G ?S] replace_first_no [of u ?G ?S]
      by (cases "str_contains u ?G") (simp_all add: u1_def)
  qed (simp add: u1_def)
  have n: "\<not> str_contains u1 ?G" if "\<not> str_contains u1 ?S"
  proof -
    from that S1 have no: "\<not> str_contains u ?G" by blast
    then have "u1 = u" by (simp add: u1_def replace_first_no)
    with no show ?thesis by simp
  qed
  have "replace_first (u1 @ v) ?G ?S = u1 @ v" if "\<not> str_contains (u1 @ v) ?S"
  proof (rule replace_first_no)
    show "\<not> str_contains (u1 @ v) ?G" using that S G n by blast
  qed simp
  then have "ensure_gemini_stream_sse (u1 @ v) = u1 @ v"
    using A by (simp add: ensure_gemini_stream_sse_def Let_def)
  with e A S S1 show ?thesis by metis
qed



end
