(* ===== verification/Models.thy ===== *)
theory Models
  imports ApiFormat
begin

text \<open>
  The rows the gateway works on, from \<open>internal/models/models.go\<close>: platform keys, upstream
  endpoints joined with their platform, key and model blocks, client models; and the functions of
  that file over them. A \<open>*time.Time\<close> is an option.

  Everything the code takes from outside its own sources is a field of the record \<open>runtime\<close>:
  decoding JSON text (\<open>encoding/json\<close>), the Unicode lower-case tables, and the local time zone.
\<close>

record time_period_rule =
  tp_start :: string
  tp_end :: string
  tp_cost :: int

record runtime =
  rt_string_list :: "string \<Rightarrow> string list option"
  rt_string_map :: "string \<Rightarrow> (string \<times> string) list option"
  rt_time_rules :: "string \<Rightarrow> time_period_rule list option"
  rt_lower :: "string \<Rightarrow> string"
  rt_hhmm :: "instant \<Rightarrow> string"
  rt_day_start :: "instant \<Rightarrow> instant"

record platform_key =
  pk_id :: int
  pk_platform_id :: int
  pk_key_index :: int
  pk_token :: string
  pk_label :: string
  pk_enabled :: bool
  pk_created_at :: instant
  pk_updated_at :: instant
  pk_failure_type :: int
  pk_failure_reason :: string
  pk_failed_at :: "instant option"
  pk_expires_at :: "instant option"
  pk_is_free :: bool

record rapi =
  ra_id :: int
  ra_alias :: string
  ra_model :: string
  ra_notes :: string
  ra_vendor :: string
  ra_series :: string
  ra_model_name :: string
  ra_version :: string
  ra_suffix :: string
  ra_platform_id :: int
  ra_enabled :: bool
  ra_available :: bool
  ra_unavailable_reason :: string
  ra_base_cost :: int
  ra_high_cost :: int
  ra_rpm_limit :: int
  ra_rph_limit :: int
  ra_rpd_limit :: int
  ra_tpm_limit :: int
  ra_tph_limit :: int
  ra_tpd_limit :: int
  ra_supported_formats :: string
  ra_time_period_rules :: string
  ra_custom_headers :: string
  ra_key_ids :: string
  ra_source :: string
  ra_order_index :: int
  ra_platform_name :: string
  ra_platform_custom_headers :: string
  ra_platform_supported_formats :: string
  ra_platform_format_endpoints :: string
  ra_base_url :: string
  ra_token :: string
  ra_last_token_fetch :: instant
  ra_created_at :: instant
  ra_updated_at :: instant
  ra_keys :: "platform_key list"

text \<open>The zero values \<open>RAPIWithPlatform{}\<close> and \<open>PlatformKey{}\<close>.\<close>

definition zero_rapi :: rapi where
  "zero_rapi = \<lparr>ra_id = 0, ra_alias = [], ra_model = [], ra_notes = [], ra_vendor = [],
    ra_series = [], ra_model_name = [], ra_version = [], ra_suffix = [], ra_platform_id = 0,
    ra_enabled = False, ra_available = False, ra_unavailable_reason = [], ra_base_cost = 0,
    ra_high_cost = 0, ra_rpm_limit = 0, ra_rph_limit = 0, ra_rpd_limit = 0, ra_tpm_limit = 0,
    ra_tph_limit = 0, ra_tpd_limit = 0, ra_supported_formats = [], ra_time_period_rules = [],
    ra_custom_headers = [], ra_key_ids = [], ra_source = [], ra_order_index = 0,
    ra_platform_name = [], ra_platform_custom_headers = [], ra_platform_supported_formats = [],
    ra_platform_format_endpoints = [], ra_base_url = [], ra_token = [],
    ra_last_token_fetch = zero_time, ra_created_at = zero_time, ra_updated_at = zero_time,
    ra_keys = []\<rparr>"

definition zero_key :: platform_key where
  "zero_key = \<lparr>pk_id = 0, pk_platform_id = 0, pk_key_index = 0, pk_token = [], pk_label = [],
    pk_enabled = False, pk_created_at = zero_time, pk_updated_at = zero_time, pk_failure_type = 0,
    pk_failure_reason = [], pk_failed_at = None, pk_expires_at = None, pk_is_free = False\<rparr>"

record platform =
  pt_id :: int
  pt_name :: string
  pt_base_url :: string
  pt_token :: string
  pt_notes :: string
  pt_custom_headers :: string
  pt_supported_formats :: string
  pt_format_endpoints :: string
  pt_login_account :: string
  pt_last_token_fetch :: instant
  pt_enabled :: bool
  pt_available :: bool
  pt_created_at :: instant
  pt_updated_at :: instant

record lapi =
  la_id :: int
  la_alias :: string
  la_notes :: string
  la_vendor :: string
  la_series :: string
  la_model_name :: string
  la_version :: string
  la_suffix :: string
  la_enabled :: bool
  la_created_at :: instant

record key_model_block_row =
  bl_key_id :: int
  bl_rapi_id :: int
  bl_reason :: string
  bl_expires_at :: instant
  bl_created_at :: instant

definition is_auto_discovered :: "string \<Rightarrow> bool" where
  "is_auto_discovered source = (trim_space source = ''auto_discover'')"

definition supports_api_format :: "runtime \<Rightarrow> rapi \<Rightarrow> string \<Rightarrow> bool" where
  "supports_api_format rt r format =
     (if ra_platform_supported_formats r \<noteq> '''' \<and> ra_platform_supported_formats r \<noteq> ''[]''
      then supports_format (parse_formats (rt_string_list rt) (ra_platform_supported_formats r)) format
      else supports_format (parse_formats (rt_string_list rt) (ra_supported_formats r)) format)"

fun join_dash :: "string list \<Rightarrow> string" where
  "join_dash [] = []"
| "join_dash [p] = p"
| "join_dash (p # q # ps) = p @ ''-'' @ join_dash (q # ps)"

definition compute_model_name ::
  "string \<Rightarrow> string \<Rightarrow> string \<Rightarrow> string \<Rightarrow> string \<Rightarrow> string \<Rightarrow> string" where
  "compute_model_name vendor series version suffix notes fallback =
     (let parts = filter (\<lambda>p. p \<noteq> []) [series, version, suffix];
          name = (if vendor \<noteq> [] then vendor @ ''/'' else []) @ join_dash parts in
      if name \<noteq> [] then name
      else if notes \<noteq> [] then notes
      else fallback)"

lemma supports_api_format_platform:
  "ra_platform_supported_formats r \<notin> {'''', ''[]''} \<Longrightarrow>
   supports_api_format rt (r\<lparr>ra_supported_formats := f\<rparr>) fmt = supports_api_format rt r fmt"
  by (simp add: supports_api_format_def)

lemma join_dash_Nil_iff: "\<forall>p \<in> set ps. p \<noteq> [] \<Longrightarrow> join_dash ps = [] \<longleftrightarrow> ps = []"
  by (cases ps rule: join_dash.cases) auto

end
