(* ===== verification/EntityBase.thy ===== *)
theory EntityBase
  imports Fsm Models
begin

text \<open>
  What the entity state machines share, from \<open>internal/entity/entity.go\<close>: the states and events,
  the classification of upstream failures, the cooldown configuration, the payloads, the store
  interface and the predicates on key rows.

  The store behind an entity (\<open>entity.Store\<close>) is reached through calls whose results the entity
  ignores, so the model keeps the calls: \<open>world\<close> is the list of store calls made so far, in order,
  and a flag that an effect failed its payload assertion (\<open>ctx.Payload.(T)\<close> panics on another
  type). \<open>apply_store_call\<close> is what the calls do to the persisted rows (\<open>internal/db\<close>).
\<close>

datatype state =
    Healthy | Cooling | PlatformFailed | Invalidated | PermanentFailed | Disabled | Expired
  | Unavailable

datatype event =
    EvSuccess | EvSessionFailure | EvPlatformFailure | EvPermanentFailure | EvInvalidate
  | EvRevalidate | EvAllKeysSoft | EvAllKeysHard | EvDisable | EvEnable | EvExpire
  | EvDetectSuccess | EvDetectFailure | TimerExpired

section \<open>Failure classification\<close>

datatype failure_scope = ScopeSession | ScopeSystem | ScopePlatform

definition classify_failure :: "int \<Rightarrow> failure_scope" where
  "classify_failure status_code =
     (if status_code = 401 then ScopeSystem
      else if status_code \<in> {402, 403, 409, 423, 451} then ScopePlatform
      else ScopeSession)"

text \<open>The Chinese keywords are given by their UTF-8 bytes.\<close>

definition recoverable_billing_keywords :: "string list" where
  "recoverable_billing_keywords =
     [utf8 [0xE7,0xA7,0xAF,0xE5,0x88,0x86,0xE4,0xB8,0x8D,0xE8,0xB6,0xB3],
      utf8 [0xE4,0xBD,0x99,0xE9,0xA2,0x9D,0xE4,0xB8,0x8D,0xE8,0xB6,0xB3],
      utf8 [0xE6,0xAC,0xA0,0xE8,0xB4,0xB9],
      utf8 [0xE4,0xBD,0x99,0xE9,0xA2,0x9D,0xE4,0xB8,0xBA,0x30],
      utf8 [0xE4,0xBD,0x99,0xE9,0xA2,0x9D,0xE4,0xB8,0xBA,0xE9,0x9B,0xB6],
      ''insufficient balance'', ''insufficient_balance'', ''insufficient quota'',
      ''insufficient_quota'', ''billing'', ''payment required'', ''quota exhausted'',
      ''exceeded your current quota'', ''account balance'']"

definition contains_any :: "(string \<Rightarrow> string) \<Rightarrow> string list \<Rightarrow> string \<Rightarrow> bool" where
  "contains_any ulow kws body =
     (if body = [] then False
      else list_ex (\<lambda>kw. str_contains (to_lower ulow body) kw) kws)"

definition is_recoverable_billing_error :: "(string \<Rightarrow> string) \<Rightarrow> string \<Rightarrow> bool" where
  "is_recoverable_billing_error ulow body = contains_any ulow recoverable_billing_keywords body"

definition capability_mismatch_keywords :: "string list" where
  "capability_mismatch_keywords =
     [''model not found'', ''model_not_found'', ''model not exist'', ''model does not exist'',
      ''model doesn'' @ [CHR 0x27] @ ''t exist'', ''does not exist'',
      ''doesn'' @ [CHR 0x27] @ ''t exist'', ''no such model'', ''unknown model'',
      ''invalid model'', ''invalid_model'', ''model not enabled'',
      utf8 [0xE6,0xA8,0xA1,0xE5,0x9E,0x8B,0xE4,0xB8,0x8D,0xE5,0xAD,0x98,0xE5,0x9C,0xA8],
      utf8 [0xE6,0x97,0xA0,0xE6,0xAD,0xA4,0xE6,0xA8,0xA1,0xE5,0x9E,0x8B],
      utf8 [0xE8,0xAF,0xA5,0xE6,0xA8,0xA1,0xE5,0x9E,0x8B,0xE4,0xB8,0x8D,0xE5,0xAD,0x98,0xE5,0x9C,0xA8],
      utf8 [0xE6,0xA8,0xA1,0xE5,0x9E,0x8B,0xE6,0x9C,0xAA,0xE5,0xBC,0x80,0xE9,0x80,0x9A],
      utf8 [0xE6,0xA8,0xA1,0xE5,0x9E,0x8B,0xE4,0xB8,0x8D,0xE5,0xAD,0x98,0xE5,0x9C,0xA8,0xE6,0x88,0x96,
            0xE5,0xB7,0xB2,0xE4,0xB8,0x8B,0xE7,0xBA,0xBF]]"

definition is_capability_mismatch :: "(string \<Rightarrow> string) \<Rightarrow> string \<Rightarrow> bool" where
  "is_capability_mismatch ulow body = contains_any ulow capability_mismatch_keywords body"

section \<open>Configuration, payloads, store\<close>

record cooldown_config =
  cc_default :: duration
  cc_timeout :: duration
  cc_max :: duration
  cc_backoff :: bool
  cc_billing :: duration

record session_failure_payload =
  sf_reason :: string
  sf_retry_at :: instant
  sf_is_timeout :: bool
  sf_is_billing :: bool
  sf_persist_temporary :: bool

record all_keys_payload =
  ak_hard :: bool
  ak_reason :: string
  ak_pool_recover_at :: instant

datatype payload =
    SessionFailure session_failure_payload
  | AllKeys all_keys_payload
  | ReasonText string

datatype store_call =
    SetPlatformAvailable int bool
  | SetRAPIUnavailable int bool string
  | MarkKeyPermanentFailure int string
  | MarkKeyTemporaryFailure int string
  | ClearKeyFailure int

record world =
  w_calls :: "store_call list"
  w_panicked :: bool

definition new_world :: world where
  "new_world = \<lparr>w_calls = [], w_panicked = False\<rparr>"

definition emit :: "store_call \<Rightarrow> world \<Rightarrow> world" where
  "emit c w = w\<lparr>w_calls := w_calls w @ [c]\<rparr>"

definition panic :: "world \<Rightarrow> world" where
  "panic w = w\<lparr>w_panicked := True\<rparr>"

text \<open>The persisted health columns and what \<open>internal/db\<close> writes there for each call: an UPDATE of
  the row with that id, which touches nothing when there is no such row.\<close>

record health_rows =
  h_keys :: "int \<rightharpoonup> int \<times> string"
  h_rapis :: "int \<rightharpoonup> bool \<times> string"
  h_platforms :: "int \<rightharpoonup> bool"

definition update_row :: "'k \<Rightarrow> 'v \<Rightarrow> ('k \<rightharpoonup> 'v) \<Rightarrow> ('k \<rightharpoonup> 'v)" where
  "update_row k v m = (if m k = None then m else m(k \<mapsto> v))"

fun apply_store_call :: "store_call \<Rightarrow> health_rows \<Rightarrow> health_rows" where
  "apply_store_call (SetPlatformAvailable i a) h = h\<lparr>h_platforms := update_row i a (h_platforms h)\<rparr>"
| "apply_store_call (SetRAPIUnavailable i a r) h =
     h\<lparr>h_rapis := update_row i (a, if a then [] else r) (h_rapis h)\<rparr>"
| "apply_store_call (MarkKeyPermanentFailure i r) h = h\<lparr>h_keys := update_row i (2, r) (h_keys h)\<rparr>"
| "apply_store_call (MarkKeyTemporaryFailure i r) h = h\<lparr>h_keys := update_row i (1, r) (h_keys h)\<rparr>"
| "apply_store_call (ClearKeyFailure i) h = h\<lparr>h_keys := update_row i (0, []) (h_keys h)\<rparr>"

section \<open>Key rows\<close>

definition past_expiry :: "platform_key \<Rightarrow> instant \<Rightarrow> bool" where
  "past_expiry k now =
     (case pk_expires_at k of None \<Rightarrow> False | Some t \<Rightarrow> t \<noteq> zero_time \<and> t < now)"

definition key_row_usable :: "platform_key \<Rightarrow> instant \<Rightarrow> bool" where
  "key_row_usable k now =
     (if \<not> pk_enabled k \<or> pk_failure_type k = 2 then False
      else if past_expiry k now then False
      else True)"

definition dead_reason :: "platform_key \<Rightarrow> instant \<Rightarrow> string \<Rightarrow> string" where
  "dead_reason k now reason =
     (if reason \<noteq> [] then reason
      else if \<not> pk_enabled k then ''Key '' @ utf8 [0xE5,0xB7,0xB2,0xE7,0xA6,0x81,0xE7,0x94,0xA8]
      else if pk_failure_type k = 2 then
        (if pk_failure_reason k = []
         then ''Key '' @ utf8 [0xE6,0xB0,0xB8,0xE4,0xB9,0x85,0xE5,0xA4,0xB1,0xE6,0x95,0x88]
              @ '' (401/402/403)''
         else pk_failure_reason k)
      else if past_expiry k now then ''Key '' @ utf8 [0xE5,0xB7,0xB2,0xE8,0xBF,0x87,0xE6,0x9C,0x9F]
      else reason)"

fun hard_dead_loop :: "platform_key list \<Rightarrow> instant \<Rightarrow> string \<Rightarrow> bool \<times> string" where
  "hard_dead_loop [] now reason = (True, reason)"
| "hard_dead_loop (k # ks) now reason =
     (if key_row_usable k now then (False, [])
      else hard_dead_loop ks now (dead_reason k now reason))"

definition keys_hard_dead :: "platform_key list \<Rightarrow> instant \<Rightarrow> bool \<times> string" where
  "keys_hard_dead ks now = (if ks = [] then (False, []) else hard_dead_loop ks now [])"

lemma new_world_simps [simp]: "w_calls new_world = []" "\<not> w_panicked new_world"
  by (simp_all add: new_world_def)

lemma emit_simps [simp]:
  "w_calls (emit c w) = w_calls w @ [c]" "w_panicked (emit c w) = w_panicked w"
  by (simp_all add: emit_def)

lemma panic_simps [simp]: "w_calls (panic w) = w_calls w" "w_panicked (panic w)"
  by (simp_all add: panic_def)

lemma hard_dead_loop_fst: "fst (hard_dead_loop ks now r) = list_all (\<lambda>k. \<not> key_row_usable k now) ks"
  by (induction ks arbitrary: r) auto

lemma dead_reason_keep [simp]: "r \<noteq> [] \<Longrightarrow> dead_reason k now r = r"
  by (simp add: dead_reason_def)

lemma dead_reason_nonempty: "\<not> key_row_usable k now \<Longrightarrow> dead_reason k now r \<noteq> []"
  by (auto simp: dead_reason_def key_row_usable_def)

lemma hard_dead_loop_reason:
  "r \<noteq> [] \<Longrightarrow> list_all (\<lambda>k. \<not> key_row_usable k now) ks \<Longrightarrow> hard_dead_loop ks now r = (True, r)"
  by (induction ks) auto

text \<open>A key pool counts as hard-dead exactly when it is not empty and no row of it is usable by its
  persisted facts; the reason reported is then the one of its first key, and never empty.\<close>

lemma keys_hard_dead_spec:
  "(fst (keys_hard_dead ks now) \<longleftrightarrow> ks \<noteq> [] \<and> (\<forall>k \<in> set ks. \<not> key_row_usable k now)) \<and>
   (fst (keys_hard_dead ks now) \<longrightarrow>
      snd (keys_hard_dead ks now) = dead_reason (hd ks) now [] \<and> snd (keys_hard_dead ks now) \<noteq> []) \<and>
   (\<not> fst (keys_hard_dead ks now) \<longrightarrow> snd (keys_hard_dead ks now) = [])"
proof (cases ks)
  case Nil
  then show ?thesis by (simp add: keys_hard_dead_def)
next
  case (Cons k ks')
  have "snd (hard_dead_loop xs now r) = []" if "\<not> fst (hard_dead_loop xs now r)" for xs r
    using that by (induction xs arbitrary: r) (auto split: if_splits)
  moreover have "hard_dead_loop ks' now (dead_reason k now []) = (True, dead_reason k now [])"
    if "\<not> key_row_usable k now" "list_all (\<lambda>k. \<not> key_row_usable k now) ks'"
    using that by (intro hard_dead_loop_reason dead_reason_nonempty)
  ultimately show ?thesis
    using Cons dead_reason_nonempty [of k now "[]"]
    by (auto simp: keys_hard_dead_def hard_dead_loop_fst list_all_iff)
qed

lemma keys_hard_dead_spec_witness:
  "\<exists>k. fst (keys_hard_dead [k] 5) \<and> snd (keys_hard_dead [k] 5) = ''revoked''"
proof -
  define k where "k = \<lparr>pk_id = 1, pk_platform_id = 1, pk_key_index = 0, pk_token = ''t'',
    pk_label = [], pk_enabled = True, pk_created_at = 1, pk_updated_at = 1, pk_failure_type = 2,
    pk_failure_reason = ''revoked'', pk_failed_at = None, pk_expires_at = None, pk_is_free = False\<rparr>"
  have "\<forall>k' \<in> set [k]. \<not> key_row_usable k' 5"
    by (simp add: k_def key_row_usable_def)
  with keys_hard_dead_spec [of "[k]" 5] show ?thesis
    by (intro exI [of _ k]) (auto simp: k_def dead_reason_def)
qed

end
