(* ===== verification/PlatformEntity.thy ===== *)
theory PlatformEntity
  imports EntityBase
begin

text \<open>
  The state machine of one platform, \<open>internal/entity/platform.go\<close>: healthy or unavailable, written
  through to the platform's row on every probe.
\<close>

record platform_data =
  p_id :: int
  p_has_store :: bool

type_synonym platform_entity = "state machine \<times> platform_data"
type_synonym platform_st = "state machine \<times> platform_data \<times> world"
type_synonym platform_effect = "instant \<Rightarrow> (event, payload) fsm_context \<Rightarrow> platform_st \<Rightarrow> platform_st"
type_synonym platform_transition = "(state, event, payload, platform_data \<times> world) transition"

definition platform_on_detect_success :: platform_effect where
  "platform_on_detect_success now ctx = (\<lambda>(m, d, w).
     (m, d, if p_has_store d then emit (SetPlatformAvailable (p_id d) True) w else w))"

definition platform_on_detect_failure :: platform_effect where
  "platform_on_detect_failure now ctx = (\<lambda>(m, d, w).
     (m, d, if p_has_store d then emit (SetPlatformAvailable (p_id d) False) w else w))"

definition platform_edge :: "state \<Rightarrow> event \<Rightarrow> state \<Rightarrow> platform_effect \<Rightarrow> platform_transition" where
  "platform_edge s e s' f =
     \<lparr>t_from = s, t_event = e, t_to = s', t_guard = None, t_effect = Some f\<rparr>"

definition platform_table :: "platform_transition list" where
  "platform_table =
     [platform_edge Unavailable EvDetectSuccess Healthy platform_on_detect_success,
      platform_edge Healthy EvDetectFailure Unavailable platform_on_detect_failure,
      platform_edge Healthy EvDetectSuccess Healthy platform_on_detect_success,
      platform_edge Unavailable EvDetectFailure Unavailable platform_on_detect_failure]"

definition platform_rules :: "(state, event, payload, platform_data \<times> world) rules" where
  "platform_rules = build_rules platform_table"

definition new_platform :: "int \<Rightarrow> bool \<Rightarrow> bool \<Rightarrow> instant \<Rightarrow> platform_entity" where
  "new_platform i initial_healthy has_store now =
     (new_machine (if initial_healthy then Healthy else Unavailable) now,
      \<lparr>p_id = i, p_has_store = has_store\<rparr>)"

definition platform_detect_success :: "instant \<Rightarrow> platform_st \<Rightarrow> platform_st" where
  "platform_detect_success now st = fst (fire platform_rules now EvDetectSuccess None st)"

definition platform_detect_failure :: "instant \<Rightarrow> platform_st \<Rightarrow> platform_st" where
  "platform_detect_failure now st = fst (fire platform_rules now EvDetectFailure None st)"

record platform_snapshot =
  ps_id :: int
  ps_state :: state
  ps_available :: bool

definition platform_snapshot_of :: "platform_entity \<Rightarrow> platform_snapshot" where
  "platform_snapshot_of p =
     (let st = m_state (fst p) in
      \<lparr>ps_id = p_id (snd p), ps_state = st, ps_available = (st = Healthy)\<rparr>)"

text \<open>A history of probe results.\<close>

definition platform_probe :: "bool \<times> instant \<Rightarrow> platform_st \<Rightarrow> platform_st" where
  "platform_probe r st =
     (if fst r then platform_detect_success (snd r) st else platform_detect_failure (snd r) st)"

definition platform_run :: "(bool \<times> instant) list \<Rightarrow> platform_st \<Rightarrow> platform_st" where
  "platform_run rs st = fold platform_probe rs st"

lemma platform_match [fsm_simps]:
  "match_locked platform_rules m ev p c =
     find (\<lambda>tr. t_from tr = m_state m \<and> t_event tr = ev) platform_table"
  by (auto simp: match_locked_def platform_rules_def r_index_build first_passing_find find_filter
      platform_table_def platform_edge_def guard_passes_def)

interpretation platform_fx: fsm_effects platform_table TimerExpired
  by unfold_locales
    (auto simp: platform_table_def platform_edge_def run_effect_def platform_on_detect_success_def
      platform_on_detect_failure_def)

interpretation platform_probed:
  fsm_pinned platform_table TimerExpired "{Healthy, Unavailable}" "{}"
  by unfold_locales (auto simp: platform_table_def platform_edge_def)

lemma platform_probe_eq [op_simps]:
  "m_state m \<in> {Healthy, Unavailable} \<Longrightarrow>
   platform_probe (b, now) (m, d, w) =
     (enter_state (if b then Healthy else Unavailable) now m, d,
      if p_has_store d then emit (SetPlatformAvailable (p_id d) b) w else w)"
  by (auto simp: platform_probe_def platform_detect_success_def platform_detect_failure_def fire_def
      platform_match platform_table_def platform_edge_def run_effect_def
      platform_on_detect_success_def platform_on_detect_failure_def)

lemma platform_probe_state:
  assumes "m_state (fst st) \<in> {Healthy, Unavailable}"
  shows "m_state (fst (platform_probe r st)) \<in> {Healthy, Unavailable}"
  using assms platform_probed.fire_pinned [where m = "fst st" and c = "snd st", folded platform_rules_def]
  by (auto simp: platform_probe_def platform_detect_success_def platform_detect_failure_def)

lemma platform_run_snoc: "platform_run (rs @ [r]) st = platform_probe r (platform_run rs st)"
  by (simp add: platform_run_def)

lemma platform_run_forms:
  assumes "m_state m \<in> {Healthy, Unavailable}"
  shows "\<exists>m' w'. platform_run rs (m, d, w) = (m', d, w') \<and> m_state m' \<in> {Healthy, Unavailable}"
proof (induction rs rule: rev_induct)
  case Nil
  with assms show ?case by (simp add: platform_run_def)
next
  case (snoc r rs)
  then obtain m' w' where "platform_run rs (m, d, w) = (m', d, w')" "m_state m' \<in> {Healthy, Unavailable}"
    by blast
  then show ?case
    by (cases r) (auto simp: platform_run_snoc platform_probe_eq)
qed

definition platform_row :: "int \<Rightarrow> bool \<Rightarrow> world \<Rightarrow> bool option" where
  "platform_row i a w =
     h_platforms (fold apply_store_call (w_calls w)
       \<lparr>h_keys = Map.empty, h_rapis = Map.empty, h_platforms = [i \<mapsto> a]\<rparr>) i"

lemma platform_row_emit:
  "platform_row i a (emit (SetPlatformAvailable i b) w) = Some b"
proof -
  have "h_platforms (apply_store_call c h) i = None \<longleftrightarrow> h_platforms h i = None" for c h
    by (cases c) (auto simp: update_row_def)
  then have "h_platforms (fold apply_store_call cs h) i = None \<longleftrightarrow> h_platforms h i = None" for cs h
    by (induction cs arbitrary: h) simp_all
  then show ?thesis by (simp add: platform_row_def update_row_def)
qed

text \<open>A platform built from its row and then probed any number of times is in memory what its row
  says: the snapshot's \<open>Available\<close>, the availability column after the store calls, and the last
  probe's result (or the row it was built from, when there was none) are the same.\<close>

lemma platform_write_through:
  "let st = platform_run rs (fst (new_platform i a True now), snd (new_platform i a True now), new_world)
   in ps_available (platform_snapshot_of (fst st, fst (snd st))) = last (a # map fst rs) \<and>
      platform_row i a (snd (snd st)) = Some (last (a # map fst rs))"
proof (cases rs rule: rev_cases)
  case Nil
  then show ?thesis
    by (simp add: platform_run_def new_platform_def platform_snapshot_of_def platform_row_def)
next
  case (snoc rs' r)
  let ?st = "(fst (new_platform i a True now), snd (new_platform i a True now), new_world)"
  have "m_state (fst (new_platform i a True now)) \<in> {Healthy, Unavailable}"
    by (simp add: new_platform_def)
  from platform_run_forms [OF this] obtain m' w'
    where "platform_run rs' ?st = (m', snd (new_platform i a True now), w')"
      "m_state m' \<in> {Healthy, Unavailable}" by blast
  with snoc show ?thesis
    by (cases r)
      (simp add: platform_run_snoc platform_probe_eq new_platform_def platform_snapshot_of_def
        platform_row_emit Let_def)
qed

end
