(* ===== verification/SchedCost.thy ===== *)
theory SchedCost
  imports Models
begin

text \<open>
  The cost side of \<open>internal/scheduler/scheduler.go\<close>: its configuration, the request and token
  counters of an endpoint in minute, hour and day buckets, the rate thresholds, the time-of-day
  price rules, and the order in which endpoints are tried. Token and request counts are Go ints far
  below their bound, kept as \<open>int\<close>; durations read from the configuration wrap at 64 bits.
\<close>

section \<open>Configuration\<close>

record sched_config =
  sc_default_cooldown :: duration
  sc_timeout_cooldown :: duration
  sc_max_cooldown :: duration
  sc_backoff :: bool
  sc_billing_cooldown :: duration
  sc_capability_block :: duration
  sc_queue_max_len :: int
  sc_request_max_wait :: duration
  sc_key_cursor_scope :: string

definition cursor_scope_session :: string where "cursor_scope_session = ''session''"
definition cursor_scope_platform :: string where "cursor_scope_platform = ''platform''"

definition default_config :: sched_config where
  "default_config =
     \<lparr>sc_default_cooldown = 10 * nsec_second, sc_timeout_cooldown = 5 * nsec_second,
      sc_max_cooldown = 2 * nsec_minute, sc_backoff = True,
      sc_billing_cooldown = 30 * nsec_minute, sc_capability_block = 24 * nsec_hour,
      sc_queue_max_len = 1024, sc_request_max_wait = 2 * nsec_minute,
      sc_key_cursor_scope = cursor_scope_session\<rparr>"

definition seconds :: "int \<Rightarrow> duration" where
  "seconds n = wrap64 (n * nsec_second)"

definition config_from_app_config :: "int \<Rightarrow> int \<Rightarrow> int \<Rightarrow> int \<Rightarrow> int \<Rightarrow> string \<Rightarrow> sched_config" where
  "config_from_app_config cooldown max_cooldown max_wait billing capability scope =
     (let cfg = default_config;
          cfg = (if cooldown > 0
                 then (let t = go_quot (seconds cooldown) 2 in
                       cfg\<lparr>sc_default_cooldown := seconds cooldown,
                           sc_timeout_cooldown := (if t < nsec_second then nsec_second else t)\<rparr>)
                 else cfg);
          cfg = (if max_cooldown > 0 then cfg\<lparr>sc_max_cooldown := seconds max_cooldown\<rparr> else cfg);
          cfg = (if billing > 0 then cfg\<lparr>sc_billing_cooldown := seconds billing\<rparr> else cfg);
          cfg = (if capability > 0 then cfg\<lparr>sc_capability_block := seconds capability\<rparr> else cfg);
          cfg = (if max_wait > 0 then cfg\<lparr>sc_request_max_wait := seconds max_wait\<rparr> else cfg)
      in if scope = cursor_scope_platform then cfg\<lparr>sc_key_cursor_scope := cursor_scope_platform\<rparr>
         else if scope = cursor_scope_session
           then cfg\<lparr>sc_key_cursor_scope := cursor_scope_session\<rparr>
         else cfg\<lparr>sc_key_cursor_scope := cursor_scope_session\<rparr>)"

section \<open>Counters\<close>

record time_bucket =
  tb_start :: instant
  tb_reqs :: int
  tb_toks :: int

record rapi_counters =
  rc_minute :: time_bucket
  rc_hour :: time_bucket
  rc_day :: time_bucket

definition new_bucket :: "instant \<Rightarrow> time_bucket" where
  "new_bucket start = \<lparr>tb_start = start, tb_reqs = 0, tb_toks = 0\<rparr>"

definition new_counters :: rapi_counters where
  "new_counters =
     \<lparr>rc_minute = new_bucket zero_time, rc_hour = new_bucket zero_time, rc_day = new_bucket zero_time\<rparr>"

definition bump_bucket :: "instant \<Rightarrow> int \<Rightarrow> time_bucket \<Rightarrow> time_bucket" where
  "bump_bucket start tokens b =
     (let b = (if tb_start b \<noteq> start then new_bucket start else b) in
      b\<lparr>tb_reqs := tb_reqs b + 1, tb_toks := tb_toks b + tokens\<rparr>)"

definition record_counters :: "runtime \<Rightarrow> instant \<Rightarrow> int \<Rightarrow> rapi_counters \<Rightarrow> rapi_counters" where
  "record_counters rt now tokens c =
     \<lparr>rc_minute = bump_bucket (truncate_time nsec_minute now) tokens (rc_minute c),
      rc_hour = bump_bucket (truncate_time nsec_hour now) tokens (rc_hour c),
      rc_day = bump_bucket (rt_day_start rt now) tokens (rc_day c)\<rparr>"

definition bucket_view :: "instant \<Rightarrow> time_bucket \<Rightarrow> int \<times> int" where
  "bucket_view start b = (if tb_start b \<noteq> start then (0, 0) else (tb_reqs b, tb_toks b))"

definition threshold_exceeded :: "runtime \<Rightarrow> rapi_counters \<Rightarrow> rapi \<Rightarrow> instant \<Rightarrow> bool" where
  "threshold_exceeded rt c r now =
     (let (min_reqs, min_toks) = bucket_view (truncate_time nsec_minute now) (rc_minute c);
          (hour_reqs, hour_toks) = bucket_view (truncate_time nsec_hour now) (rc_hour c);
          (day_reqs, day_toks) = bucket_view (rt_day_start rt now) (rc_day c)
      in if ra_rpm_limit r > 0 \<and> min_reqs \<ge> ra_rpm_limit r then True
         else if ra_rph_limit r > 0 \<and> hour_reqs \<ge> ra_rph_limit r then True
         else if ra_rpd_limit r > 0 \<and> day_reqs \<ge> ra_rpd_limit r then True
         else if ra_tpm_limit r > 0 \<and> min_toks \<ge> ra_tpm_limit r then True
         else if ra_tph_limit r > 0 \<and> hour_toks \<ge> ra_tph_limit r then True
         else if ra_tpd_limit r > 0 \<and> day_toks \<ge> ra_tpd_limit r then True
         else False)"

section \<open>Cost\<close>

definition in_time_range :: "string \<Rightarrow> string \<Rightarrow> string \<Rightarrow> bool" where
  "in_time_range current start stop =
     (if start \<le> stop then current \<ge> start \<and> current < stop
      else current \<ge> start \<or> current < stop)"

definition rule_cost :: "runtime \<Rightarrow> rapi \<Rightarrow> instant \<Rightarrow> int option" where
  "rule_cost rt r now =
     (if ra_time_period_rules r \<noteq> []
      then (case rt_time_rules rt (ra_time_period_rules r) of
              None \<Rightarrow> None
            | Some rules \<Rightarrow>
                map_option tp_cost
                  (find (\<lambda>rule. in_time_range (rt_hhmm rt now) (tp_start rule) (tp_end rule)) rules))
      else None)"

definition counters_for :: "int \<Rightarrow> (int \<times> rapi_counters) list
    \<Rightarrow> (int \<times> rapi_counters) list \<times> rapi_counters" where
  "counters_for i cs =
     (case map_of cs i of
        None \<Rightarrow> (AList.update i new_counters cs, new_counters)
      | Some c \<Rightarrow> (cs, c))"

definition compute_cost :: "runtime \<Rightarrow> rapi \<Rightarrow> instant \<Rightarrow> (int \<times> rapi_counters) list
    \<Rightarrow> (int \<times> rapi_counters) list \<times> int" where
  "compute_cost rt r now cs =
     (case rule_cost rt r now of
        Some c \<Rightarrow> (cs, c)
      | None \<Rightarrow>
          let (cs', c) = counters_for (ra_id r) cs in
          if threshold_exceeded rt c r now \<and> ra_high_cost r > 0 then (cs', ra_high_cost r)
          else if ra_base_cost r > 0 then (cs', ra_base_cost r)
          else (cs', 0))"

abbreviation cost_of :: "runtime \<Rightarrow> instant \<Rightarrow> (int \<times> rapi_counters) list \<Rightarrow> rapi \<Rightarrow> int" where
  "cost_of rt now cs r \<equiv> snd (compute_cost rt r now cs)"

text \<open>The comparison of \<open>PickAvailable\<close>: cost, then the user's order, then the client's format.\<close>

definition pick_less :: "runtime \<Rightarrow> instant \<Rightarrow> (int \<times> rapi_counters) list \<Rightarrow> string \<Rightarrow> rapi \<Rightarrow> rapi \<Rightarrow> bool" where
  "pick_less rt now cs fmt a b =
     (let ci = cost_of rt now cs a; cj = cost_of rt now cs b in
      if ci \<noteq> cj then ci < cj
      else if ra_order_index a \<noteq> ra_order_index b then ra_order_index a < ra_order_index b
      else if fmt \<noteq> [] \<and> supports_api_format rt a fmt \<noteq> supports_api_format rt b fmt
        then supports_api_format rt a fmt
      else False)"

text \<open>The comparison creates the counters of the endpoints it prices; with fewer than two endpoints
  it never runs.\<close>

definition touch_counters :: "runtime \<Rightarrow> instant \<Rightarrow> rapi list \<Rightarrow> (int \<times> rapi_counters) list
    \<Rightarrow> (int \<times> rapi_counters) list" where
  "touch_counters rt now rs cs =
     (if length rs < 2 then cs else fold (\<lambda>r cs. fst (compute_cost rt r now cs)) rs cs)"

section \<open>Estimates and headers\<close>

definition estimate_cost :: "string list \<Rightarrow> int" where
  "estimate_cost contents = fold (\<lambda>c t. t + int (length c) div 4 + 1) contents 1"

fun digits_value :: "string \<Rightarrow> int \<Rightarrow> int option" where
  "digits_value [] n = Some n"
| "digits_value (c # s) n =
     (let d = int (of_char c :: nat) - 48 in
      if 0 \<le> d \<and> d \<le> 9 then digits_value s (10 * n + d) else None)"

definition atoi :: "string \<Rightarrow> int option" where
  "atoi s =
     (let (neg, ds) = (case s of
             [] \<Rightarrow> (False, [])
           | c # s' \<Rightarrow> if c = CHR ''-'' then (True, s') else if c = CHR ''+'' then (False, s') else (False, s))
      in if ds = [] then None
         else case digits_value ds 0 of
           None \<Rightarrow> None
         | Some n \<Rightarrow> let v = (if neg then - n else n) in if in_int64 v then Some v else None)"

definition unix_epoch :: instant where
  "unix_epoch = 62135596800 * nsec_second"

definition retry_at :: "(string \<Rightarrow> instant option) \<Rightarrow> (string \<Rightarrow> string) option \<Rightarrow> instant \<Rightarrow> instant \<Rightarrow> instant" where
  "retry_at parse_time header fallback now =
     (case header of
        None \<Rightarrow> fallback
      | Some get \<Rightarrow>
          let value = get ''Retry-After'';
              value = (if value = [] then get ''X-RateLimit-Reset'' else value)
          in if value = [] then fallback
             else case atoi value of
               Some s \<Rightarrow> if s > 1000000000 then unix_epoch + s * nsec_second else now + seconds s
             | None \<Rightarrow> (case parse_time value of Some at \<Rightarrow> at | None \<Rightarrow> fallback))"

section \<open>Sorting\<close>

interpretation pick_order: weak_order "pick_less rt now cs fmt" for rt now cs fmt
  by unfold_locales (auto simp: pick_less_def Let_def split: if_splits)

interpretation key_order: weak_order "\<lambda>a b. pk_key_index a < pk_key_index b"
  by (rule weak_order_key)

section \<open>Counting windows\<close>

text \<open>A window is given by the start it assigns to an instant. All the counting needs is that later
  instants do not start earlier.\<close>

locale window =
  fixes start :: "instant \<Rightarrow> instant"
  assumes start_mono: "t \<le> u \<Longrightarrow> start t \<le> start u"
begin

definition counted :: "(instant \<times> int) list \<Rightarrow> time_bucket" where
  "counted hs = fold (\<lambda>h. bump_bucket (start (fst h)) (snd h)) hs (new_bucket zero_time)"

definition inside :: "instant \<Rightarrow> (instant \<times> int) list \<Rightarrow> (instant \<times> int) list" where
  "inside now hs = filter (\<lambda>h. start (fst h) = start now) hs"

lemma bump_start: "tb_start (bump_bucket s k b) = s"
  by (simp add: bump_bucket_def new_bucket_def Let_def)

lemma bump_view: "bucket_view s (bump_bucket s k b) = (fst (bucket_view s b) + 1, snd (bucket_view s b) + k)"
  by (simp add: bump_bucket_def bucket_view_def new_bucket_def Let_def)

lemma bump_view_other: "s \<noteq> s' \<Longrightarrow> bucket_view s' (bump_bucket s k b) = (0, 0)"
  by (simp add: bucket_view_def bump_start)

lemma count_exact:
  assumes "sorted (map fst hs)" and "\<forall>h \<in> set hs. fst h \<le> now"
  shows "bucket_view (start now) (counted hs) =
    (int (length (inside now hs)), sum_list (map snd (inside now hs)))"
  using assms
proof (induction hs arbitrary: now rule: rev_induct)
  case Nil
  then show ?case by (simp add: counted_def inside_def bucket_view_def new_bucket_def)
next
  case (snoc h hs)
  obtain t k where h: "h = (t, k)" by fastforce
  have le: "\<forall>h' \<in> set hs. fst h' \<le> t" and s: "sorted (map fst hs)" and tn: "t \<le> now"
    using snoc.prems h by (auto simp: sorted_append)
  have c: "counted (hs @ [h]) = bump_bucket (start t) k (counted hs)"
    by (simp add: counted_def h)
  show ?case
  proof (cases "start t = start now")
    case True
    then have i: "inside now (hs @ [h]) = inside t hs @ [h]" by (simp add: inside_def h)
    have "bucket_view (start now) (counted (hs @ [h])) =
        (fst (bucket_view (start t) (counted hs)) + 1, snd (bucket_view (start t) (counted hs)) + k)"
      unfolding c True [symmetric] by (rule bump_view)
    then show ?thesis unfolding snoc.IH [OF s le] i by (simp add: h)
  next
    case False
    have "start (fst h') \<noteq> start now" if "h' \<in> set hs" for h'
      using that le False start_mono [of "fst h'" t] start_mono [OF tn] by fastforce
    with False have "inside now (hs @ [h]) = []" by (auto simp: inside_def h filter_empty_conv)
    with False show ?thesis by (simp add: c bump_view_other)
  qed
qed

end

lemma truncate_time_mono: "0 < d \<Longrightarrow> t \<le> u \<Longrightarrow> truncate_time d t \<le> truncate_time d u"
proof -
  assume d: "0 < d" and "t \<le> u"
  then have "d * (t div d) \<le> d * (u div d)" by (intro mult_left_mono zdiv_mono1) simp_all
  with d show ?thesis by (simp add: truncate_time_def minus_mod_eq_mult_div)
qed

interpretation minute_window: window "truncate_time nsec_minute"
  by unfold_locales (rule truncate_time_mono, simp_all)

interpretation hour_window: window "truncate_time nsec_hour"
  by unfold_locales (rule truncate_time_mono, simp_all)

text \<open>The requests of a history, and how many requests and tokens lie in the window of an instant.\<close>

definition record_history :: "runtime \<Rightarrow> (instant \<times> int) list \<Rightarrow> rapi_counters" where
  "record_history rt hs = fold (\<lambda>h. record_counters rt (fst h) (snd h)) hs new_counters"

definition reqs_in :: "(instant \<Rightarrow> instant) \<Rightarrow> instant \<Rightarrow> (instant \<times> int) list \<Rightarrow> int" where
  "reqs_in start now hs = int (length (filter (\<lambda>h. start (fst h) = start now) hs))"

definition toks_in :: "(instant \<Rightarrow> instant) \<Rightarrow> instant \<Rightarrow> (instant \<times> int) list \<Rightarrow> int" where
  "toks_in start now hs = sum_list (map snd (filter (\<lambda>h. start (fst h) = start now) hs))"

lemma record_history_buckets:
  "record_history rt hs =
     \<lparr>rc_minute = fold (\<lambda>h. bump_bucket (truncate_time nsec_minute (fst h)) (snd h)) hs (new_bucket zero_time),
      rc_hour = fold (\<lambda>h. bump_bucket (truncate_time nsec_hour (fst h)) (snd h)) hs (new_bucket zero_time),
      rc_day = fold (\<lambda>h. bump_bucket (rt_day_start rt (fst h)) (snd h)) hs (new_bucket zero_time)\<rparr>"
proof (induction hs rule: rev_induct)
  case Nil
  then show ?case by (simp add: record_history_def new_counters_def)
next
  case (snoc h hs)
  then show ?case by (simp add: record_history_def record_counters_def)
qed

lemma window_view:
  assumes "window start" "sorted (map fst hs)" "\<forall>h \<in> set hs. fst h \<le> now"
  shows "bucket_view (start now) (fold (\<lambda>h. bump_bucket (start (fst h)) (snd h)) hs (new_bucket zero_time)) =
    (reqs_in start now hs, toks_in start now hs)"
  using window.count_exact [OF assms]
  by (simp add: window.counted_def [OF assms(1)] window.inside_def [OF assms(1)] reqs_in_def toks_in_def)

text \<open>C10: The rate limits are exact: after any history of requests in time order, an endpoint is over a
  threshold at an instant exactly when one of its positive limits is reached by the number of
  requests, or of tokens, recorded in that instant's own minute, hour or local day. No request
  of an earlier window counts and none of the current one is lost. (The local day start is the
  run-time's; it is taken to be monotone.)\<close>

theorem threshold_exact:
  assumes "sorted (map fst hs)" and "\<forall>h \<in> set hs. fst h \<le> now"
    and "\<And>t u. t \<le> u \<Longrightarrow> rt_day_start rt t \<le> rt_day_start rt u"
  shows "threshold_exceeded rt (record_history rt hs) r now \<longleftrightarrow>
    (0 < ra_rpm_limit r \<and> ra_rpm_limit r \<le> reqs_in (truncate_time nsec_minute) now hs) \<or>
    (0 < ra_rph_limit r \<and> ra_rph_limit r \<le> reqs_in (truncate_time nsec_hour) now hs) \<or>
    (0 < ra_rpd_limit r \<and> ra_rpd_limit r \<le> reqs_in (rt_day_start rt) now hs) \<or>
    (0 < ra_tpm_limit r \<and> ra_tpm_limit r \<le> toks_in (truncate_time nsec_minute) now hs) \<or>
    (0 < ra_tph_limit r \<and> ra_tph_limit r \<le> toks_in (truncate_time nsec_hour) now hs) \<or>
    (0 < ra_tpd_limit r \<and> ra_tpd_limit r \<le> toks_in (rt_day_start rt) now hs)"
proof -
  have day: "window (rt_day_start rt)" by unfold_locales (rule assms(3))
  show ?thesis
    using window_view [OF minute_window.window_axioms assms(1,2)]
      window_view [OF hour_window.window_axioms assms(1,2)] window_view [OF day assms(1,2)]
    by (simp add: threshold_exceeded_def record_history_buckets)
qed

theorem threshold_exact_witness:
  "\<exists>rt r. threshold_exceeded rt (record_history rt
      [(59 * nsec_second, 4), (60 * nsec_second, 5), (61 * nsec_second, 6)]) r (62 * nsec_second) \<and>
    \<not> threshold_exceeded rt (record_history rt
      [(59 * nsec_second, 4), (60 * nsec_second, 5), (61 * nsec_second, 6)]) r (120 * nsec_second)"
proof -
  let ?hs = "[(59 * nsec_second, 4), (60 * nsec_second, 5), (61 * nsec_second, 6)] :: (instant \<times> int) list"
  define rt where "rt = \<lparr>rt_string_list = (\<lambda>_. None), rt_string_map = (\<lambda>_. None),
    rt_time_rules = (\<lambda>_. None), rt_lower = (\<lambda>s. s), rt_hhmm = (\<lambda>_. ''00:01''),
    rt_day_start = truncate_time (24 * nsec_hour)\<rparr>"
  define r where "r = \<lparr>ra_id = 1, ra_alias = [], ra_model = ''m'', ra_notes = [], ra_vendor = [],
    ra_series = [], ra_model_name = [], ra_version = [], ra_suffix = [], ra_platform_id = 1,
    ra_enabled = True, ra_available = True, ra_unavailable_reason = [], ra_base_cost = 1,
    ra_high_cost = 9, ra_rpm_limit = 2, ra_rph_limit = 0, ra_rpd_limit = 0, ra_tpm_limit = 0,
    ra_tph_limit = 0, ra_tpd_limit = 0, ra_supported_formats = [], ra_time_period_rules = [],
    ra_custom_headers = [], ra_key_ids = [], ra_source = [], ra_order_index = 0,
    ra_platform_name = [], ra_platform_custom_headers = [], ra_platform_supported_formats = [],
    ra_platform_format_endpoints = [], ra_base_url = [], ra_token = [], ra_last_token_fetch = 0,
    ra_created_at = 0, ra_updated_at = 0, ra_keys = []\<rparr>"
  have day: "t \<le> u \<Longrightarrow> rt_day_start rt t \<le> rt_day_start rt u" for t u
    by (simp add: rt_def truncate_time_mono)
  have s: "sorted (map fst ?hs)" by simp
  have "threshold_exceeded rt (record_history rt ?hs) r (62 * nsec_second)"
    using threshold_exact [OF s _ day, of "62 * nsec_second" r]
    by (simp add: r_def reqs_in_def truncate_time_def)
  moreover have "\<not> threshold_exceeded rt (record_history rt ?hs) r (120 * nsec_second)"
    using threshold_exact [OF s _ day, of "120 * nsec_second" r]
    by (simp add: r_def reqs_in_def truncate_time_def)
  ultimately show ?thesis by blast
qed

text \<open>A price window and the window with its ends swapped split the day: for different ends a time of
  day is in exactly one of them, overnight windows included; a window with equal ends is empty.\<close>

lemma time_range_partition:
  "if start = stop then \<not> in_time_range t start stop
   else in_time_range t start stop \<longleftrightarrow> \<not> in_time_range t stop start"
  by (auto simp: in_time_range_def)

end
