(* ===== verification/RapiEntity.thy ===== *)
theory RapiEntity
  imports EntityBase
begin

text \<open>
  The state machine of one upstream model endpoint, \<open>internal/entity/rapi.go\<close>: its transition table,
  the effects, and the operations the scheduler calls. The shift \<open>cooldown << k\<close> is on int64
  nanoseconds and wraps.
\<close>

record rapi_data =
  e_id :: int
  e_cfg :: cooldown_config
  e_has_store :: bool
  e_consecutive :: int
  e_last_success :: instant
  e_last_failure :: instant
  e_reason :: string

type_synonym rapi_entity = "state machine \<times> rapi_data"
type_synonym rapi_st = "state machine \<times> rapi_data \<times> world"
type_synonym rapi_effect = "instant \<Rightarrow> (event, payload) fsm_context \<Rightarrow> rapi_st \<Rightarrow> rapi_st"
type_synonym rapi_transition = "(state, event, payload, rapi_data \<times> world) transition"

section \<open>Effects\<close>

definition rapi_cooldown :: "cooldown_config \<Rightarrow> int \<Rightarrow> bool \<Rightarrow> duration" where
  "rapi_cooldown cfg failures is_timeout =
     (if is_timeout \<and> cc_timeout cfg > 0 then cc_timeout cfg
      else
        (let c = (if cc_backoff cfg \<and> failures > 1
                  then wrap64 (cc_default cfg * 2 ^ nat (min (failures - 1) 6))
                  else cc_default cfg)
         in if c > cc_max cfg then cc_max cfg else c))"

definition rapi_session_effect :: "session_failure_payload \<Rightarrow> instant \<Rightarrow> rapi_st \<Rightarrow> rapi_st" where
  "rapi_session_effect p now = (\<lambda>(m, d, w).
     let n = (if sf_is_timeout p then e_consecutive d else e_consecutive d + 1);
         until = sf_retry_at p;
         until' = (if until = zero_time \<or> \<not> until > now
                   then now + rapi_cooldown (e_cfg d) n (sf_is_timeout p) else until)
     in (set_timer until' m,
         d\<lparr>e_last_failure := now, e_reason := sf_reason p, e_consecutive := n\<rparr>, w))"

definition rapi_on_session_failure :: rapi_effect where
  "rapi_on_session_failure now ctx = (\<lambda>(m, d, w).
     case ctx_payload ctx of
       Some (SessionFailure p) \<Rightarrow> rapi_session_effect p now (m, d, w)
     | _ \<Rightarrow> (m, d, panic w))"

definition rapi_on_platform_failure :: rapi_effect where
  "rapi_on_platform_failure now ctx = (\<lambda>(m, d, w).
     case ctx_payload ctx of
       Some (SessionFailure p) \<Rightarrow>
         (set_timer (now + cc_max (e_cfg d)) m,
          d\<lparr>e_last_failure := now, e_reason := sf_reason p\<rparr>, w)
     | _ \<Rightarrow> (m, d, panic w))"

definition rapi_on_all_keys_soft :: rapi_effect where
  "rapi_on_all_keys_soft now ctx = (\<lambda>(m, d, w).
     case ctx_payload ctx of
       Some (AllKeys p) \<Rightarrow>
         if ak_pool_recover_at p \<noteq> zero_time
         then (set_timer (ak_pool_recover_at p) m,
               d\<lparr>e_last_failure := now, e_reason := ak_reason p\<rparr>, w)
         else rapi_session_effect
                \<lparr>sf_reason = ak_reason p, sf_retry_at = zero_time, sf_is_timeout = False,
                 sf_is_billing = False, sf_persist_temporary = False\<rparr> now (m, d, w)
     | _ \<Rightarrow> (m, d, panic w))"

definition rapi_on_all_keys_hard :: rapi_effect where
  "rapi_on_all_keys_hard now ctx = (\<lambda>(m, d, w).
     case ctx_payload ctx of
       Some (AllKeys p) \<Rightarrow>
         (m, d\<lparr>e_last_failure := now, e_reason := ak_reason p\<rparr>,
          if e_has_store d then emit (SetRAPIUnavailable (e_id d) False (ak_reason p)) w else w)
     | _ \<Rightarrow> (m, d, panic w))"

definition rapi_on_invalidate :: rapi_effect where
  "rapi_on_invalidate now ctx = (\<lambda>(m, d, w). (set_timer zero_time m, d, w))"

definition rapi_on_revalidate :: rapi_effect where
  "rapi_on_revalidate now ctx = (\<lambda>(m, d, w). (set_timer zero_time m, d\<lparr>e_reason := []\<rparr>, w))"

definition rapi_on_success :: rapi_effect where
  "rapi_on_success now ctx = (\<lambda>(m, d, w).
     (set_timer zero_time m, d\<lparr>e_last_success := now, e_consecutive := 0, e_reason := []\<rparr>, w))"

definition rapi_on_timer_expired :: rapi_effect where
  "rapi_on_timer_expired now ctx = (\<lambda>(m, d, w). (m, d\<lparr>e_reason := []\<rparr>, w))"

section \<open>Transition table\<close>

definition rapi_edge :: "state \<Rightarrow> event \<Rightarrow> state \<Rightarrow> rapi_effect \<Rightarrow> rapi_transition" where
  "rapi_edge s e s' f =
     \<lparr>t_from = s, t_event = e, t_to = s', t_guard = None, t_effect = Some f\<rparr>"

definition rapi_table :: "rapi_transition list" where
  "rapi_table =
     [rapi_edge Healthy EvSessionFailure Cooling rapi_on_session_failure,
      rapi_edge Healthy EvPlatformFailure PlatformFailed rapi_on_platform_failure,
      rapi_edge Healthy EvInvalidate Invalidated rapi_on_invalidate,
      rapi_edge Healthy EvAllKeysSoft Cooling rapi_on_all_keys_soft,
      rapi_edge Healthy EvAllKeysHard Invalidated rapi_on_all_keys_hard,
      rapi_edge Healthy EvSuccess Healthy rapi_on_success,
      rapi_edge Cooling EvSessionFailure Cooling rapi_on_session_failure,
      rapi_edge Cooling EvPlatformFailure PlatformFailed rapi_on_platform_failure,
      rapi_edge Cooling EvInvalidate Invalidated rapi_on_invalidate,
      rapi_edge Cooling EvAllKeysSoft Cooling rapi_on_all_keys_soft,
      rapi_edge Cooling EvAllKeysHard Invalidated rapi_on_all_keys_hard,
      rapi_edge Cooling EvSuccess Healthy rapi_on_success,
      rapi_edge Cooling TimerExpired Healthy rapi_on_timer_expired,
      rapi_edge PlatformFailed EvSessionFailure Cooling rapi_on_session_failure,
      rapi_edge PlatformFailed EvInvalidate Invalidated rapi_on_invalidate,
      rapi_edge PlatformFailed EvAllKeysHard Invalidated rapi_on_all_keys_hard,
      rapi_edge PlatformFailed EvSuccess Healthy rapi_on_success,
      rapi_edge PlatformFailed TimerExpired Healthy rapi_on_timer_expired,
      rapi_edge Invalidated EvRevalidate Healthy rapi_on_revalidate]"

definition rapi_rules :: "(state, event, payload, rapi_data \<times> world) rules" where
  "rapi_rules = build_rules rapi_table"

section \<open>Operations\<close>

definition new_rapi :: "int \<Rightarrow> cooldown_config \<Rightarrow> bool \<Rightarrow> instant \<Rightarrow> rapi_entity" where
  "new_rapi i cfg has_store now =
     (new_machine Healthy now,
      \<lparr>e_id = i, e_cfg = cfg, e_has_store = has_store, e_consecutive = 0,
       e_last_success = zero_time, e_last_failure = zero_time, e_reason = []\<rparr>)"

abbreviation rapi_fire :: "instant \<Rightarrow> event \<Rightarrow> payload option \<Rightarrow> rapi_st \<Rightarrow> rapi_st \<times> state \<times> bool" where
  "rapi_fire \<equiv> fire rapi_rules"

definition rapi_success :: "instant \<Rightarrow> rapi_st \<Rightarrow> rapi_st" where
  "rapi_success now st = fst (rapi_fire now EvSuccess None st)"

definition rapi_session_failure :: "string \<Rightarrow> instant \<Rightarrow> bool \<Rightarrow> instant \<Rightarrow> rapi_st \<Rightarrow> rapi_st" where
  "rapi_session_failure reason retry_at is_timeout now st =
     fst (rapi_fire now EvSessionFailure (Some (SessionFailure
       \<lparr>sf_reason = reason, sf_retry_at = retry_at, sf_is_timeout = is_timeout,
        sf_is_billing = False, sf_persist_temporary = False\<rparr>)) st)"

definition rapi_platform_failure :: "string \<Rightarrow> instant \<Rightarrow> rapi_st \<Rightarrow> rapi_st" where
  "rapi_platform_failure reason now st =
     fst (rapi_fire now EvPlatformFailure (Some (SessionFailure
       \<lparr>sf_reason = reason, sf_retry_at = zero_time, sf_is_timeout = False,
        sf_is_billing = False, sf_persist_temporary = False\<rparr>)) st)"

definition rapi_all_keys_unavailable :: "bool \<Rightarrow> string \<Rightarrow> instant \<Rightarrow> rapi_st \<Rightarrow> rapi_st \<times> bool" where
  "rapi_all_keys_unavailable hard reason now st =
     (let ev = (if hard then EvAllKeysHard else EvAllKeysSoft);
          (st', after, changed) = rapi_fire now ev (Some (AllKeys
            \<lparr>ak_hard = hard, ak_reason = reason, ak_pool_recover_at = zero_time\<rparr>)) st
      in (st', changed \<and> after = Invalidated))"

definition rapi_invalidate :: "instant \<Rightarrow> rapi_st \<Rightarrow> rapi_st" where
  "rapi_invalidate now st = fst (rapi_fire now EvInvalidate None st)"

definition rapi_revalidate :: "instant \<Rightarrow> rapi_st \<Rightarrow> rapi_st" where
  "rapi_revalidate now st = fst (rapi_fire now EvRevalidate None st)"

definition rapi_advance :: "instant \<Rightarrow> rapi_st \<Rightarrow> rapi_st" where
  "rapi_advance now st = fst (advance TimerExpired rapi_rules now st)"

definition rapi_align_cooldown :: "instant \<Rightarrow> rapi_st \<Rightarrow> rapi_st" where
  "rapi_align_cooldown at st =
     (if at = zero_time then st
      else if m_state (fst st) = Cooling then (set_timer at (fst st), snd st) else st)"

definition rapi_pickable :: "instant \<Rightarrow> rapi_st \<Rightarrow> rapi_st \<times> bool \<times> instant" where
  "rapi_pickable now st =
     (let s = m_state (fst st) in
      if s = Healthy then (st, True, zero_time)
      else if s = Invalidated then (st, False, zero_time)
      else
        (let wa = m_wake_at (fst st) in
         if wa > now then (st, False, wa)
         else let st' = rapi_advance now st in (st', m_state (fst st') = Healthy, zero_time)))"

record rapi_snapshot =
  rs_id :: int
  rs_state :: state
  rs_cooling :: bool
  rs_recover_at :: instant
  rs_reason :: string
  rs_consecutive_failures :: int
  rs_last_success :: instant
  rs_last_failure :: instant
  rs_invalidated :: bool

definition rapi_snapshot_of :: "instant \<Rightarrow> rapi_entity \<Rightarrow> rapi_snapshot" where
  "rapi_snapshot_of now r =
     (let st = m_state (fst r); wa = m_wake_at (fst r) in
      \<lparr>rs_id = e_id (snd r), rs_state = st,
       rs_cooling = ((st = Cooling \<or> st = PlatformFailed) \<and> wa > now),
       rs_recover_at = wa, rs_reason = e_reason (snd r),
       rs_consecutive_failures = e_consecutive (snd r), rs_last_success = e_last_success (snd r),
       rs_last_failure = e_last_failure (snd r), rs_invalidated = (st = Invalidated)\<rparr>)"

text \<open>One call on an endpoint, and a history of calls.\<close>

datatype rapi_op =
    RSuccess instant
  | RSession string instant bool instant
  | RPlatform string instant
  | RAllKeys bool string instant
  | RInvalidate instant
  | RRevalidate instant
  | RAdvance instant
  | RAlign instant
  | RPickable instant

fun rapi_step :: "rapi_op \<Rightarrow> rapi_st \<Rightarrow> rapi_st" where
  "rapi_step (RSuccess now) st = rapi_success now st"
| "rapi_step (RSession r at t now) st = rapi_session_failure r at t now st"
| "rapi_step (RPlatform r now) st = rapi_platform_failure r now st"
| "rapi_step (RAllKeys h r now) st = fst (rapi_all_keys_unavailable h r now st)"
| "rapi_step (RInvalidate now) st = rapi_invalidate now st"
| "rapi_step (RRevalidate now) st = rapi_revalidate now st"
| "rapi_step (RAdvance now) st = rapi_advance now st"
| "rapi_step (RAlign at) st = rapi_align_cooldown at st"
| "rapi_step (RPickable now) st = fst (rapi_pickable now st)"

definition rapi_run :: "rapi_op list \<Rightarrow> rapi_st \<Rightarrow> rapi_st" where
  "rapi_run ops st = fold rapi_step ops st"

section \<open>The table as equations\<close>

lemma rapi_guard [simp]: "tr \<in> set rapi_table \<Longrightarrow> guard_passes tr ev p c"
  by (auto simp: rapi_table_def rapi_edge_def guard_passes_def)

lemma rapi_match [fsm_simps]:
  "match_locked rapi_rules m ev p c = find (\<lambda>tr. t_from tr = m_state m \<and> t_event tr = ev) rapi_table"
proof -
  have "find (\<lambda>tr. t_from tr = s \<and> t_event tr = ev \<and> guard_passes tr ev p c) rapi_table =
        find (\<lambda>tr. t_from tr = s \<and> t_event tr = ev) rapi_table" for s
    by (rule find_cong) auto
  then show ?thesis
    by (simp add: match_locked_def rapi_rules_def r_index_build first_passing_find find_filter)
qed

lemmas rapi_effect_defs = rapi_on_session_failure_def rapi_on_platform_failure_def
  rapi_on_all_keys_soft_def rapi_on_all_keys_hard_def rapi_on_invalidate_def
  rapi_on_revalidate_def rapi_on_success_def rapi_on_timer_expired_def

lemmas rapi_table_defs = rapi_table_def rapi_edge_def run_effect_def rapi_effect_defs

lemma rapi_fire_session [op_simps]:
  "rapi_fire now EvSessionFailure (Some (SessionFailure p)) (m, d, w) =
     (if m_state m \<in> {Healthy, Cooling, PlatformFailed}
      then (rapi_session_effect p now (enter_state Cooling now m, d, w), Cooling, True)
      else ((m, d, w), m_state m, False))"
  by (cases "m_state m") (simp_all add: fire_def rapi_match rapi_table_defs)

lemma rapi_fire_platform [op_simps]:
  "rapi_fire now EvPlatformFailure (Some (SessionFailure p)) (m, d, w) =
     (if m_state m \<in> {Healthy, Cooling}
      then ((set_timer (now + cc_max (e_cfg d)) (enter_state PlatformFailed now m),
             d\<lparr>e_last_failure := now, e_reason := sf_reason p\<rparr>, w), PlatformFailed, True)
      else ((m, d, w), m_state m, False))"
  by (cases "m_state m") (simp_all add: fire_def rapi_match rapi_table_defs)

lemma rapi_fire_success [op_simps]:
  "rapi_fire now EvSuccess p (m, d, w) =
     (if m_state m \<in> {Healthy, Cooling, PlatformFailed}
      then ((set_timer zero_time (enter_state Healthy now m),
             d\<lparr>e_last_success := now, e_consecutive := 0, e_reason := []\<rparr>, w), Healthy, True)
      else ((m, d, w), m_state m, False))"
  by (cases "m_state m") (simp_all add: fire_def rapi_match rapi_table_defs)

lemma rapi_fire_soft [op_simps]:
  "rapi_fire now EvAllKeysSoft (Some (AllKeys p)) (m, d, w) =
     (if m_state m \<in> {Healthy, Cooling}
      then (rapi_on_all_keys_soft now \<lparr>ctx_event = EvAllKeysSoft, ctx_payload = Some (AllKeys p)\<rparr>
              (enter_state Cooling now m, d, w), Cooling, True)
      else ((m, d, w), m_state m, False))"
  by (cases "m_state m")
    (simp_all add: fire_def rapi_match rapi_table_def rapi_edge_def run_effect_def)

lemma rapi_fire_hard [op_simps]:
  "rapi_fire now EvAllKeysHard (Some (AllKeys p)) (m, d, w) =
     (if m_state m \<in> {Healthy, Cooling, PlatformFailed}
      then ((enter_state Invalidated now m, d\<lparr>e_last_failure := now, e_reason := ak_reason p\<rparr>,
             if e_has_store d then emit (SetRAPIUnavailable (e_id d) False (ak_reason p)) w else w),
            Invalidated, True)
      else ((m, d, w), m_state m, False))"
  by (cases "m_state m") (simp_all add: fire_def rapi_match rapi_table_defs)

lemma rapi_fire_invalidate [op_simps]:
  "rapi_fire now EvInvalidate p (m, d, w) =
     (if m_state m \<in> {Healthy, Cooling, PlatformFailed}
      then ((set_timer zero_time (enter_state Invalidated now m), d, w), Invalidated, True)
      else ((m, d, w), m_state m, False))"
  by (cases "m_state m") (simp_all add: fire_def rapi_match rapi_table_defs)

lemma rapi_fire_revalidate [op_simps]:
  "rapi_fire now EvRevalidate p (m, d, w) =
     (if m_state m = Invalidated
      then ((set_timer zero_time (enter_state Healthy now m), d\<lparr>e_reason := []\<rparr>, w), Healthy, True)
      else ((m, d, w), m_state m, False))"
  by (cases "m_state m") (simp_all add: fire_def rapi_match rapi_table_defs)

lemma rapi_fire_timer [op_simps]:
  "rapi_fire now TimerExpired p (m, d, w) =
     (if m_state m \<in> {Cooling, PlatformFailed}
      then ((enter_state Healthy now m, d\<lparr>e_reason := []\<rparr>, w), Healthy, True)
      else ((m, d, w), m_state m, False))"
  by (cases "m_state m") (simp_all add: fire_def rapi_match rapi_table_defs)

lemmas rapi_op_defs = rapi_success_def rapi_session_failure_def rapi_platform_failure_def
  rapi_all_keys_unavailable_def rapi_invalidate_def rapi_revalidate_def rapi_advance_def
  rapi_align_cooldown_def rapi_pickable_def advance_def

section \<open>Invariants\<close>

abbreviation rapi_states :: "state set" where
  "rapi_states \<equiv> {Healthy, Cooling, PlatformFailed, Invalidated}"

definition rapi_inv :: "rapi_st \<Rightarrow> bool" where
  "rapi_inv st \<longleftrightarrow>
     m_state (fst st) \<in> rapi_states \<and>
     (m_state (fst st) = Healthy \<longrightarrow> m_wake_at (fst st) = zero_time) \<and>
     0 \<le> e_consecutive (fst (snd st))"

lemma rapi_inv_simp [simp]:
  "rapi_inv (m, d, w) \<longleftrightarrow>
     m_state m \<in> rapi_states \<and> (m_state m = Healthy \<longrightarrow> m_wake_at m = zero_time) \<and>
     0 \<le> e_consecutive d"
  by (simp add: rapi_inv_def)

interpretation rapi_fx: fsm_effects rapi_table TimerExpired
  by unfold_locales
    (auto simp: rapi_table_defs rapi_session_effect_def Let_def split: option.splits payload.splits)

interpretation rapi_frozen: fsm_pinned rapi_table TimerExpired "{Invalidated}" "{EvRevalidate}"
  by unfold_locales (auto simp: rapi_table_def rapi_edge_def)

interpretation rapi_timers: fsm_invariant rapi_table TimerExpired rapi_inv
proof unfold_locales
  fix tr :: rapi_transition and m :: "state machine" and p :: "payload option"
    and c :: "rapi_data \<times> world" and now :: instant
  obtain d w where c: "c = (d, w)" by fastforce
  assume tr: "tr \<in> set rapi_table" and s: "m_state m = t_from tr" and i: "rapi_inv (m, c)"
  show "rapi_inv (run_effect tr now TimerExpired None
      (enter_state (t_to tr) now (set_timer zero_time m), c))" if "t_event tr = TimerExpired"
    using tr s i c that
    unfolding rapi_table_def rapi_edge_def set_simps by (elim insertE) (simp_all add: rapi_table_defs)
  show "rapi_inv (run_effect tr now (t_event tr) p (enter_state (t_to tr) now m, c))"
    if "t_event tr \<noteq> TimerExpired"
    using tr s i c that
    unfolding rapi_table_def rapi_edge_def set_simps
    by (elim insertE)
      (auto simp: rapi_table_defs rapi_session_effect_def Let_def split: option.splits payload.splits)
next
  fix m :: "state machine" and c :: "rapi_data \<times> world"
  assume "rapi_inv (m, c)"
  then show "rapi_inv (set_timer zero_time m, c)" by (cases c) auto
qed

text \<open>The event a call fires, if any: every call is one event, one timer check, one alignment, or no
  step at all.\<close>

lemma rapi_step_forms:
  obtains (event) now ev p where "rapi_step op st = fst (rapi_fire now ev p st)"
      "ev \<noteq> TimerExpired" "ev = EvRevalidate \<Longrightarrow> \<exists>t. op = RRevalidate t"
    | (timer) now where "rapi_step op st = rapi_advance now st"
    | (align) at where "rapi_step op st = rapi_align_cooldown at st"
    | (none) "rapi_step op st = st"
proof (cases op)
  case (RAllKeys h r now)
  then have "rapi_step op st = fst (rapi_fire now (if h then EvAllKeysHard else EvAllKeysSoft)
      (Some (AllKeys \<lparr>ak_hard = h, ak_reason = r, ak_pool_recover_at = zero_time\<rparr>)) st)"
    by (simp add: rapi_all_keys_unavailable_def Let_def split_beta)
  then show thesis by (rule event) (simp_all split: if_splits)
next
  case (RPickable now)
  then have "rapi_step op st = rapi_advance now st \<or> rapi_step op st = st"
    by (simp add: rapi_pickable_def Let_def)
  then show thesis using timer none by blast
next
  case (RAdvance now)
  then have "rapi_step op st = rapi_advance now st" by simp
  then show thesis by (rule timer)
next
  case (RAlign at)
  then have "rapi_step op st = rapi_align_cooldown at st" by simp
  then show thesis by (rule align)
next
  case (RSuccess now)
  then have "rapi_step op st = fst (rapi_fire now EvSuccess None st)" by (simp add: rapi_success_def)
  then show thesis by (rule event) simp_all
next
  case (RInvalidate now)
  then have "rapi_step op st = fst (rapi_fire now EvInvalidate None st)"
    by (simp add: rapi_invalidate_def)
  then show thesis by (rule event) simp_all
next
  case (RRevalidate now)
  then have "rapi_step op st = fst (rapi_fire now EvRevalidate None st)"
    by (simp add: rapi_revalidate_def)
  then show thesis by (rule event) (simp_all add: RRevalidate)
next
  case (RSession r at t now)
  then obtain p where "rapi_step op st = fst (rapi_fire now EvSessionFailure p st)"
    by (auto simp: rapi_session_failure_def)
  then show thesis by (rule event) simp_all
next
  case (RPlatform r now)
  then obtain p where "rapi_step op st = fst (rapi_fire now EvPlatformFailure p st)"
    by (auto simp: rapi_platform_failure_def)
  then show thesis by (rule event) simp_all
qed

lemma rapi_align_inv: "rapi_inv st \<Longrightarrow> rapi_inv (rapi_align_cooldown at st)"
  by (cases st) (auto simp: rapi_align_cooldown_def)

lemma rapi_step_inv: "rapi_inv st \<Longrightarrow> rapi_inv (rapi_step op st)"
proof (cases rule: rapi_step_forms [of op st])
  case (event now ev p)
  then show "rapi_inv st \<Longrightarrow> ?thesis"
    using rapi_timers.fire_inv [where m = "fst st" and c = "snd st" and ev = ev, folded rapi_rules_def]
    by simp
next
  case (timer now)
  then show "rapi_inv st \<Longrightarrow> ?thesis"
    using rapi_timers.advance_inv [where m = "fst st" and c = "snd st", folded rapi_rules_def]
    by (simp add: rapi_advance_def)
qed (simp_all add: rapi_align_inv)

lemma rapi_soft_effect:
  "rapi_on_all_keys_soft now \<lparr>ctx_event = ev, ctx_payload = Some (AllKeys
      \<lparr>ak_hard = h, ak_reason = r, ak_pool_recover_at = zero_time\<rparr>)\<rparr> (m, d, w) =
   rapi_session_effect \<lparr>sf_reason = r, sf_retry_at = zero_time, sf_is_timeout = False,
      sf_is_billing = False, sf_persist_temporary = False\<rparr> now (m, d, w)"
  by (simp add: rapi_on_all_keys_soft_def)

lemma rapi_session_effect_world [simp]: "snd (snd (rapi_session_effect p now (m, d, w))) = w"
  by (simp add: rapi_session_effect_def Let_def)

lemma rapi_step_no_panic:
  "\<not> w_panicked (snd (snd st)) \<Longrightarrow> \<not> w_panicked (snd (snd (rapi_step op st)))"
  by (cases st; cases op) (auto simp: rapi_op_defs op_simps rapi_soft_effect Let_def)

text \<open>Whatever calls are made on an endpoint, in whatever order and at whatever times, it stays in
  the four states of its table, a healthy endpoint has no running timer, its failure count is not
  negative, and no effect ever fails its payload assertion.\<close>

lemma rapi_run_safe:
  "let st = (fst (new_rapi i cfg hs now), snd (new_rapi i cfg hs now), new_world)
   in rapi_inv (rapi_run ops st) \<and> \<not> w_panicked (snd (snd (rapi_run ops st)))"
proof -
  have "rapi_inv (rapi_run ops st) \<and> \<not> w_panicked (snd (snd (rapi_run ops st)))"
    if "rapi_inv st" "\<not> w_panicked (snd (snd st))" for st
    using that unfolding rapi_run_def
    by (induction ops arbitrary: st) (auto simp: rapi_step_inv rapi_step_no_panic)
  then show ?thesis by (simp add: new_rapi_def Let_def)
qed

lemma rapi_step_frozen:
  assumes "m_state (fst st) = Invalidated" and "\<forall>t. op \<noteq> RRevalidate t"
  shows "m_state (fst (rapi_step op st)) = Invalidated"
proof (cases rule: rapi_step_forms [of op st])
  case (event now ev p)
  with assms rapi_frozen.fire_pinned [where m = "fst st" and ev = ev and c = "snd st",
      folded rapi_rules_def]
  show ?thesis by auto
next
  case (timer now)
  with assms rapi_frozen.advance_pinned [where m = "fst st" and c = "snd st", folded rapi_rules_def]
  show ?thesis by (auto simp: rapi_advance_def)
next
  case (align at)
  with assms show ?thesis by (auto simp: rapi_align_cooldown_def)
qed (use assms in simp)

lemma rapi_run_frozen:
  "m_state (fst st) = Invalidated \<Longrightarrow> \<forall>t. RRevalidate t \<notin> set ops \<Longrightarrow>
   m_state (fst (rapi_run ops st)) = Invalidated"
proof (induction ops arbitrary: st)
  case (Cons op ops)
  then have "m_state (fst (rapi_step op st)) = Invalidated" by (intro rapi_step_frozen) auto
  with Cons show ?case by (simp add: rapi_run_def)
qed (simp add: rapi_run_def)

text \<open>An invalidated endpoint stays out of the selection through any history of successes,
  failures, timers and alignments that has no revalidation in it, and reports no recovery time.\<close>

lemma rapi_invalidated_until_revalidated:
  assumes "m_state (fst st) = Invalidated" and "\<forall>t. RRevalidate t \<notin> set ops"
  shows "snd (rapi_pickable u (rapi_run ops st)) = (False, zero_time)"
  using rapi_run_frozen [OF assms] by (simp add: rapi_pickable_def)

lemma rapi_invalidated_until_revalidated_witness:
  "\<exists>st. snd (rapi_pickable 900 (rapi_run
     [RSuccess 8, RSession ''x'' 0 False 9, RAlign 40, RAdvance 60, RAllKeys True ''y'' 70] st)) =
     (False, zero_time)"
proof -
  define st :: rapi_st where "st = (set_timer 20 (new_machine Invalidated 3),
    \<lparr>e_id = 1, e_cfg = \<lparr>cc_default = 10, cc_timeout = 5, cc_max = 120, cc_backoff = True,
      cc_billing = 1800\<rparr>, e_has_store = True, e_consecutive = 2, e_last_success = 1,
     e_last_failure = 2, e_reason = ''z''\<rparr>, new_world)"
  have "m_state (fst st) = Invalidated" by (simp add: st_def)
  from rapi_invalidated_until_revalidated [OF this, of
      "[RSuccess 8, RSession ''x'' 0 False 9, RAlign 40, RAdvance 60, RAllKeys True ''y'' 70]" 900]
  show ?thesis by (intro exI [of _ st]) simp
qed

section \<open>Backoff\<close>

text \<open>The promised schedule: the default cooldown doubled for each further consecutive failure, six
  times at most, and never above the maximum.\<close>

definition backoff_spec :: "cooldown_config \<Rightarrow> int \<Rightarrow> duration" where
  "backoff_spec cfg n =
     min (cc_max cfg) (if cc_backoff cfg then cc_default cfg * 2 ^ nat (min (max (n - 1) 0) 6)
                       else cc_default cfg)"

lemma pow_min6: "(2::int) ^ nat (min (n - 1) 6) \<le> 64" if "1 < n" for n :: int
proof -
  have "nat (min (n - 1) 6) \<le> 6" by simp
  then have "(2::int) ^ nat (min (n - 1) 6) \<le> 2 ^ 6" by (intro power_increasing) simp_all
  then show ?thesis by simp
qed

lemma wrap64_shift:
  assumes "0 \<le> c" "64 * c < 2 ^ 63" "1 < n"
  shows "wrap64 (c * 2 ^ nat (min (n - 1) 6)) = c * 2 ^ nat (min (n - 1) 6)"
proof -
  have "c * 2 ^ nat (min (n - 1) 6) \<le> c * 64" by (intro mult_left_mono pow_min6 assms)
  moreover have "0 \<le> c * 2 ^ nat (min (n - 1) 6)" using assms by simp
  moreover have "c * 64 < 2 ^ 63" using assms by simp
  ultimately show ?thesis by (intro wrap64_id conjI) linarith+
qed

lemma rapi_cooldown_spec:
  assumes "0 \<le> cc_default cfg" "64 * cc_default cfg < 2 ^ 63"
  shows "rapi_cooldown cfg n False = backoff_spec cfg n"
proof (cases "cc_backoff cfg \<and> 1 < n")
  case True
  then have "max (n - 1) 0 = n - 1" by simp
  with True wrap64_shift [OF assms, of n] show ?thesis
    unfolding rapi_cooldown_def backoff_spec_def Let_def by simp
next
  case False
  then show ?thesis
    by (auto simp: rapi_cooldown_def backoff_spec_def Let_def min_def max_def)
qed

lemma rapi_session_live:
  "m_state m \<in> {Healthy, Cooling, PlatformFailed} \<Longrightarrow>
   rapi_session_failure r 0 False now (m, d, w) =
     (set_timer (now + rapi_cooldown (e_cfg d) (e_consecutive d + 1) False) (enter_state Cooling now m),
      d\<lparr>e_last_failure := now, e_reason := r, e_consecutive := e_consecutive d + 1\<rparr>, w)"
  by (auto simp: rapi_session_failure_def op_simps rapi_session_effect_def Let_def)

lemma rapi_session_fold:
  assumes "m_state m \<in> {Healthy, Cooling, PlatformFailed}"
  shows "\<exists>m' d'. fold (\<lambda>t. rapi_session_failure r 0 False t) ts (m, d, w) = (m', d', w) \<and>
    m_state m' \<in> {Healthy, Cooling, PlatformFailed} \<and> e_cfg d' = e_cfg d \<and>
    e_consecutive d' = e_consecutive d + int (length ts)"
  using assms
proof (induction ts arbitrary: m d)
  case (Cons t ts)
  then show ?case
    using Cons.IH [of "set_timer (t + rapi_cooldown (e_cfg d) (e_consecutive d + 1) False)
      (enter_state Cooling t m)"] by (fastforce simp: rapi_session_live)
qed simp

text \<open>C9: The cooldown after a row of transient failures follows the promised schedule: with no success
  in between, the last failure at time \<open>t\<close> keeps the endpoint out until \<open>t\<close> plus the default cooldown
  doubled once per earlier failure (six times at most), capped at the maximum, and it is
  pickable again from that instant; the int64 shift does not wrap for a default below a 64th of
  the range.\<close>

theorem rapi_backoff_schedule:
  assumes "m_state (fst st) \<in> {Healthy, Cooling, PlatformFailed}"
    and "e_consecutive (fst (snd st)) = 0" and "0 < t"
    and "0 < cc_default (e_cfg (fst (snd st)))" and "64 * cc_default (e_cfg (fst (snd st))) < 2 ^ 63"
    and "0 < cc_max (e_cfg (fst (snd st)))"
  shows "snd (rapi_pickable u (fold (\<lambda>t. rapi_session_failure r 0 False t) (ts @ [t]) st)) =
    (let until = t + backoff_spec (e_cfg (fst (snd st))) (int (length ts) + 1)
     in if u < until then (False, until) else (True, zero_time))"
proof -
  obtain m d w where st: "st = (m, d, w)" by (cases st) auto
  obtain m' d' where f: "fold (\<lambda>t. rapi_session_failure r 0 False t) ts (m, d, w) = (m', d', w)"
    "m_state m' \<in> {Healthy, Cooling, PlatformFailed}" "e_cfg d' = e_cfg d"
    "e_consecutive d' = int (length ts)"
    using rapi_session_fold [of m r ts d w] assms st by auto
  have pos: "0 < backoff_spec (e_cfg d) n" for n using assms st by (simp add: backoff_spec_def)
  have c: "rapi_cooldown (e_cfg d) n False = backoff_spec (e_cfg d) n" for n
    using assms st by (intro rapi_cooldown_spec) simp_all
  have ne: "t + backoff_spec (e_cfg d) n \<noteq> 0" for n using pos [of n] assms(3) by simp
  show ?thesis
    using st f ne
    by (auto simp: rapi_session_live c rapi_pickable_def Let_def rapi_advance_def advance_def
        op_simps algebra_simps)
qed

theorem rapi_backoff_schedule_witness:
  "\<exists>st. snd (rapi_pickable 339 (fold (\<lambda>t. rapi_session_failure ''503'' 0 False t) ([100, 200] @ [300]) st)) =
      (False, 340) \<and>
    snd (rapi_pickable 340 (fold (\<lambda>t. rapi_session_failure ''503'' 0 False t) ([100, 200] @ [300]) st)) =
      (True, zero_time)"
proof -
  define st :: rapi_st where "st = (new_machine Healthy 3,
    \<lparr>e_id = 1, e_cfg = \<lparr>cc_default = 10, cc_timeout = 5, cc_max = 120, cc_backoff = True,
      cc_billing = 1800\<rparr>, e_has_store = True, e_consecutive = 0, e_last_success = 1,
     e_last_failure = 2, e_reason = []\<rparr>, new_world)"
  have h: "m_state (fst st) \<in> {Healthy, Cooling, PlatformFailed}" "e_consecutive (fst (snd st)) = 0"
    "0 < (300::int)" "0 < cc_default (e_cfg (fst (snd st)))"
    "64 * cc_default (e_cfg (fst (snd st))) < 2 ^ 63" "0 < cc_max (e_cfg (fst (snd st)))"
    by (simp_all add: st_def)
  have b: "backoff_spec (e_cfg (fst (snd st))) (int (length [100, 200 :: int]) + 1) = 40"
    by (simp add: st_def backoff_spec_def)
  show ?thesis
    using rapi_backoff_schedule [OF h, of 339 "''503''" "[100, 200]"]
      rapi_backoff_schedule [OF h, of 340 "''503''" "[100, 200]"]
    unfolding b Let_def by (intro exI [of _ st] conjI) simp_all
qed

section \<open>First detection\<close>

definition rapi_flag :: "rapi_op \<Rightarrow> rapi_st \<Rightarrow> bool" where
  "rapi_flag op st =
     (case op of RAllKeys h r now \<Rightarrow> snd (rapi_all_keys_unavailable h r now st) | _ \<Rightarrow> False)"

fun rapi_flags :: "rapi_op list \<Rightarrow> rapi_st \<Rightarrow> nat" where
  "rapi_flags [] st = 0"
| "rapi_flags (op # ops) st = (if rapi_flag op st then 1 else 0) + rapi_flags ops (rapi_step op st)"

definition revalidations :: "rapi_op list \<Rightarrow> nat" where
  "revalidations ops = length (filter (\<lambda>op. \<exists>t. op = RRevalidate t) ops)"

lemma rapi_flagD:
  "rapi_flag op st \<Longrightarrow> m_state (fst st) \<noteq> Invalidated \<and> m_state (fst (rapi_step op st)) = Invalidated"
  by (cases st; cases op)
    (auto simp: rapi_flag_def rapi_op_defs op_simps Let_def split: if_splits)

lemma rapi_flags_bound:
  "rapi_flags ops st \<le> (if m_state (fst st) = Invalidated then 0 else 1) + revalidations ops"
proof (induction ops arbitrary: st)
  case Nil
  then show ?case by simp
next
  case (Cons op ops)
  have rv: "revalidations (op # ops) = (if \<exists>t. op = RRevalidate t then 1 else 0) + revalidations ops"
    by (simp add: revalidations_def)
  have "m_state (fst (rapi_step op st)) = Invalidated"
    if "m_state (fst st) = Invalidated" "\<not> (\<exists>t. op = RRevalidate t)"
    using rapi_step_frozen [of st op] that by blast
  with Cons.IH [of "rapi_step op st"] rapi_flagD [of op st] show ?case
    unfolding rv by (auto split: if_splits)
qed

text \<open>The detection that the whole key pool is dead is reported once: over any history of calls, the
  calls that answer ``just invalidated'' (on which the gateway notifies and the row is written)
  are at most one more than the revalidations.\<close>

lemma rapi_detection_reported_once:
  "rapi_flags ops st \<le> 1 + revalidations ops"
  using rapi_flags_bound [of ops st] by (auto split: if_splits)

end
