(* ===== verification/KeyEntity.thy ===== *)
theory KeyEntity
  imports EntityBase
begin

text \<open>
  The state machine of one platform key, \<open>internal/entity/key.go\<close>: its transition table, the
  effects, and the operations the scheduler calls. \<open>key_st\<close> is the machine, the other fields of
  the struct and the store behind it. An operation runs under the key's own mutex, so it is one
  step.
\<close>

record key_data =
  k_id :: int
  k_cfg :: cooldown_config
  k_has_store :: bool
  k_reason :: string

type_synonym key = "state machine \<times> key_data"
type_synonym key_st = "state machine \<times> key_data \<times> world"
type_synonym key_effect = "instant \<Rightarrow> (event, payload) fsm_context \<Rightarrow> key_st \<Rightarrow> key_st"
type_synonym key_transition = "(state, event, payload, key_data \<times> world) transition"

section \<open>Effects\<close>

definition key_cooldown :: "cooldown_config \<Rightarrow> session_failure_payload \<Rightarrow> duration" where
  "key_cooldown cfg p =
     (if sf_is_billing p \<and> cc_billing cfg > 0 then cc_billing cfg
      else if sf_is_timeout p \<and> cc_timeout cfg > 0 then cc_timeout cfg
      else cc_default cfg)"

definition key_until :: "cooldown_config \<Rightarrow> session_failure_payload \<Rightarrow> instant \<Rightarrow> instant" where
  "key_until cfg p now =
     (let until = sf_retry_at p in
      if until = zero_time \<or> \<not> until > now then now + key_cooldown cfg p else until)"

definition key_on_session_failure :: key_effect where
  "key_on_session_failure now ctx = (\<lambda>(m, d, w).
     case ctx_payload ctx of
       Some (SessionFailure p) \<Rightarrow>
         (set_timer (key_until (k_cfg d) p now) m,
          d\<lparr>k_reason := sf_reason p\<rparr>,
          if sf_persist_temporary p \<and> k_has_store d \<and> k_id d > 0
          then emit (MarkKeyTemporaryFailure (k_id d) (sf_reason p)) w else w)
     | _ \<Rightarrow> (m, d, panic w))"

definition key_on_platform_failure :: key_effect where
  "key_on_platform_failure now ctx = (\<lambda>(m, d, w).
     case ctx_payload ctx of
       Some (SessionFailure p) \<Rightarrow>
         (m, d\<lparr>k_reason := sf_reason p\<rparr>,
          if k_has_store d \<and> k_id d > 0
          then emit (MarkKeyPermanentFailure (k_id d) (sf_reason p)) w else w)
     | _ \<Rightarrow> (m, d, panic w))"

definition key_on_row_fact :: key_effect where
  "key_on_row_fact now ctx = (\<lambda>(m, d, w). (set_timer zero_time m, d, w))"

definition key_on_enable :: key_effect where
  "key_on_enable now ctx = (\<lambda>(m, d, w). (m, d\<lparr>k_reason := []\<rparr>, w))"

definition key_on_success :: key_effect where
  "key_on_success now ctx = (\<lambda>(m, d, w).
     (set_timer zero_time m, d\<lparr>k_reason := []\<rparr>,
      if k_has_store d \<and> k_id d > 0 then emit (ClearKeyFailure (k_id d)) w else w))"

definition key_on_timer_expired :: key_effect where
  "key_on_timer_expired now ctx = (\<lambda>(m, d, w). (m, d\<lparr>k_reason := []\<rparr>, w))"

section \<open>Transition table\<close>

definition key_edge :: "state \<Rightarrow> event \<Rightarrow> state \<Rightarrow> key_effect \<Rightarrow> key_transition" where
  "key_edge s e s' f =
     \<lparr>t_from = s, t_event = e, t_to = s', t_guard = None, t_effect = Some f\<rparr>"

definition key_table :: "key_transition list" where
  "key_table =
     [key_edge Healthy EvSessionFailure Cooling key_on_session_failure,
      key_edge Healthy EvPlatformFailure PlatformFailed key_on_platform_failure,
      key_edge Healthy EvDisable Disabled key_on_row_fact,
      key_edge Healthy EvExpire Expired key_on_row_fact,
      key_edge Healthy EvPermanentFailure PermanentFailed key_on_row_fact,
      key_edge Healthy EvSuccess Healthy key_on_success,
      key_edge Cooling EvSessionFailure Cooling key_on_session_failure,
      key_edge Cooling EvPlatformFailure PlatformFailed key_on_platform_failure,
      key_edge Cooling EvDisable Disabled key_on_row_fact,
      key_edge Cooling EvExpire Expired key_on_row_fact,
      key_edge Cooling EvPermanentFailure PermanentFailed key_on_row_fact,
      key_edge Cooling EvSuccess Healthy key_on_success,
      key_edge Cooling TimerExpired Healthy key_on_timer_expired,
      key_edge PlatformFailed EvPlatformFailure PlatformFailed key_on_platform_failure,
      key_edge PlatformFailed EvDisable Disabled key_on_row_fact,
      key_edge PlatformFailed EvExpire Expired key_on_row_fact,
      key_edge PlatformFailed EvPermanentFailure PermanentFailed key_on_row_fact,
      key_edge PlatformFailed EvSuccess Healthy key_on_success,
      key_edge PlatformFailed TimerExpired Healthy key_on_timer_expired,
      key_edge PermanentFailed EvSuccess Healthy key_on_success,
      key_edge PermanentFailed EvEnable Healthy key_on_enable,
      key_edge PermanentFailed EvDisable Disabled key_on_row_fact,
      key_edge PermanentFailed EvExpire Expired key_on_row_fact,
      key_edge Disabled EvEnable Healthy key_on_enable,
      key_edge Disabled EvExpire Expired key_on_row_fact,
      key_edge Expired EvEnable Healthy key_on_enable,
      key_edge Expired EvDisable Disabled key_on_row_fact]"

definition key_rules :: "(state, event, payload, key_data \<times> world) rules" where
  "key_rules = build_rules key_table"

section \<open>Operations\<close>

definition new_key :: "int \<Rightarrow> cooldown_config \<Rightarrow> bool \<Rightarrow> instant \<Rightarrow> key" where
  "new_key i cfg has_store now =
     (new_machine Healthy now, \<lparr>k_id = i, k_cfg = cfg, k_has_store = has_store, k_reason = []\<rparr>)"

abbreviation key_fire :: "instant \<Rightarrow> event \<Rightarrow> payload option \<Rightarrow> key_st \<Rightarrow> key_st \<times> state \<times> bool" where
  "key_fire \<equiv> fire key_rules"

definition key_sync :: "platform_key \<Rightarrow> instant \<Rightarrow> key_st \<Rightarrow> key_st" where
  "key_sync row now st =
     (if \<not> pk_enabled row then fst (key_fire now EvDisable None st)
      else if pk_failure_type row = 2
        then fst (key_fire now EvPermanentFailure (Some (ReasonText (pk_failure_reason row))) st)
      else if past_expiry row now then fst (key_fire now EvExpire None st)
      else if m_state (fst st) \<in> {Disabled, Expired, PermanentFailed}
        then fst (key_fire now EvEnable None st)
      else st)"

definition key_success :: "instant \<Rightarrow> key_st \<Rightarrow> key_st" where
  "key_success now st = fst (key_fire now EvSuccess None st)"

definition key_fire_session_failure ::
  "session_failure_payload \<Rightarrow> instant \<Rightarrow> key_st \<Rightarrow> key_st \<times> bool" where
  "key_fire_session_failure p now st =
     (let before = m_state (fst st);
          (st', after, _) = key_fire now EvSessionFailure (Some (SessionFailure p)) st
      in (st', before \<noteq> after))"

definition key_session_failure :: "string \<Rightarrow> instant \<Rightarrow> bool \<Rightarrow> instant \<Rightarrow> key_st \<Rightarrow> key_st \<times> bool" where
  "key_session_failure reason retry_at is_timeout now st =
     key_fire_session_failure
       \<lparr>sf_reason = reason, sf_retry_at = retry_at, sf_is_timeout = is_timeout,
        sf_is_billing = False, sf_persist_temporary = False\<rparr> now st"

definition key_temporary_failure :: "string \<Rightarrow> instant \<Rightarrow> bool \<Rightarrow> instant \<Rightarrow> key_st \<Rightarrow> key_st \<times> bool" where
  "key_temporary_failure reason retry_at is_timeout now st =
     key_fire_session_failure
       \<lparr>sf_reason = reason, sf_retry_at = retry_at, sf_is_timeout = is_timeout,
        sf_is_billing = False, sf_persist_temporary = True\<rparr> now st"

definition key_billing_failure :: "string \<Rightarrow> instant \<Rightarrow> key_st \<Rightarrow> key_st \<times> bool" where
  "key_billing_failure reason now st =
     key_fire_session_failure
       \<lparr>sf_reason = reason, sf_retry_at = zero_time, sf_is_timeout = False,
        sf_is_billing = True, sf_persist_temporary = True\<rparr> now st"

definition key_platform_failure :: "string \<Rightarrow> instant \<Rightarrow> key_st \<Rightarrow> key_st \<times> bool" where
  "key_platform_failure reason now st =
     (let before = m_state (fst st);
          p = \<lparr>sf_reason = reason, sf_retry_at = zero_time, sf_is_timeout = False,
               sf_is_billing = False, sf_persist_temporary = False\<rparr>;
          (st', after, _) = key_fire now EvPlatformFailure (Some (SessionFailure p)) st
      in (st', before \<noteq> after))"

definition key_advance :: "instant \<Rightarrow> key_st \<Rightarrow> key_st" where
  "key_advance now st = fst (advance TimerExpired key_rules now st)"

definition key_pickable :: "instant \<Rightarrow> key_st \<Rightarrow> key_st \<times> bool \<times> instant" where
  "key_pickable now st =
     (let s = m_state (fst st) in
      if s = Healthy then (st, True, zero_time)
      else if s = Cooling \<or> s = PlatformFailed then
        (let wa = m_wake_at (fst st) in
         if wa > now then (st, False, wa)
         else let st' = key_advance now st in (st', m_state (fst st') = Healthy, zero_time))
      else (st, False, zero_time))"

record key_snapshot =
  ks_id :: int
  ks_state :: state
  ks_cooling :: bool
  ks_recover_at :: instant
  ks_reason :: string

definition key_snapshot_of :: "instant \<Rightarrow> key \<Rightarrow> key_snapshot" where
  "key_snapshot_of now k =
     (let st = m_state (fst k); wa = m_wake_at (fst k) in
      \<lparr>ks_id = k_id (snd k), ks_state = st,
       ks_cooling = ((st = Cooling \<or> st = PlatformFailed) \<and> wa > now),
       ks_recover_at = wa, ks_reason = k_reason (snd k)\<rparr>)"

definition key_align_cooldown :: "instant \<Rightarrow> key_st \<Rightarrow> key_st" where
  "key_align_cooldown at st =
     (if at = zero_time then st
      else if m_state (fst st) = Cooling then (set_timer at (fst st), snd st) else st)"

text \<open>One call on a key, and a history of calls.\<close>

datatype key_op =
    KSync platform_key instant
  | KSuccess instant
  | KSession string instant bool instant
  | KTemporary string instant bool instant
  | KBilling string instant
  | KPlatform string instant
  | KAdvance instant
  | KPickable instant
  | KAlign instant

fun key_step :: "key_op \<Rightarrow> key_st \<Rightarrow> key_st" where
  "key_step (KSync row now) st = key_sync row now st"
| "key_step (KSuccess now) st = key_success now st"
| "key_step (KSession r at t now) st = fst (key_session_failure r at t now st)"
| "key_step (KTemporary r at t now) st = fst (key_temporary_failure r at t now st)"
| "key_step (KBilling r now) st = fst (key_billing_failure r now st)"
| "key_step (KPlatform r now) st = fst (key_platform_failure r now st)"
| "key_step (KAdvance now) st = key_advance now st"
| "key_step (KPickable now) st = fst (key_pickable now st)"
| "key_step (KAlign at) st = key_align_cooldown at st"

definition key_run :: "key_op list \<Rightarrow> key_st \<Rightarrow> key_st" where
  "key_run ops st = fold key_step ops st"

section \<open>The table as equations\<close>

lemma key_guard [simp]: "tr \<in> set key_table \<Longrightarrow> guard_passes tr ev p c"
  by (auto simp: key_table_def key_edge_def guard_passes_def)

lemma key_match [fsm_simps]:
  "match_locked key_rules m ev p c = find (\<lambda>tr. t_from tr = m_state m \<and> t_event tr = ev) key_table"
proof -
  have "find (\<lambda>tr. t_from tr = s \<and> t_event tr = ev \<and> guard_passes tr ev p c) key_table =
        find (\<lambda>tr. t_from tr = s \<and> t_event tr = ev) key_table" for s
    by (rule find_cong) auto
  then show ?thesis
    by (simp add: match_locked_def key_rules_def r_index_build first_passing_find find_filter)
qed

lemmas key_effect_defs = key_on_session_failure_def key_on_platform_failure_def key_on_row_fact_def
  key_on_enable_def key_on_success_def key_on_timer_expired_def

lemmas key_table_defs = key_table_def key_edge_def run_effect_def key_effect_defs

text \<open>Every operation, by the state it finds.\<close>

lemma key_fire_session [op_simps]:
  "key_fire now EvSessionFailure (Some (SessionFailure p)) (m, d, w) =
     (if m_state m = Healthy \<or> m_state m = Cooling
      then ((set_timer (key_until (k_cfg d) p now) (enter_state Cooling now m),
             d\<lparr>k_reason := sf_reason p\<rparr>,
             if sf_persist_temporary p \<and> k_has_store d \<and> k_id d > 0
             then emit (MarkKeyTemporaryFailure (k_id d) (sf_reason p)) w else w), Cooling, True)
      else ((m, d, w), m_state m, False))"
  by (cases "m_state m") (simp_all add: fire_def key_match key_table_defs)

lemma key_fire_platform [op_simps]:
  "key_fire now EvPlatformFailure (Some (SessionFailure p)) (m, d, w) =
     (if m_state m \<in> {Healthy, Cooling, PlatformFailed}
      then ((enter_state PlatformFailed now m, d\<lparr>k_reason := sf_reason p\<rparr>,
             if k_has_store d \<and> k_id d > 0
             then emit (MarkKeyPermanentFailure (k_id d) (sf_reason p)) w else w),
            PlatformFailed, True)
      else ((m, d, w), m_state m, False))"
  by (cases "m_state m") (simp_all add: fire_def key_match key_table_defs)

lemma key_fire_success [op_simps]:
  "key_fire now EvSuccess p (m, d, w) =
     (if m_state m \<in> {Healthy, Cooling, PlatformFailed, PermanentFailed}
      then ((set_timer zero_time (enter_state Healthy now m), d\<lparr>k_reason := []\<rparr>,
             if k_has_store d \<and> k_id d > 0 then emit (ClearKeyFailure (k_id d)) w else w),
            Healthy, True)
      else ((m, d, w), m_state m, False))"
  by (cases "m_state m") (simp_all add: fire_def key_match key_table_defs)

lemma key_fire_disable [op_simps]:
  "key_fire now EvDisable p (m, d, w) =
     (if m_state m \<in> {Healthy, Cooling, PlatformFailed, PermanentFailed, Expired}
      then ((set_timer zero_time (enter_state Disabled now m), d, w), Disabled, True)
      else ((m, d, w), m_state m, False))"
  by (cases "m_state m") (simp_all add: fire_def key_match key_table_defs)

lemma key_fire_expire [op_simps]:
  "key_fire now EvExpire p (m, d, w) =
     (if m_state m \<in> {Healthy, Cooling, PlatformFailed, PermanentFailed, Disabled}
      then ((set_timer zero_time (enter_state Expired now m), d, w), Expired, True)
      else ((m, d, w), m_state m, False))"
  by (cases "m_state m") (simp_all add: fire_def key_match key_table_defs)

lemma key_fire_permanent [op_simps]:
  "key_fire now EvPermanentFailure p (m, d, w) =
     (if m_state m \<in> {Healthy, Cooling, PlatformFailed}
      then ((set_timer zero_time (enter_state PermanentFailed now m), d, w), PermanentFailed, True)
      else ((m, d, w), m_state m, False))"
  by (cases "m_state m") (simp_all add: fire_def key_match key_table_defs)

lemma key_fire_enable [op_simps]:
  "key_fire now EvEnable p (m, d, w) =
     (if m_state m \<in> {PermanentFailed, Disabled, Expired}
      then ((enter_state Healthy now m, d\<lparr>k_reason := []\<rparr>, w), Healthy, True)
      else ((m, d, w), m_state m, False))"
  by (cases "m_state m") (simp_all add: fire_def key_match key_table_defs)

lemma key_fire_timer [op_simps]:
  "key_fire now TimerExpired p (m, d, w) =
     (if m_state m \<in> {Cooling, PlatformFailed}
      then ((enter_state Healthy now m, d\<lparr>k_reason := []\<rparr>, w), Healthy, True)
      else ((m, d, w), m_state m, False))"
  by (cases "m_state m") (simp_all add: fire_def key_match key_table_defs)

lemmas key_op_defs = key_sync_def key_success_def key_session_failure_def key_temporary_failure_def
  key_billing_failure_def key_platform_failure_def key_fire_session_failure_def key_advance_def
  key_pickable_def key_align_cooldown_def advance_def

section \<open>Invariants\<close>

abbreviation dead_states :: "state set" where
  "dead_states \<equiv> {PermanentFailed, Disabled, Expired}"

definition key_inv :: "key_st \<Rightarrow> bool" where
  "key_inv st \<longleftrightarrow>
     m_state (fst st) \<in> {Healthy, Cooling, PlatformFailed} \<union> dead_states \<and>
     (m_state (fst st) \<in> insert Healthy dead_states \<longrightarrow> m_wake_at (fst st) = zero_time)"

lemma key_inv_simp [simp]:
  "key_inv (m, d, w) \<longleftrightarrow>
     m_state m \<in> {Healthy, Cooling, PlatformFailed} \<union> dead_states \<and>
     (m_state m \<in> insert Healthy dead_states \<longrightarrow> m_wake_at m = zero_time)"
  by (simp add: key_inv_def)

interpretation key_fx: fsm_effects key_table TimerExpired
  by unfold_locales
    (auto simp: key_table_defs split: option.splits payload.splits)

interpretation key_off: fsm_pinned key_table TimerExpired "{Disabled, Expired}" "{EvEnable}"
  by unfold_locales (auto simp: key_table_def key_edge_def)

interpretation key_dead: fsm_pinned key_table TimerExpired dead_states "{EvEnable, EvSuccess}"
  by unfold_locales (auto simp: key_table_def key_edge_def)

interpretation key_timers: fsm_invariant key_table TimerExpired key_inv
proof unfold_locales
  fix tr :: key_transition and m :: "state machine" and p :: "payload option"
    and c :: "key_data \<times> world" and now :: instant
  obtain d w where c: "c = (d, w)" by fastforce
  assume tr: "tr \<in> set key_table" and s: "m_state m = t_from tr" and i: "key_inv (m, c)"
  have pay: "(\<exists>q. p = Some (SessionFailure q)) \<or> (\<forall>q. p \<noteq> Some (SessionFailure q))" by blast
  show "key_inv (run_effect tr now TimerExpired None
      (enter_state (t_to tr) now (set_timer zero_time m), c))" if "t_event tr = TimerExpired"
    using tr s i c that
    unfolding key_table_def key_edge_def set_simps by (elim insertE) (simp_all add: key_table_defs)
  show "key_inv (run_effect tr now (t_event tr) p (enter_state (t_to tr) now m, c))"
    if "t_event tr \<noteq> TimerExpired"
    using tr s i c that pay
    unfolding key_table_def key_edge_def set_simps
    by (elim insertE) (auto simp: key_table_defs split: option.splits payload.splits)
next
  fix m :: "state machine" and c :: "key_data \<times> world"
  assume "key_inv (m, c)"
  then show "key_inv (set_timer zero_time m, c)" by (cases c) auto
qed

text \<open>Every call is one event, one timer check, one alignment, or no step at all; only a
  reconciliation with a usable row fires the enabling event.\<close>

lemma key_step_forms:
  obtains (event) now ev p where "key_step op st = fst (key_fire now ev p st)"
      "ev \<noteq> TimerExpired" "ev = EvEnable \<Longrightarrow> \<exists>row. op = KSync row now \<and> key_row_usable row now"
    | (timer) now where "key_step op st = key_advance now st"
    | (align) at where "key_step op st = key_align_cooldown at st"
    | (none) "key_step op st = st"
proof (cases op)
  case (KSync row now)
  show thesis
  proof (cases "key_row_usable row now")
    case True
    then have e: "key_step op st =
        (if m_state (fst st) \<in> dead_states then fst (key_fire now EvEnable None st) else st)"
      using KSync by (auto simp: key_sync_def key_row_usable_def split: if_splits)
    show thesis
    proof (cases "m_state (fst st) \<in> dead_states")
      case True
      with e KSync \<open>key_row_usable row now\<close> show thesis
        by (intro event [of now EvEnable None]) auto
    next
      case False
      with e show thesis by (intro none) simp
    qed
  next
    case False
    consider "key_step op st = fst (key_fire now EvDisable None st)"
      | "key_step op st = fst (key_fire now EvPermanentFailure (Some (ReasonText (pk_failure_reason row))) st)"
      | "key_step op st = fst (key_fire now EvExpire None st)"
      using KSync False
      by (cases "pk_enabled row"; cases "pk_failure_type row = 2"; cases "past_expiry row now")
        (simp_all add: key_sync_def key_row_usable_def)
    then show thesis
    proof cases
      case 1
      then show thesis by (rule event) simp_all
    next
      case 2
      then show thesis by (rule event) simp_all
    next
      case 3
      then show thesis by (rule event) simp_all
    qed
  qed
next
  case (KPickable now)
  have "key_step op st = key_advance now st \<or> key_step op st = st"
    using KPickable by (simp add: key_pickable_def Let_def)
  then show thesis using timer none by blast
next
  case (KAdvance now)
  then have "key_step op st = key_advance now st" by simp
  then show thesis by (rule timer)
next
  case (KAlign at)
  then have "key_step op st = key_align_cooldown at st" by simp
  then show thesis by (rule align)
next
  case (KSuccess now)
  then have "key_step op st = fst (key_fire now EvSuccess None st)" by (simp add: key_success_def)
  then show thesis by (rule event) simp_all
next
  case (KSession r at t now)
  then obtain p where "key_step op st = fst (key_fire now EvSessionFailure p st)"
    by (auto simp: key_op_defs Let_def split_beta)
  then show thesis by (rule event) simp_all
next
  case (KTemporary r at t now)
  then obtain p where "key_step op st = fst (key_fire now EvSessionFailure p st)"
    by (auto simp: key_op_defs Let_def split_beta)
  then show thesis by (rule event) simp_all
next
  case (KBilling r now)
  then obtain p where "key_step op st = fst (key_fire now EvSessionFailure p st)"
    by (auto simp: key_op_defs Let_def split_beta)
  then show thesis by (rule event) simp_all
next
  case (KPlatform r now)
  then obtain p where "key_step op st = fst (key_fire now EvPlatformFailure p st)"
    by (auto simp: key_op_defs Let_def split_beta)
  then show thesis by (rule event) simp_all
qed

lemma key_align_inv: "key_inv st \<Longrightarrow> key_inv (key_align_cooldown at st)"
  by (cases st) (auto simp: key_align_cooldown_def)

lemma key_step_inv: "key_inv st \<Longrightarrow> key_inv (key_step op st)"
proof (cases rule: key_step_forms [of op st])
  case (event now ev p)
  then show "key_inv st \<Longrightarrow> ?thesis"
    using key_timers.fire_inv [where m = "fst st" and c = "snd st" and ev = ev, folded key_rules_def]
    by simp
next
  case (timer now)
  then show "key_inv st \<Longrightarrow> ?thesis"
    using key_timers.advance_inv [where m = "fst st" and c = "snd st", folded key_rules_def]
    by (simp add: key_advance_def)
qed (simp_all add: key_align_inv)

lemma key_step_no_panic: "\<not> w_panicked (snd (snd st)) \<Longrightarrow> \<not> w_panicked (snd (snd (key_step op st)))"
  by (cases st; cases op) (auto simp: key_op_defs op_simps Let_def)

text \<open>Whatever calls the scheduler and the gateway make on a key, in whatever order and at whatever
  times, the key stays in the states its table is about, a healthy or dead key has no running
  timer, and no effect ever fails its payload assertion.\<close>

lemma key_run_safe:
  "key_inv (key_run ops (fst (new_key i cfg hs now), snd (new_key i cfg hs now), new_world)) \<and>
   \<not> w_panicked (snd (snd (key_run ops (fst (new_key i cfg hs now), snd (new_key i cfg hs now), new_world))))"
proof -
  have "key_inv (key_run ops st) \<and> \<not> w_panicked (snd (snd (key_run ops st)))"
    if "key_inv st" "\<not> w_panicked (snd (snd st))" for st
    using that unfolding key_run_def
    by (induction ops arbitrary: st) (auto simp: key_step_inv key_step_no_panic)
  then show ?thesis by (simp add: new_key_def)
qed

section \<open>Agreement with the row\<close>

lemma key_sync_simps:
  "key_sync row now (m, d, w) =
     (if \<not> pk_enabled row then fst (key_fire now EvDisable None (m, d, w))
      else if pk_failure_type row = 2
        then fst (key_fire now EvPermanentFailure (Some (ReasonText (pk_failure_reason row))) (m, d, w))
      else if past_expiry row now then fst (key_fire now EvExpire None (m, d, w))
      else if m_state m \<in> dead_states then fst (key_fire now EvEnable None (m, d, w))
      else (m, d, w))"
  by (auto simp: key_sync_def)

lemma key_sync_dead_iff:
  "key_inv st \<Longrightarrow> m_state (fst (key_sync row now st)) \<in> dead_states \<longleftrightarrow> \<not> key_row_usable row now"
  by (cases st) (auto simp: key_sync_simps key_row_usable_def op_simps)

lemma key_pickable_dead: "m_state (fst st) \<in> dead_states \<Longrightarrow> key_pickable now st = (st, False, zero_time)"
  by (auto simp: key_pickable_def Let_def)

text \<open>C7: Once a key is reconciled with its row, it is in a dead state exactly when the row is unusable
  by its persisted facts (disabled, failure type 2, expired); so a key reported as pickable always
  has a usable row, and a key with an unusable row has no recovery time.\<close>

theorem key_sync_agrees_with_row:
  assumes "key_inv st"
  shows "(m_state (fst (key_sync row now st)) \<in> dead_states \<longleftrightarrow> \<not> key_row_usable row now) \<and>
    (\<not> key_row_usable row now \<longrightarrow>
       snd (key_pickable t (key_sync row now st)) = (False, zero_time))"
  using key_sync_dead_iff [OF assms] key_pickable_dead by auto

theorem key_sync_agrees_with_row_witness:
  "\<exists>st row. \<not> key_row_usable row 9 \<and> snd (key_pickable 50 (key_sync row 9 st)) = (False, zero_time)"
proof -
  define row where "row = \<lparr>pk_id = 1, pk_platform_id = 1, pk_key_index = 0, pk_token = ''t'',
    pk_label = [], pk_enabled = True, pk_created_at = 1, pk_updated_at = 1, pk_failure_type = 0,
    pk_failure_reason = [], pk_failed_at = None, pk_expires_at = Some 8, pk_is_free = False\<rparr>"
  define st :: key_st where "st = (new_machine Healthy 3,
    \<lparr>k_id = 1, k_cfg = \<lparr>cc_default = 10, cc_timeout = 5, cc_max = 120, cc_backoff = True,
      cc_billing = 1800\<rparr>, k_has_store = True, k_reason = []\<rparr>, new_world)"
  have "key_inv st" by (simp add: st_def)
  moreover have "\<not> key_row_usable row 9" by (simp add: row_def key_row_usable_def past_expiry_def)
  ultimately show ?thesis using key_sync_agrees_with_row [of st row 9 50] by blast
qed

text \<open>A disabled or expired key stays out of the pool through any history of successes, failures,
  timers and cooldown alignments: only a reconciliation with a usable row brings it back.\<close>

lemma key_off_until_row_usable:
  assumes "m_state (fst st) \<in> {Disabled, Expired}"
    and "\<forall>row now. KSync row now \<in> set ops \<longrightarrow> \<not> key_row_usable row now"
  shows "m_state (fst (key_run ops st)) \<in> {Disabled, Expired} \<and>
    snd (key_pickable t (key_run ops st)) = (False, zero_time)"
proof -
  have step: "m_state (fst (key_step op st)) \<in> {Disabled, Expired}"
    if s: "m_state (fst st) \<in> {Disabled, Expired}" and op: "op \<in> set ops" for op st
  proof (cases rule: key_step_forms [of op st])
    case (event now ev p)
    with assms(2) op have "ev \<noteq> EvEnable" by blast
    with event(1) s key_off.fire_pinned [where m = "fst st" and ev = ev and c = "snd st", folded key_rules_def]
    show ?thesis by simp
  next
    case (timer now)
    with s key_off.advance_pinned [where m = "fst st" and c = "snd st", folded key_rules_def]
    show ?thesis by (simp add: key_advance_def)
  next
    case (align at)
    with s show ?thesis by (auto simp: key_align_cooldown_def)
  qed (use s in simp)
  have run: "m_state (fst (fold key_step xs st)) \<in> {Disabled, Expired}"
    if "m_state (fst st) \<in> {Disabled, Expired}" "set xs \<subseteq> set ops" for xs st
    using that by (induction xs arbitrary: st) (simp_all add: step del: insert_iff)
  from run [OF assms(1), of ops] key_pickable_dead [of "key_run ops st" t]
  show ?thesis by (auto simp: key_run_def)
qed

lemma key_off_until_row_usable_witness:
  "\<exists>st. snd (key_pickable 500 (key_run
      [KSuccess 10, KSession ''x'' 0 False 11, KAlign 40, KAdvance 60, KPlatform ''y'' 70] st)) =
      (False, zero_time)"
proof -
  define st :: key_st where "st = (new_machine Disabled 3,
    \<lparr>k_id = 1, k_cfg = \<lparr>cc_default = 10, cc_timeout = 5, cc_max = 120, cc_backoff = True,
      cc_billing = 1800\<rparr>, k_has_store = True, k_reason = []\<rparr>, new_world)"
  let ?ops = "[KSuccess 10, KSession ''x'' 0 False 11, KAlign 40, KAdvance 60, KPlatform ''y'' 70]"
  have "m_state (fst st) \<in> {Disabled, Expired}"
    "\<forall>row now. KSync row now \<in> set ?ops \<longrightarrow> \<not> key_row_usable row now"
    by (simp_all add: st_def)
  from key_off_until_row_usable [OF this, of 500] show ?thesis by blast
qed

lemma key_session_simps:
  "m_state m \<in> {Healthy, Cooling} \<Longrightarrow>
   key_fire_session_failure p now (m, d, w) =
     ((set_timer (key_until (k_cfg d) p now) (enter_state Cooling now m), d\<lparr>k_reason := sf_reason p\<rparr>,
       if sf_persist_temporary p \<and> k_has_store d \<and> k_id d > 0
       then emit (MarkKeyTemporaryFailure (k_id d) (sf_reason p)) w else w), m_state m = Healthy)"
  by (auto simp: key_fire_session_failure_def op_simps)

lemma key_until_later: "0 < key_cooldown cfg p \<Longrightarrow> now < key_until cfg p now"
  by (simp add: key_until_def Let_def)

lemma key_pickable_cooling:
  "m_state m = Cooling \<Longrightarrow> m_wake_at m \<noteq> zero_time \<Longrightarrow>
   snd (key_pickable t (m, d, w)) = (if t < m_wake_at m then (False, m_wake_at m) else (True, zero_time))"
  by (auto simp: key_pickable_def Let_def key_advance_def advance_def op_simps)

text \<open>C6: A session-scope failure keeps a live key out of the pool for exactly its cooldown: until the
  upstream's retry time when that lies ahead, otherwise for the billing, timeout or default
  cooldown from now. Before that instant the key is not pickable and reports it as its recovery
  time; from that instant on it is pickable again.\<close>

theorem key_cooldown_exact:
  assumes "m_state (fst st) \<in> {Healthy, Cooling}" and "0 \<le> now"
    and "0 < key_cooldown (k_cfg (fst (snd st))) p"
  shows "snd (key_pickable t (fst (key_fire_session_failure p now st))) =
    (let u = if now < sf_retry_at p then sf_retry_at p
             else now + key_cooldown (k_cfg (fst (snd st))) p
     in if t < u then (False, u) else (True, zero_time))"
proof -
  obtain m d w where st: "st = (m, d, w)" by (cases st) auto
  have "now < key_until (k_cfg d) p now" using assms(3) st by (simp add: key_until_later)
  with assms st show ?thesis
    by (auto simp: key_session_simps key_pickable_cooling Let_def key_until_def)
qed

theorem key_cooldown_exact_witness:
  "\<exists>st p. snd (key_pickable 129 (fst (key_fire_session_failure p 100 st))) = (False, 130) \<and>
     snd (key_pickable 130 (fst (key_fire_session_failure p 100 st))) = (True, zero_time)"
proof -
  define p where "p = \<lparr>sf_reason = ''402'', sf_retry_at = 0, sf_is_timeout = False,
    sf_is_billing = True, sf_persist_temporary = True\<rparr>"
  define st :: key_st where "st = (new_machine Healthy 3,
    \<lparr>k_id = 1, k_cfg = \<lparr>cc_default = 10, cc_timeout = 5, cc_max = 120, cc_backoff = True,
      cc_billing = 30\<rparr>, k_has_store = True, k_reason = []\<rparr>, new_world)"
  have "m_state (fst st) \<in> {Healthy, Cooling}" "0 < key_cooldown (k_cfg (fst (snd st))) p"
    by (simp_all add: st_def p_def key_cooldown_def)
  from key_cooldown_exact [OF this(1) _ this(2), of 100] show ?thesis
    by (intro exI [of _ st] exI [of _ p]) (simp add: st_def p_def key_cooldown_def)
qed

section \<open>Persistence\<close>

text \<open>The row the database holds for a key after the store calls of a history, read back into a
  \<open>PlatformKey\<close>.\<close>

definition persisted_row :: "world \<Rightarrow> platform_key \<Rightarrow> platform_key" where
  "persisted_row w row =
     (case h_keys (fold apply_store_call (w_calls w)
             \<lparr>h_keys = [pk_id row \<mapsto> (pk_failure_type row, pk_failure_reason row)],
              h_rapis = Map.empty, h_platforms = Map.empty\<rparr>) (pk_id row) of
        Some (ft, r) \<Rightarrow> row\<lparr>pk_failure_type := ft, pk_failure_reason := r\<rparr>
      | None \<Rightarrow> row)"

lemma apply_store_call_key: "h_keys (apply_store_call c h) i = None \<longleftrightarrow> h_keys h i = None"
  by (cases c) (auto simp: update_row_def)

lemma apply_store_calls_key:
  "h_keys (fold apply_store_call cs h) i = None \<longleftrightarrow> h_keys h i = None"
  by (induction cs arbitrary: h) (simp_all add: apply_store_call_key)

lemma persisted_row_emit:
  "persisted_row (emit (MarkKeyPermanentFailure (pk_id row) r) w) row =
     row\<lparr>pk_failure_type := 2, pk_failure_reason := r\<rparr>"
  "persisted_row (emit (MarkKeyTemporaryFailure (pk_id row) r) w) row =
     row\<lparr>pk_failure_type := 1, pk_failure_reason := r\<rparr>"
  "persisted_row (emit (ClearKeyFailure (pk_id row)) w) row =
     row\<lparr>pk_failure_type := 0, pk_failure_reason := []\<rparr>"
  by (simp_all add: persisted_row_def update_row_def apply_store_calls_key)

text \<open>C8: After a platform-scope failure the row written to the database carries failure type 2 and the
  reason; reconciling the key with that row makes it permanently failed with no recovery time,
  whatever state the failure found it in, at any later instant. A success afterwards writes
  failure type 0, and reconciling with that row leaves the key pickable.\<close>

theorem key_platform_failure_persists:
  fixes now t u :: instant
  assumes "key_inv st" and "m_state (fst st) \<in> {Healthy, Cooling, PlatformFailed}"
    and "k_has_store (fst (snd st))" and "k_id (fst (snd st)) = pk_id row" and "0 < pk_id row"
    and "pk_enabled row"
  shows "let st1 = fst (key_platform_failure r now st);
             row1 = persisted_row (snd (snd st1)) row;
             st2 = key_sync row1 t st1;
             st3 = key_success u st2;
             row3 = persisted_row (snd (snd st3)) row
         in pk_failure_type row1 = 2 \<and> pk_failure_reason row1 = r \<and>
            m_state (fst st2) = PermanentFailed \<and> snd (key_pickable u st2) = (False, zero_time) \<and>
            pk_failure_type row3 = 0 \<and>
            (\<not> past_expiry row u \<longrightarrow> snd (key_pickable u (key_sync row3 u st3)) = (True, zero_time))"
proof -
  obtain m d w where st: "st = (m, d, w)" by (cases st) auto
  have s1: "fst (key_platform_failure r now st) =
      (enter_state PlatformFailed now m, d\<lparr>k_reason := r\<rparr>,
       emit (MarkKeyPermanentFailure (pk_id row) r) w)"
    using assms st by (simp add: key_platform_failure_def op_simps Let_def)
  show ?thesis
    using assms st unfolding s1
    by (simp add: Let_def persisted_row_emit key_sync_simps op_simps key_pickable_def key_success_def
        past_expiry_def)
qed

theorem key_platform_failure_persists_witness:
  "\<exists>st row. let st1 = fst (key_platform_failure ''401'' 8 st) in
     m_state (fst (key_sync (persisted_row (snd (snd st1)) row) 90 st1)) = PermanentFailed"
proof -
  define row where "row = \<lparr>pk_id = 1, pk_platform_id = 1, pk_key_index = 0, pk_token = ''t'',
    pk_label = [], pk_enabled = True, pk_created_at = 1, pk_updated_at = 1, pk_failure_type = 0,
    pk_failure_reason = [], pk_failed_at = None, pk_expires_at = None, pk_is_free = False\<rparr>"
  define st :: key_st where "st = (set_timer 20 (new_machine Cooling 3),
    \<lparr>k_id = 1, k_cfg = \<lparr>cc_default = 10, cc_timeout = 5, cc_max = 120, cc_backoff = True,
      cc_billing = 1800\<rparr>, k_has_store = True, k_reason = []\<rparr>, new_world)"
  have h: "key_inv st" "m_state (fst st) \<in> {Healthy, Cooling, PlatformFailed}"
    "k_has_store (fst (snd st))" "k_id (fst (snd st)) = pk_id row" "0 < pk_id row" "pk_enabled row"
    by (simp_all add: st_def row_def)
  show ?thesis
    using key_platform_failure_persists [OF h, of "''401''" 8 90 91]
    by (intro exI [of _ st] exI [of _ row]) (simp add: Let_def)
qed

text \<open>A platform-scope failure does not stop a running cooldown. Found cooling, the key keeps its old
  timer and goes back to healthy when that is due, without any success or row change; found
  healthy, it has no timer and no passing of time makes it pickable.\<close>

lemma key_platform_failure_keeps_timer:
  fixes now t :: instant
  assumes "key_inv st"
  shows "(m_state (fst st) = Cooling \<longrightarrow> m_wake_at (fst st) \<noteq> zero_time \<longrightarrow> m_wake_at (fst st) \<le> t \<longrightarrow>
            snd (key_pickable t (fst (key_platform_failure r now st))) = (True, zero_time)) \<and>
         (m_state (fst st) = Healthy \<longrightarrow>
            snd (key_pickable t (fst (key_platform_failure r now st))) = (False, zero_time))"
  using assms
  by (cases st) (auto simp: key_platform_failure_def op_simps Let_def key_pickable_def key_advance_def
      advance_def)

lemma key_platform_failure_keeps_timer_witness:
  "\<exists>st. m_state (fst (fst (key_platform_failure ''401'' 8 st))) = PlatformFailed \<and>
     snd (key_pickable 20 (fst (key_platform_failure ''401'' 8 st))) = (True, zero_time)"
proof -
  define st :: key_st where "st = (set_timer 20 (new_machine Cooling 3),
    \<lparr>k_id = 1, k_cfg = \<lparr>cc_default = 10, cc_timeout = 5, cc_max = 120, cc_backoff = True,
      cc_billing = 1800\<rparr>, k_has_store = True, k_reason = []\<rparr>, new_world)"
  have "key_inv st" by (simp add: st_def)
  from key_platform_failure_keeps_timer [OF this, of 20 "''401''" 8] show ?thesis
    by (intro exI [of _ st]) (simp add: st_def key_platform_failure_def op_simps Let_def)
qed

end
