(* ===== verification/Scheduler.thy ===== *)
theory Scheduler
  imports SchedCost RapiEntity KeyEntity PlatformEntity "HOL-Library.Word"
begin

text \<open>
  The scheduler, \<open>internal/scheduler/scheduler.go\<close> and \<open>snapshot.go\<close>: the \<open>Manager\<close> that owns the
  entities, the selection of an endpoint and of a key, the failure marks of the gateway, the
  counters, the recovery loop and the snapshot. Every exported operation holds the manager's
  mutex, so it is one function on \<open>manager\<close>; the instant is the clock it reads. A Go map is an
  association list with distinct keys. Waking the waiters (\<open>cond.Broadcast\<close>) changes no field; the
  wait queue is in \<open>SchedWait\<close>.
\<close>

section \<open>State\<close>

datatype sched_error =
  ErrAllRAPIUnavailable | ErrAllKeysUnavailable | ErrQueueFull | ErrQueueCleared | ErrWaitTimeout

record wait_queue =
  wq_count :: int
  wq_generation :: int

record cursor_key =
  ck_platform_id :: int
  ck_session_id :: string

record key_cursor =
  kc_n :: "64 word"
  kc_last_used :: instant

record manager =
  mg_cfg :: sched_config
  mg_ecfg :: cooldown_config
  mg_has_store :: bool
  mg_rapis :: "(int \<times> rapi_entity) list"
  mg_keys :: "(int \<times> key) list"
  mg_platforms :: "(int \<times> platform_entity) list"
  mg_queues :: "(int \<times> wait_queue) list"
  mg_counters :: "(int \<times> rapi_counters) list"
  mg_cursors :: "(cursor_key \<times> key_cursor) list"
  mg_world :: world

definition session_cursor_ttl :: duration where "session_cursor_ttl = 10 * nsec_minute"
definition max_session_cursors :: nat where "max_session_cursors = 10000"
definition cursor_sweep_threshold :: nat where "cursor_sweep_threshold = 1024"

definition new_manager :: "sched_config \<Rightarrow> bool \<Rightarrow> manager" where
  "new_manager cfg has_store =
     (let cfg = (if sc_default_cooldown cfg \<le> 0
                 then cfg\<lparr>sc_default_cooldown := sc_default_cooldown default_config\<rparr> else cfg);
          cfg = (if sc_max_cooldown cfg \<le> 0
                 then cfg\<lparr>sc_max_cooldown := sc_max_cooldown default_config\<rparr> else cfg);
          cfg = (if sc_queue_max_len cfg \<le> 0
                 then cfg\<lparr>sc_queue_max_len := sc_queue_max_len default_config\<rparr> else cfg);
          cfg = (if sc_key_cursor_scope cfg = []
                 then cfg\<lparr>sc_key_cursor_scope := sc_key_cursor_scope default_config\<rparr> else cfg)
      in \<lparr>mg_cfg = cfg,
          mg_ecfg = \<lparr>cc_default = sc_default_cooldown cfg, cc_timeout = sc_timeout_cooldown cfg,
                     cc_max = sc_max_cooldown cfg, cc_backoff = sc_backoff cfg,
                     cc_billing = sc_billing_cooldown cfg\<rparr>,
          mg_has_store = has_store, mg_rapis = [], mg_keys = [], mg_platforms = [], mg_queues = [],
          mg_counters = [], mg_cursors = [], mg_world = new_world\<rparr>)"

section \<open>Entities\<close>

definition rapi_entity_locked :: "int \<Rightarrow> instant \<Rightarrow> manager \<Rightarrow> rapi_entity" where
  "rapi_entity_locked i now m =
     (case map_of (mg_rapis m) i of
        None \<Rightarrow> new_rapi i (mg_ecfg m) (mg_has_store m) now
      | Some e \<Rightarrow> e)"

definition key_entity_locked :: "int \<Rightarrow> instant \<Rightarrow> manager \<Rightarrow> key" where
  "key_entity_locked i now m =
     (case map_of (mg_keys m) i of
        None \<Rightarrow> new_key i (mg_ecfg m) (mg_has_store m) now
      | Some e \<Rightarrow> e)"

definition platform_entity_locked :: "int \<Rightarrow> bool \<Rightarrow> instant \<Rightarrow> manager \<Rightarrow> platform_entity" where
  "platform_entity_locked i available now m =
     (case map_of (mg_platforms m) i of
        None \<Rightarrow> new_platform i available (mg_has_store m) now
      | Some e \<Rightarrow> e)"

definition rapi_st_of :: "int \<Rightarrow> instant \<Rightarrow> manager \<Rightarrow> rapi_st" where
  "rapi_st_of i now m = (let e = rapi_entity_locked i now m in (fst e, snd e, mg_world m))"

definition put_rapi :: "int \<Rightarrow> rapi_st \<Rightarrow> manager \<Rightarrow> manager" where
  "put_rapi i st m =
     m\<lparr>mg_rapis := AList.update i (fst st, fst (snd st)) (mg_rapis m), mg_world := snd (snd st)\<rparr>"

definition key_st_of :: "int \<Rightarrow> instant \<Rightarrow> manager \<Rightarrow> key_st" where
  "key_st_of i now m = (let e = key_entity_locked i now m in (fst e, snd e, mg_world m))"

definition put_key :: "int \<Rightarrow> key_st \<Rightarrow> manager \<Rightarrow> manager" where
  "put_key i st m =
     m\<lparr>mg_keys := AList.update i (fst st, fst (snd st)) (mg_keys m), mg_world := snd (snd st)\<rparr>"

definition on_rapi :: "int \<Rightarrow> instant \<Rightarrow> (rapi_st \<Rightarrow> rapi_st) \<Rightarrow> manager \<Rightarrow> manager" where
  "on_rapi i now f m = put_rapi i (f (rapi_st_of i now m)) m"

definition on_key :: "int \<Rightarrow> instant \<Rightarrow> (key_st \<Rightarrow> key_st) \<Rightarrow> manager \<Rightarrow> manager" where
  "on_key i now f m = put_key i (f (key_st_of i now m)) m"

definition rapi_recover_at :: "int \<Rightarrow> manager \<Rightarrow> instant" where
  "rapi_recover_at i m = (case map_of (mg_rapis m) i of None \<Rightarrow> zero_time | Some e \<Rightarrow> m_wake_at (fst e))"

definition key_recover_at :: "int \<Rightarrow> manager \<Rightarrow> instant" where
  "key_recover_at i m = (case map_of (mg_keys m) i of None \<Rightarrow> zero_time | Some e \<Rightarrow> m_wake_at (fst e))"

section \<open>Selection\<close>

definition min_non_zero :: "instant \<Rightarrow> instant \<Rightarrow> instant" where
  "min_non_zero a b =
     (if a = zero_time then b else if b = zero_time \<or> a < b then a else b)"

fun pick_loop :: "instant \<Rightarrow> rapi list \<Rightarrow> instant \<Rightarrow> manager
    \<Rightarrow> manager \<times> ((sched_error \<times> instant) + rapi)" where
  "pick_loop now [] next m = (m, Inl (ErrAllRAPIUnavailable, next))"
| "pick_loop now (r # rs) next m =
     (if \<not> ra_enabled r \<or> \<not> ra_available r then pick_loop now rs next m
      else
        (let (st, ok, recover_at) = rapi_pickable now (rapi_st_of (ra_id r) now m);
             m' = put_rapi (ra_id r) st m
         in if \<not> ok
            then pick_loop now rs
                   (if recover_at \<noteq> zero_time then min_non_zero next recover_at else next) m'
            else (m', Inr r)))"

definition pick_available :: "runtime \<Rightarrow> rapi list \<Rightarrow> string \<Rightarrow> instant \<Rightarrow> manager
    \<Rightarrow> manager \<times> ((sched_error \<times> instant) + rapi)" where
  "pick_available rt rapis fmt now m =
     (let sorted_rapis = stable_sort (pick_less rt now (mg_counters m) fmt) rapis;
          m' = m\<lparr>mg_counters := touch_counters rt now rapis (mg_counters m)\<rparr>
      in pick_loop now sorted_rapis zero_time m')"

definition cursor_key_locked :: "int \<Rightarrow> string \<Rightarrow> manager \<Rightarrow> cursor_key" where
  "cursor_key_locked platform session m =
     (if sc_key_cursor_scope (mg_cfg m) = cursor_scope_session \<and> session \<noteq> []
      then \<lparr>ck_platform_id = platform, ck_session_id = session\<rparr>
      else \<lparr>ck_platform_id = platform, ck_session_id = []\<rparr>)"

text \<open>Go sorts the aged cursors with \<open>sort.Slice\<close> over a map's random order; the list order stands
  for it.\<close>

definition evict_cursors :: "instant \<Rightarrow> (cursor_key \<times> key_cursor) list \<Rightarrow> (cursor_key \<times> key_cursor) list" where
  "evict_cursors now cs =
     (if length cs < cursor_sweep_threshold then cs
      else
        (let cutoff = now - session_cursor_ttl;
             cs1 = filter (\<lambda>(k, c). \<not> (ck_session_id k \<noteq> [] \<and> kc_last_used c < cutoff)) cs
         in if length cs1 \<le> max_session_cursors then cs1
            else
              (let stale = filter (\<lambda>(k, c). ck_session_id k \<noteq> []) cs1;
                   aged = stable_sort (\<lambda>a b. kc_last_used (snd a) < kc_last_used (snd b)) stale;
                   dropped = map fst (take (min (length cs1 - max_session_cursors) (length stale)) aged)
               in filter (\<lambda>(k, c). k \<notin> set dropped) cs1)))"

text \<open>The cursor entry is a pointer: once the sweep has dropped a fresh entry, the code goes on using
  the object it holds, which is no longer in the map.\<close>

definition take_cursor :: "cursor_key \<Rightarrow> nat \<Rightarrow> instant \<Rightarrow> (cursor_key \<times> key_cursor) list
    \<Rightarrow> (cursor_key \<times> key_cursor) list \<times> nat" where
  "take_cursor ck len now cs =
     (let fresh = \<lparr>kc_n = 0, kc_last_used = zero_time\<rparr>;
          (cs1, cur) = (case map_of cs ck of
              None \<Rightarrow> (evict_cursors now (AList.update ck fresh cs), fresh)
            | Some c \<Rightarrow> (cs, c));
          rot = unat (kc_n cur mod of_nat len);
          cur' = \<lparr>kc_n = kc_n cur + 1, kc_last_used = now\<rparr>
      in (if map_of cs1 ck = None then cs1 else AList.update ck cur' cs1, rot))"

fun pick_key_loop :: "instant \<Rightarrow> platform_key list \<Rightarrow> instant \<Rightarrow> manager
    \<Rightarrow> manager \<times> ((sched_error \<times> instant) + platform_key)" where
  "pick_key_loop now [] next m = (m, Inl (ErrAllKeysUnavailable, next))"
| "pick_key_loop now (k # ks) next m =
     (let (st, ok, recover_at) =
            key_pickable now (key_sync k now (key_st_of (pk_id k) now m));
          m' = put_key (pk_id k) st m
      in if \<not> ok
         then pick_key_loop now ks
                (if recover_at \<noteq> zero_time then min_non_zero next recover_at else next) m'
         else (m', Inr k))"

definition sort_keys :: "platform_key list \<Rightarrow> platform_key list" where
  "sort_keys keys = stable_sort (\<lambda>a b. pk_key_index a < pk_key_index b) keys"

definition pick_available_key :: "platform_key list \<Rightarrow> string \<Rightarrow> instant \<Rightarrow> manager
    \<Rightarrow> manager \<times> ((sched_error \<times> instant) + platform_key)" where
  "pick_available_key keys session now m =
     (let sorted_keys = sort_keys keys in
      case sorted_keys of
        [] \<Rightarrow> pick_key_loop now [] zero_time m
      | k0 # _ \<Rightarrow>
          (let ck = cursor_key_locked (pk_platform_id k0) session m;
               (cs, rot) = take_cursor ck (length sorted_keys) now (mg_cursors m)
           in pick_key_loop now (drop rot sorted_keys @ take rot sorted_keys) zero_time
                (m\<lparr>mg_cursors := cs\<rparr>)))"

section \<open>Marks\<close>

definition invalidate_rapi :: "int \<Rightarrow> instant \<Rightarrow> manager \<Rightarrow> manager" where
  "invalidate_rapi i now = on_rapi i now (rapi_invalidate now)"

definition revalidate_rapi :: "int \<Rightarrow> instant \<Rightarrow> manager \<Rightarrow> manager" where
  "revalidate_rapi i now = on_rapi i now (rapi_revalidate now)"

definition mark_all_keys_unavailable :: "int \<Rightarrow> bool \<Rightarrow> string \<Rightarrow> instant \<Rightarrow> manager \<Rightarrow> manager \<times> bool" where
  "mark_all_keys_unavailable i hard reason now m =
     (let (st, first) = rapi_all_keys_unavailable hard reason now (rapi_st_of i now m)
      in (put_rapi i st m, first))"

definition align_key :: "instant \<Rightarrow> int \<Rightarrow> manager \<Rightarrow> manager" where
  "align_key at i m =
     (case map_of (mg_keys m) i of
        None \<Rightarrow> m
      | Some e \<Rightarrow> put_key i (key_align_cooldown at (fst e, snd e, mg_world m)) m)"

definition mark_pool_exhausted :: "int \<Rightarrow> int list \<Rightarrow> instant \<Rightarrow> string \<Rightarrow> instant \<Rightarrow> manager
    \<Rightarrow> manager \<times> instant" where
  "mark_pool_exhausted i key_ids pool_recover_at reason now m =
     (if pool_recover_at = zero_time then (m, zero_time)
      else
        (let m1 = fold (align_key pool_recover_at) key_ids m;
             m2 = fst (mark_all_keys_unavailable i False reason now m1);
             m3 = on_rapi i now (rapi_align_cooldown pool_recover_at) m2
         in (m3, pool_recover_at)))"

definition mark_key_failure :: "int \<Rightarrow> instant \<Rightarrow> string \<Rightarrow> bool \<Rightarrow> instant \<Rightarrow> manager
    \<Rightarrow> manager \<times> instant \<times> bool" where
  "mark_key_failure i retry reason is_timeout now m =
     (let (st, changed) = key_session_failure reason retry is_timeout now (key_st_of i now m);
          m' = put_key i st m in (m', key_recover_at i m', changed))"

definition mark_key_temporary_failure :: "int \<Rightarrow> instant \<Rightarrow> string \<Rightarrow> bool \<Rightarrow> instant \<Rightarrow> manager
    \<Rightarrow> manager \<times> instant \<times> bool" where
  "mark_key_temporary_failure i retry reason is_timeout now m =
     (let (st, changed) = key_temporary_failure reason retry is_timeout now (key_st_of i now m);
          m' = put_key i st m in (m', key_recover_at i m', changed))"

definition mark_key_billing_failure :: "int \<Rightarrow> string \<Rightarrow> instant \<Rightarrow> manager
    \<Rightarrow> manager \<times> instant \<times> bool" where
  "mark_key_billing_failure i reason now m =
     (let (st, changed) = key_billing_failure reason now (key_st_of i now m);
          m' = put_key i st m in (m', key_recover_at i m', changed))"

definition mark_key_platform_failure :: "int \<Rightarrow> string \<Rightarrow> instant \<Rightarrow> manager
    \<Rightarrow> manager \<times> instant \<times> bool" where
  "mark_key_platform_failure i reason now m =
     (let (st, changed) = key_platform_failure reason now (key_st_of i now m);
          m' = put_key i st m in (m', key_recover_at i m', changed))"

definition remove_key :: "int \<Rightarrow> manager \<Rightarrow> manager" where
  "remove_key i m = m\<lparr>mg_keys := AList.delete i (mg_keys m)\<rparr>"

definition mark_key_success :: "int \<Rightarrow> instant \<Rightarrow> manager \<Rightarrow> manager" where
  "mark_key_success i now = on_key i now (key_success now)"

definition mark_success :: "int \<Rightarrow> instant \<Rightarrow> manager \<Rightarrow> manager" where
  "mark_success i now m =
     (case map_of (mg_rapis m) i of None \<Rightarrow> m | Some e \<Rightarrow> on_rapi i now (rapi_success now) m)"

definition mark_failure :: "int \<Rightarrow> instant \<Rightarrow> string \<Rightarrow> bool \<Rightarrow> instant \<Rightarrow> manager \<Rightarrow> manager \<times> instant" where
  "mark_failure i retry reason is_timeout now m =
     (let m' = on_rapi i now (rapi_session_failure reason retry is_timeout now) m
      in (m', rapi_recover_at i m'))"

definition mark_platform_failure :: "int \<Rightarrow> string \<Rightarrow> instant \<Rightarrow> manager \<Rightarrow> manager \<times> instant" where
  "mark_platform_failure i reason now m =
     (let m' = on_rapi i now (rapi_platform_failure reason now) m in (m', rapi_recover_at i m'))"

definition record_request :: "runtime \<Rightarrow> int \<Rightarrow> int \<Rightarrow> instant \<Rightarrow> manager \<Rightarrow> manager" where
  "record_request rt i tokens now m =
     (let (cs, c) = counters_for i (mg_counters m)
      in m\<lparr>mg_counters := AList.update i (record_counters rt now tokens c) cs\<rparr>)"

definition platform_entity :: "int \<Rightarrow> bool \<Rightarrow> instant \<Rightarrow> manager \<Rightarrow> manager \<times> platform_entity" where
  "platform_entity i available now m =
     (let e = platform_entity_locked i available now m
      in (m\<lparr>mg_platforms := AList.update i e (mg_platforms m)\<rparr>, e))"

section \<open>Recovery loop\<close>

definition next_recovery :: "instant \<Rightarrow> manager \<Rightarrow> instant" where
  "next_recovery now m =
     (let wakes = map (\<lambda>(i, e). m_wake_at (fst e)) (mg_rapis m) @ map (\<lambda>(i, e). m_wake_at (fst e)) (mg_keys m)
      in fold (\<lambda>wa next. if wa > now then min_non_zero next wa else next) wakes zero_time)"

definition recovery_tick :: "instant \<Rightarrow> manager \<Rightarrow> manager" where
  "recovery_tick now m =
     (let m1 = fold (\<lambda>i. on_rapi i now (rapi_advance now)) (map fst (mg_rapis m)) m
      in fold (\<lambda>i. on_key i now (key_advance now)) (map fst (mg_keys m)) m1)"

section \<open>Snapshot\<close>

record counter_snapshot =
  cs_rapi_id :: int
  cs_minute :: "int \<times> int"
  cs_hour :: "int \<times> int"
  cs_day :: "int \<times> int"

record sched_snapshot =
  ss_rapis :: "rapi_snapshot list"
  ss_keys :: "key_snapshot list"
  ss_counters :: "counter_snapshot list"
  ss_queues :: "(int \<times> int) list"

definition counter_snapshot_of :: "runtime \<Rightarrow> instant \<Rightarrow> int \<times> rapi_counters \<Rightarrow> counter_snapshot" where
  "counter_snapshot_of rt now ic =
     \<lparr>cs_rapi_id = fst ic,
      cs_minute = bucket_view (truncate_time nsec_minute now) (rc_minute (snd ic)),
      cs_hour = bucket_view (truncate_time nsec_hour now) (rc_hour (snd ic)),
      cs_day = bucket_view (rt_day_start rt now) (rc_day (snd ic))\<rparr>"

definition manager_snapshot :: "runtime \<Rightarrow> instant \<Rightarrow> manager \<Rightarrow> sched_snapshot" where
  "manager_snapshot rt now m =
     \<lparr>ss_rapis = map (\<lambda>(i, e). rapi_snapshot_of now e) (mg_rapis m),
      ss_keys = map (\<lambda>(i, e). key_snapshot_of now e) (mg_keys m),
      ss_counters = map (counter_snapshot_of rt now) (mg_counters m),
      ss_queues = map (\<lambda>(i, q). (i, wq_count q)) (filter (\<lambda>(i, q). wq_count q > 0) (mg_queues m))\<rparr>"

lemma min_non_zero_0 [simp]: "min_non_zero a 0 = a" "min_non_zero 0 b = b"
  by (simp_all add: min_non_zero_def)

lemma pick_loop_Cons:
  "pick_loop now (r # rs) next m =
     (let p = rapi_pickable now (rapi_st_of (ra_id r) now m); m' = put_rapi (ra_id r) (fst p) m in
      if \<not> (ra_enabled r \<and> ra_available r) then pick_loop now rs next m
      else if fst (snd p) then (m', Inr r)
      else pick_loop now rs (min_non_zero next (snd (snd p))) m')"
  by (simp add: Let_def split_beta)

lemma pick_key_loop_Cons:
  "pick_key_loop now (k # ks) next m =
     (let p = key_pickable now (key_sync k now (key_st_of (pk_id k) now m));
          m' = put_key (pk_id k) (fst p) m in
      if fst (snd p) then (m', Inr k)
      else pick_key_loop now ks (min_non_zero next (snd (snd p))) m')"
  by (simp add: Let_def split_beta)

section \<open>Histories\<close>

datatype sched_op =
    SPick "rapi list" string instant
  | SPickKey "platform_key list" string instant
  | SInvalidate int instant
  | SRevalidate int instant
  | SAllKeys int bool string instant
  | SPoolExhausted int "int list" instant string instant
  | SKeyFailure int instant string bool instant
  | SKeyTemporary int instant string bool instant
  | SKeyBilling int string instant
  | SKeyPlatform int string instant
  | SRemoveKey int
  | SKeySuccess int instant
  | SSuccess int instant
  | SFailure int instant string bool instant
  | SPlatformFailure int string instant
  | SRecord int int instant
  | SPlatformEntity int bool instant
  | SRecover instant

fun sched_step :: "runtime \<Rightarrow> sched_op \<Rightarrow> manager \<Rightarrow> manager" where
  "sched_step rt (SPick rs fmt now) m = fst (pick_available rt rs fmt now m)"
| "sched_step rt (SPickKey ks s now) m = fst (pick_available_key ks s now m)"
| "sched_step rt (SInvalidate i now) m = invalidate_rapi i now m"
| "sched_step rt (SRevalidate i now) m = revalidate_rapi i now m"
| "sched_step rt (SAllKeys i h r now) m = fst (mark_all_keys_unavailable i h r now m)"
| "sched_step rt (SPoolExhausted i ks at r now) m = fst (mark_pool_exhausted i ks at r now m)"
| "sched_step rt (SKeyFailure i at r t now) m = fst (mark_key_failure i at r t now m)"
| "sched_step rt (SKeyTemporary i at r t now) m = fst (mark_key_temporary_failure i at r t now m)"
| "sched_step rt (SKeyBilling i r now) m = fst (mark_key_billing_failure i r now m)"
| "sched_step rt (SKeyPlatform i r now) m = fst (mark_key_platform_failure i r now m)"
| "sched_step rt (SRemoveKey i) m = remove_key i m"
| "sched_step rt (SKeySuccess i now) m = mark_key_success i now m"
| "sched_step rt (SSuccess i now) m = mark_success i now m"
| "sched_step rt (SFailure i at r t now) m = fst (mark_failure i at r t now m)"
| "sched_step rt (SPlatformFailure i r now) m = fst (mark_platform_failure i r now m)"
| "sched_step rt (SRecord i n now) m = record_request rt i n now m"
| "sched_step rt (SPlatformEntity i a now) m = fst (platform_entity i a now m)"
| "sched_step rt (SRecover now) m = recovery_tick now m"

definition sched_run :: "runtime \<Rightarrow> sched_op list \<Rightarrow> manager \<Rightarrow> manager" where
  "sched_run rt ops m = fold (sched_step rt) ops m"

text \<open>What an entity has to keep for the manager to keep it. \<open>frozen\<close> is a set of endpoints that exist
  and that nobody revalidates.\<close>

locale entity_invariant =
  fixes R :: "int \<Rightarrow> rapi_entity \<Rightarrow> bool"
    and K :: "int \<Rightarrow> key \<Rightarrow> bool"
    and frozen :: "int set"
    and cfg :: cooldown_config
    and has_store :: bool
  assumes R_new: "i \<notin> frozen \<Longrightarrow> R i (new_rapi i cfg has_store now)"
    and R_step: "R i (m, d) \<Longrightarrow> (i \<in> frozen \<Longrightarrow> \<forall>t. op \<noteq> RRevalidate t) \<Longrightarrow>
      rapi_step op (m, d, w) = (m', d', w') \<Longrightarrow> R i (m', d')"
    and K_new: "K i (new_key i cfg has_store now)"
    and K_step: "K i (c, e) \<Longrightarrow> key_step kop (c, e, w) = (c', e', w') \<Longrightarrow> K i (c', e')"
begin

definition holds :: "manager \<Rightarrow> bool" where
  "holds m \<longleftrightarrow>
     mg_ecfg m = cfg \<and> mg_has_store m = has_store \<and> \<not> w_panicked (mg_world m) \<and>
     (\<forall>i \<in> frozen. map_of (mg_rapis m) i \<noteq> None) \<and>
     (\<forall>i e. map_of (mg_rapis m) i = Some e \<longrightarrow> R i e) \<and>
     (\<forall>i e. map_of (mg_keys m) i = Some e \<longrightarrow> K i e)"

lemma holdsD:
  assumes "holds m"
  shows "map_of (mg_rapis m) i = Some e \<Longrightarrow> R i e" "map_of (mg_keys m) i = Some k \<Longrightarrow> K i k"
    "i \<in> frozen \<Longrightarrow> map_of (mg_rapis m) i \<noteq> None" "\<not> w_panicked (mg_world m)"
    "mg_ecfg m = cfg" "mg_has_store m = has_store"
  using assms unfolding holds_def by blast+

lemma rapi_locked: "holds m \<Longrightarrow> R i (rapi_entity_locked i now m)"
  using holdsD(1,3) [of m i] holdsD(5,6) [of m] R_new [of i now]
  by (cases "map_of (mg_rapis m) i"; cases "i \<in> frozen") (simp_all add: rapi_entity_locked_def)

lemma key_locked: "holds m \<Longrightarrow> K i (key_entity_locked i now m)"
  using holdsD(2) [of m i] holdsD(5,6) [of m] K_new [of i now]
  by (cases "map_of (mg_keys m) i") (simp_all add: key_entity_locked_def)

lemma put_rapi_step:
  assumes "holds m" and "i \<in> frozen \<Longrightarrow> \<forall>t. op \<noteq> RRevalidate t"
  shows "holds (put_rapi i (rapi_step op (rapi_st_of i now m)) m)"
proof -
  obtain c d where e: "rapi_entity_locked i now m = (c, d)" by fastforce
  obtain c' d' w' where s: "rapi_step op (c, d, mg_world m) = (c', d', w')" by (metis surj_pair)
  have "R i (c', d')" using R_step [OF _ assms(2) s] rapi_locked [OF assms(1), of i now] e by simp
  moreover have "\<not> w_panicked w'"
    using rapi_step_no_panic [of "(c, d, mg_world m)" op] holdsD(4) [OF assms(1)] s by simp
  ultimately show ?thesis
    using assms(1) unfolding holds_def put_rapi_def rapi_st_of_def Let_def e
    by (simp add: s del: split_paired_All)
qed

lemma K_run:
  "K i (c, e) \<Longrightarrow> \<not> w_panicked w \<Longrightarrow> key_run ops (c, e, w) = (c', e', w') \<Longrightarrow>
   K i (c', e') \<and> \<not> w_panicked w'"
proof (induction ops arbitrary: c e w)
  case (Cons op ops)
  obtain c1 e1 w1 where s: "key_step op (c, e, w) = (c1, e1, w1)" by (metis surj_pair)
  with Cons.prems K_step key_step_no_panic [of "(c, e, w)" op] have "K i (c1, e1)" "\<not> w_panicked w1"
    by auto
  with Cons.IH Cons.prems(3) s show ?case by (simp add: key_run_def)
qed (simp add: key_run_def)

lemma put_key_run:
  assumes "holds m"
  shows "holds (put_key i (key_run ops (key_st_of i now m)) m)"
proof -
  obtain c d where e: "key_entity_locked i now m = (c, d)" by fastforce
  obtain c' d' w' where s: "key_run ops (c, d, mg_world m) = (c', d', w')" by (metis surj_pair)
  have "K i (c', d') \<and> \<not> w_panicked w'"
    using K_run [OF _ _ s] key_locked [OF assms, of i now] holdsD(4) [OF assms] e by simp
  then show ?thesis
    using assms(1) unfolding holds_def put_key_def key_st_of_def Let_def e
    by (simp add: s del: split_paired_All)
qed

lemmas rapi_steps = put_rapi_step [where op = "RSuccess t" for t, simplified]
  put_rapi_step [where op = "RSession r at b t" for r at b t, simplified]
  put_rapi_step [where op = "RPlatform r t" for r t, simplified]
  put_rapi_step [where op = "RAllKeys h r t" for h r t, simplified]
  put_rapi_step [where op = "RInvalidate t" for t, simplified]
  put_rapi_step [where op = "RAdvance t" for t, simplified]
  put_rapi_step [where op = "RAlign at" for at, simplified]
  put_rapi_step [where op = "RPickable t" for t, simplified]

lemmas key_run1 = put_key_run [where ops = "[op]" for op, unfolded key_run_def fold_simps]

lemmas key_steps = key_run1 [where op = "KSuccess t" for t, simplified]
  key_run1 [where op = "KSession r at b t" for r at b t, simplified]
  key_run1 [where op = "KTemporary r at b t" for r at b t, simplified]
  key_run1 [where op = "KBilling r t" for r t, simplified]
  key_run1 [where op = "KPlatform r t" for r t, simplified]
  key_run1 [where op = "KAdvance t" for t, simplified]

lemma key_pick_step:
  "holds m \<Longrightarrow> holds (put_key i (fst (key_pickable now (key_sync k now (key_st_of i t m)))) m)"
  using put_key_run [of m i "[KSync k now, KPickable now]" t] by (simp add: key_run_def)

lemma holds_frame [simp]:
  "holds (m\<lparr>mg_counters := a\<rparr>) = holds m" "holds (m\<lparr>mg_cursors := b\<rparr>) = holds m"
  "holds (m\<lparr>mg_platforms := c\<rparr>) = holds m"
  by (simp_all add: holds_def)

lemma pick_loop_holds: "holds m \<Longrightarrow> holds (fst (pick_loop now rs next m))"
  by (induction rs arbitrary: "next" m)
    (simp_all add: Let_def split_beta rapi_steps)

lemma pick_key_loop_holds: "holds m \<Longrightarrow> holds (fst (pick_key_loop now ks next m))"
  by (induction ks arbitrary: "next" m)
    (simp_all add: Let_def split_beta key_pick_step)

lemma align_key_holds: "holds m \<Longrightarrow> holds (align_key at i m)"
proof (cases "map_of (mg_keys m) i")
  case (Some e)
  assume "holds m"
  moreover from Some have "key_st_of i t m = (fst e, snd e, mg_world m)" for t
    by (simp add: key_st_of_def key_entity_locked_def)
  ultimately show ?thesis
    using Some put_key_run [of m i "[KAlign at]"] by (simp add: align_key_def key_run_def)
qed (simp add: align_key_def)

lemma fold_holds: "(\<And>x m. holds m \<Longrightarrow> holds (f x m)) \<Longrightarrow> holds m \<Longrightarrow> holds (fold f xs m)"
  by (induction xs arbitrary: m) simp_all

lemma step_holds:
  assumes "holds m" and "\<And>i t. op = SRevalidate i t \<Longrightarrow> i \<notin> frozen"
  shows "holds (sched_step rt op m)"
proof (cases op)
  case (SPick rs fmt now)
  then show ?thesis using assms by (simp add: pick_available_def Let_def pick_loop_holds)
next
  case (SPickKey ks s now)
  then show ?thesis using assms
    by (simp add: pick_available_key_def Let_def split_beta pick_key_loop_holds split: list.split)
next
  case (SRevalidate i t)
  then show ?thesis using assms put_rapi_step [of m i "RRevalidate t" t]
    by (simp add: revalidate_rapi_def on_rapi_def)
next
  case (SPoolExhausted i ks at r now)
  have "holds (fold (align_key at) ks m)" by (rule fold_holds) (use assms align_key_holds in auto)
  with SPoolExhausted assms show ?thesis
    by (simp add: mark_pool_exhausted_def mark_all_keys_unavailable_def Let_def split_beta on_rapi_def
        rapi_steps)
next
  case (SRecover now)
  have "holds (fold (\<lambda>i. on_rapi i now (rapi_advance now)) xs m)" for xs
    by (rule fold_holds) (use assms in \<open>auto simp: on_rapi_def rapi_steps\<close>)
  moreover have "holds (fold (\<lambda>i. on_key i now (key_advance now)) xs m')" if "holds m'" for xs m'
    by (rule fold_holds) (use that in \<open>auto simp: on_key_def key_steps\<close>)
  ultimately show ?thesis using SRecover by (simp add: recovery_tick_def Let_def)
next
  case (SRemoveKey i)
  then show ?thesis using assms
    by (simp add: remove_key_def holds_def del: split_paired_All)
next
  case (SPlatformEntity i a now)
  then show ?thesis using assms by (simp add: platform_entity_def Let_def)
next
  case (SRecord i n now)
  then show ?thesis using assms by (simp add: record_request_def split_beta)
next
  case (SSuccess i now)
  then show ?thesis using assms
    by (simp add: mark_success_def on_rapi_def rapi_steps split: option.split)
qed (use assms in \<open>simp_all add: invalidate_rapi_def on_rapi_def on_key_def rapi_steps key_steps
    mark_all_keys_unavailable_def mark_key_failure_def mark_key_temporary_failure_def
    mark_key_billing_failure_def mark_key_platform_failure_def mark_key_success_def
    mark_failure_def mark_platform_failure_def split_beta Let_def\<close>)

lemma run_holds:
  assumes "holds m" and "\<forall>i \<in> frozen. \<forall>t. SRevalidate i t \<notin> set ops"
  shows "holds (sched_run rt ops m)"
  using assms
proof (induction ops arbitrary: m)
  case (Cons op ops)
  then have "holds (sched_step rt op m)" by (intro step_holds) auto
  with Cons show ?case by (simp add: sched_run_def)
qed (simp add: sched_run_def)

lemma pick_loop_picked:
  "holds m \<Longrightarrow> snd (pick_loop now rs next m) = Inr r \<Longrightarrow>
   \<exists>m'. holds m' \<and> fst (snd (rapi_pickable now (rapi_st_of (ra_id r) now m')))"
proof (induction rs arbitrary: "next" m)
  case (Cons a rs)
  then have h: "holds (put_rapi (ra_id a) (fst (rapi_pickable now (rapi_st_of (ra_id a) now m))) m)"
    by (simp add: rapi_steps)
  show ?case using Cons.prems Cons.IH [OF Cons.prems(1)] Cons.IH [OF h]
    by (auto simp: pick_loop_Cons Let_def simp del: pick_loop.simps split: if_splits)
qed simp

lemma pick_key_loop_picked:
  "holds m \<Longrightarrow> snd (pick_key_loop now ks next m) = Inr k \<Longrightarrow>
   \<exists>m'. holds m' \<and> fst (snd (key_pickable now (key_sync k now (key_st_of (pk_id k) now m'))))"
proof (induction ks arbitrary: "next" m)
  case (Cons a ks)
  then have h: "holds (put_key (pk_id a)
      (fst (key_pickable now (key_sync a now (key_st_of (pk_id a) now m)))) m)"
    by (simp add: key_pick_step)
  show ?case using Cons.prems Cons.IH [OF h]
    by (auto simp: pick_key_loop_Cons Let_def simp del: pick_key_loop.simps split: if_splits)
qed simp

end

lemma rapi_step_fields:
  "e_id (fst (snd (rapi_step op st))) = e_id (fst (snd st)) \<and>
   e_cfg (fst (snd (rapi_step op st))) = e_cfg (fst (snd st))"
  by (cases st; cases op)
    (auto simp: rapi_op_defs op_simps rapi_soft_effect rapi_session_effect_def Let_def)

lemma key_step_fields:
  "k_id (fst (snd (key_step op st))) = k_id (fst (snd st)) \<and>
   k_cfg (fst (snd (key_step op st))) = k_cfg (fst (snd st))"
  by (cases st; cases op) (auto simp: key_op_defs op_simps Let_def)

interpretation sched_safe: entity_invariant
  "\<lambda>i e. e_id (snd e) = i \<and> e_cfg (snd e) = cfg \<and> rapi_inv (fst e, snd e, new_world)"
  "\<lambda>i k. k_id (snd k) = i \<and> k_cfg (snd k) = cfg \<and> key_inv (fst k, snd k, new_world)"
  "{}" cfg has_store for cfg has_store
proof unfold_locales
  fix i m d op w m' d' w'
  assume "e_id (snd (m, d)) = i \<and> e_cfg (snd (m, d)) = cfg \<and> rapi_inv (fst (m, d), snd (m, d), new_world)"
    and s: "rapi_step op (m, d, w) = (m', d', w')"
  then have "rapi_inv (m, d, w)" "e_id d = i" "e_cfg d = cfg" by simp_all
  with rapi_step_inv [of "(m, d, w)" op] rapi_step_fields [of op "(m, d, w)"] s
  show "e_id (snd (m', d')) = i \<and> e_cfg (snd (m', d')) = cfg \<and>
      rapi_inv (fst (m', d'), snd (m', d'), new_world)" by simp
next
  fix i m d op w m' d' w'
  assume "k_id (snd (m, d)) = i \<and> k_cfg (snd (m, d)) = cfg \<and> key_inv (fst (m, d), snd (m, d), new_world)"
    and s: "key_step op (m, d, w) = (m', d', w')"
  then have "key_inv (m, d, w)" "k_id d = i" "k_cfg d = cfg" by simp_all
  with key_step_inv [of "(m, d, w)" op] key_step_fields [of op "(m, d, w)"] s
  show "k_id (snd (m', d')) = i \<and> k_cfg (snd (m', d')) = cfg \<and>
      key_inv (fst (m', d'), snd (m', d'), new_world)" by simp
qed (simp_all add: new_rapi_def new_key_def)

interpretation sched_frozen: entity_invariant
  "\<lambda>i e. i \<in> frozen \<longrightarrow> m_state (fst e) = Invalidated" "\<lambda>_ _. True" frozen cfg has_store
  for frozen cfg has_store
proof unfold_locales
  fix i m d op w m' d' w'
  assume "i \<in> frozen \<longrightarrow> m_state (fst (m, d)) = Invalidated"
    and "i \<in> frozen \<Longrightarrow> \<forall>t. op \<noteq> RRevalidate t" and "rapi_step op (m, d, w) = (m', d', w')"
  with rapi_step_frozen [of "(m, d, w)" op] show "i \<in> frozen \<longrightarrow> m_state (fst (m', d')) = Invalidated"
    by auto
qed simp_all

definition manager_inv :: "manager \<Rightarrow> bool" where
  "manager_inv m \<longleftrightarrow> sched_safe.holds (mg_ecfg m) (mg_has_store m) m"

lemma new_manager_inv: "manager_inv (new_manager cfg has_store)"
  unfolding manager_inv_def sched_safe.holds_def by (simp add: new_manager_def Let_def)

lemma manager_invD:
  assumes "manager_inv m"
  shows "map_of (mg_rapis m) i = Some (c, d) \<Longrightarrow>
      rapi_inv (c, d, w) \<and> e_id d = i \<and> e_cfg d = mg_ecfg m"
    and "map_of (mg_keys m) i = Some (c', d') \<Longrightarrow>
      key_inv (c', d', w) \<and> k_id d' = i \<and> k_cfg d' = mg_ecfg m"
    and "\<not> w_panicked (mg_world m)"
  using sched_safe.holdsD [OF assms [unfolded manager_inv_def]] by fastforce+

text \<open>C1: Whatever the gateway and the recovery loop do with the scheduler, in any order and at any
  times, every endpoint and key entity it holds belongs to its own id, runs with the scheduler's
  configuration and keeps the invariant of its machine, and no effect ever panics under the
  manager's mutex.\<close>

theorem sched_run_safe: "manager_inv (sched_run rt ops (new_manager cfg has_store))"
proof -
  let ?m = "new_manager cfg has_store"
  have "sched_safe.holds (mg_ecfg ?m) (mg_has_store ?m) ?m"
    unfolding sched_safe.holds_def by (simp add: new_manager_def Let_def)
  then have h: "sched_safe.holds (mg_ecfg ?m) (mg_has_store ?m) (sched_run rt ops ?m)"
    by (rule sched_safe.run_holds) simp
  then show ?thesis
    unfolding manager_inv_def using sched_safe.holdsD(5,6) [OF h] by simp
qed

text \<open>C3: An invalidated endpoint is never selected again, whatever happens to the scheduler: successes,
  failures, cooldown alignments, recovery ticks and any stale row snapshot that still calls it
  enabled and available leave it out until it is revalidated.\<close>

theorem invalidated_never_picked:
  assumes "map_of (mg_rapis m) i = Some e" and "m_state (fst e) = Invalidated"
    and "\<not> w_panicked (mg_world m)" and "\<forall>t. SRevalidate i t \<notin> set ops"
  shows "\<forall>r. snd (pick_available rt rs fmt now (sched_run rt ops m)) = Inr r \<longrightarrow> ra_id r \<noteq> i"
proof (intro allI impI)
  fix r assume r: "snd (pick_available rt rs fmt now (sched_run rt ops m)) = Inr r"
  have "sched_frozen.holds {i} (mg_ecfg m) (mg_has_store m) m"
    unfolding sched_frozen.holds_def using assms(1-3) by (simp del: split_paired_All)
  then have h: "sched_frozen.holds {i} (mg_ecfg m) (mg_has_store m) (sched_run rt ops m)"
    by (rule sched_frozen.run_holds) (use assms(4) in simp)
  let ?m = "sched_run rt ops m"
  have "sched_frozen.holds {i} (mg_ecfg m) (mg_has_store m)
      (?m\<lparr>mg_counters := touch_counters rt now rs (mg_counters ?m)\<rparr>)"
    using h sched_frozen.holds_frame(1) by blast
  from sched_frozen.pick_loop_picked [OF this, of now _ zero_time r] r
  obtain m' where m': "sched_frozen.holds {i} (mg_ecfg m) (mg_has_store m) m'"
    "fst (snd (rapi_pickable now (rapi_st_of (ra_id r) now m')))"
    unfolding pick_available_def Let_def by blast
  show "ra_id r \<noteq> i"
  proof
    assume "ra_id r = i"
    with sched_frozen.rapi_locked [OF m'(1), of i now] m'(2) show False
      by (simp add: rapi_st_of_def Let_def rapi_pickable_def)
  qed
qed

theorem invalidated_never_picked_witness:
  "\<forall>rt. \<exists>m rs. rs \<noteq> [] \<and>
     7 \<notin> ra_id ` {r. snd (pick_available rt rs [] 50 (sched_run rt [SSuccess 7 5, SRecover 40] m)) = Inr r}"
proof
  fix rt
  define m where "m = (new_manager default_config False)\<lparr>mg_rapis :=
    [(7, (set_timer 20 (new_machine Invalidated 3), snd (new_rapi 7
      \<lparr>cc_default = 10, cc_timeout = 5, cc_max = 120, cc_backoff = True, cc_billing = 1800\<rparr> False 1)))]\<rparr>"
  have h: "map_of (mg_rapis m) 7 = Some (snd (hd (mg_rapis m)))"
    "m_state (fst (snd (hd (mg_rapis m)))) = Invalidated" "\<not> w_panicked (mg_world m)"
    "\<forall>t. SRevalidate 7 t \<notin> set [SSuccess 7 5, SRecover 40]"
    by (simp_all add: m_def new_manager_def Let_def)
  show "\<exists>m rs. rs \<noteq> [] \<and>
      7 \<notin> ra_id ` {r. snd (pick_available rt rs [] 50 (sched_run rt [SSuccess 7 5, SRecover 40] m)) = Inr r}"
    using invalidated_never_picked [OF h, of rt "[zero_rapi\<lparr>ra_id := 7, ra_enabled := True\<rparr>]" "[]" 50]
    by (intro exI [of _ m] exI [of _ "[zero_rapi\<lparr>ra_id := 7, ra_enabled := True\<rparr>]"]) auto
qed

end
