(* ===== verification/SchedPick.thy ===== *)
theory SchedPick
  imports Scheduler
begin

text \<open>
  What the selection functions of the scheduler promise: \<open>PickAvailable\<close> returns the best endpoint
  that can serve, or the earliest recovery; \<open>PickAvailableKey\<close> sweeps the keys of a pool round
  robin, and fails exactly when no key can serve; what the pool-standard cooldown does; and what
  happens to the cursor of a new session once many sessions are known.
\<close>

section \<open>Earliest recovery\<close>

definition earliest :: "instant list \<Rightarrow> instant" where
  "earliest ts = fold (\<lambda>t next. min_non_zero next t) ts zero_time"

lemma min_non_zero_assoc:
  "min_non_zero (min_non_zero a b) c = min_non_zero a (min_non_zero b c)"
  by (auto simp: min_non_zero_def)

lemma fold_min_non_zero:
  "fold (\<lambda>t next. min_non_zero next t) ts a = min_non_zero a (earliest ts)"
proof (induction ts arbitrary: a)
  case (Cons t ts)
  from Cons [of "min_non_zero a t"] Cons [of t] show ?case
    by (simp add: earliest_def min_non_zero_assoc)
qed (simp add: earliest_def)

lemma earliest_Cons: "earliest (t # ts) = min_non_zero t (earliest ts)"
  using fold_min_non_zero [of ts t] by (simp add: earliest_def)

text \<open>The earliest of the non-zero times, or zero when there is none.\<close>

lemma earliest_spec:
  "(earliest ts = 0 \<longleftrightarrow> (\<forall>t \<in> set ts. t = 0)) \<and>
   (earliest ts \<noteq> 0 \<longrightarrow> earliest ts \<in> set ts \<and> (\<forall>t \<in> set ts. t \<noteq> 0 \<longrightarrow> earliest ts \<le> t))"
proof (induction ts)
  case Nil
  then show ?case by (simp add: earliest_def)
next
  case (Cons t ts)
  then show ?case
    by (cases "t = 0"; cases "earliest ts = 0"; cases "t < earliest ts")
      (fastforce simp: earliest_Cons min_non_zero_def)+
qed

section \<open>Endpoints\<close>

abbreviation rapi_verdict :: "instant \<Rightarrow> manager \<Rightarrow> rapi \<Rightarrow> bool \<times> instant" where
  "rapi_verdict now m r \<equiv> snd (rapi_pickable now (rapi_st_of (ra_id r) now m))"

definition rapi_candidate :: "rapi \<Rightarrow> bool" where
  "rapi_candidate r \<longleftrightarrow> ra_enabled r \<and> ra_available r"

lemma rapi_refused_unchanged:
  assumes "rapi_inv st" and "\<not> fst (snd (rapi_pickable now st))"
  shows "fst (rapi_pickable now st) = st"
  using assms by (cases st)
    (auto simp: rapi_pickable_def Let_def rapi_advance_def advance_def op_simps split: if_splits)

lemma rapi_locked_inv: "manager_inv m \<Longrightarrow> rapi_inv (rapi_st_of i now m)"
proof (cases "map_of (mg_rapis m) i")
  case (Some e)
  assume "manager_inv m"
  from manager_invD(1) [OF this, of i "fst e" "snd e" "mg_world m"] Some show ?thesis
    by (simp add: rapi_st_of_def rapi_entity_locked_def Let_def)
qed (simp add: rapi_st_of_def rapi_entity_locked_def new_rapi_def Let_def)

lemma new_rapi_pickable: "snd (rapi_pickable now (fst (new_rapi i c h t), snd (new_rapi i c h t), w)) = (True, 0)"
  by (simp add: rapi_pickable_def new_rapi_def)

text \<open>A refused endpoint is left as it was, so the loop sees the same endpoints all the way.\<close>

definition same_rapis :: "manager \<Rightarrow> manager \<Rightarrow> bool" where
  "same_rapis m m' \<longleftrightarrow> map_of (mg_rapis m') = map_of (mg_rapis m) \<and> mg_world m' = mg_world m \<and>
     mg_ecfg m' = mg_ecfg m \<and> mg_has_store m' = mg_has_store m"

lemma same_rapis_st: "same_rapis m m' \<Longrightarrow> rapi_st_of i now m' = rapi_st_of i now m"
  by (auto simp: same_rapis_def rapi_st_of_def rapi_entity_locked_def split: option.split)

lemma same_rapis_refused:
  assumes inv: "manager_inv m" and s: "same_rapis m m'"
    and no: "\<not> fst (snd (rapi_pickable now (rapi_st_of i now m)))"
  shows "same_rapis m (put_rapi i (fst (rapi_pickable now (rapi_st_of i now m))) m')"
proof -
  obtain e where "map_of (mg_rapis m) i = Some e"
    using no new_rapi_pickable
    by (cases "map_of (mg_rapis m) i") (auto simp: rapi_st_of_def rapi_entity_locked_def Let_def)
  with s show ?thesis
    unfolding rapi_refused_unchanged [OF rapi_locked_inv [OF inv] no]
    by (auto simp: same_rapis_def put_rapi_def rapi_st_of_def rapi_entity_locked_def Let_def)
qed

lemma pick_loop_result:
  assumes inv: "manager_inv m" and "same_rapis m m'"
  shows "snd (pick_loop now rs next m') =
    (case find (\<lambda>r. rapi_candidate r \<and> fst (rapi_verdict now m r)) rs of
       Some r \<Rightarrow> Inr r
     | None \<Rightarrow> Inl (ErrAllRAPIUnavailable, min_non_zero next
         (earliest (map (\<lambda>r. snd (rapi_verdict now m r)) (filter rapi_candidate rs)))))"
  using assms(2)
proof (induction rs arbitrary: "next" m')
  case Nil
  then show ?case by (simp add: earliest_def)
next
  case (Cons r rs)
  note st = same_rapis_st [OF Cons.prems]
  show ?case
  proof (cases "rapi_candidate r \<and> \<not> fst (rapi_verdict now m r)")
    case True
    then have "same_rapis m (put_rapi (ra_id r) (fst (rapi_pickable now (rapi_st_of (ra_id r) now m))) m')"
      using same_rapis_refused [OF inv Cons.prems] by simp
    from Cons.IH [OF this] True show ?thesis
      by (simp add: pick_loop_Cons [folded rapi_candidate_def] st Let_def earliest_Cons
          min_non_zero_assoc del: pick_loop.simps split: option.split)
  next
    case False
    then show ?thesis using Cons.IH [OF Cons.prems]
      by (auto simp: pick_loop_Cons [folded rapi_candidate_def] st Let_def simp del: pick_loop.simps
          split: option.split)
  qed
qed

text \<open>C2: \<open>PickAvailable\<close> returns an endpoint of the given list that is enabled, available and whose entity can
  serve now, and none that could serve comes before it in the order by current cost, then the
  user's order index, then native support of the client's format. It fails exactly when none
  can serve, and then reports the earliest recovery of the enabled ones, or none.\<close>

theorem pick_available_best:
  assumes "manager_inv m"
  shows "case snd (pick_available rt rapis fmt now m) of
      Inr r \<Rightarrow> r \<in> set rapis \<and> rapi_candidate r \<and> fst (rapi_verdict now m r) \<and>
        (\<forall>r' \<in> set rapis. rapi_candidate r' \<and> fst (rapi_verdict now m r') \<longrightarrow>
           \<not> pick_less rt now (mg_counters m) fmt r' r)
    | Inl (err, next) \<Rightarrow> err = ErrAllRAPIUnavailable \<and>
        (\<forall>r \<in> set rapis. rapi_candidate r \<longrightarrow> \<not> fst (rapi_verdict now m r)) \<and>
        (\<exists>ts. set ts = (\<lambda>r. snd (rapi_verdict now m r)) ` {r \<in> set rapis. rapi_candidate r} \<and>
           next = earliest ts)"
proof -
  let ?lt = "pick_less rt now (mg_counters m) fmt"
  let ?s = "stable_sort ?lt rapis"
  let ?P = "\<lambda>r. rapi_candidate r \<and> fst (rapi_verdict now m r)"
  have r: "snd (pick_available rt rapis fmt now m) = (case find ?P ?s of Some r \<Rightarrow> Inr r
     | None \<Rightarrow> Inl (ErrAllRAPIUnavailable,
         earliest (map (\<lambda>r. snd (rapi_verdict now m r)) (filter rapi_candidate ?s))))"
    using pick_loop_result [OF assms, of "m\<lparr>mg_counters := touch_counters rt now rapis (mg_counters m)\<rparr>"]
    by (simp add: pick_available_def Let_def same_rapis_def split: option.split)
  show ?thesis
  proof (cases "find ?P ?s")
    case None
    then have "\<forall>r \<in> set rapis. \<not> ?P r" by (auto simp: find_None_iff)
    with None r show ?thesis
      by (auto intro!: exI [of _ "map (\<lambda>r. snd (rapi_verdict now m r)) (filter rapi_candidate ?s)"])
  next
    case (Some x)
    then obtain i where i: "i < length ?s" "?s ! i = x" "?P x" "\<forall>j < i. \<not> ?P (?s ! j)"
      by (auto simp: find_Some_iff)
    have "\<not> ?lt y x" if y: "y \<in> set rapis" "?P y" for y
    proof -
      obtain j where j: "j < length ?s" "?s ! j = y" using y by (metis in_set_conv_nth set_stable_sort)
      with i y have "i \<le> j" by (metis leI)
      with i j show ?thesis
        using sorted_wrt_nth_less [OF pick_order.sort_ordered, of i j] pick_order.irrefl
        by (cases "i = j") auto
    qed
    moreover have "x \<in> set rapis" using i by (metis nth_mem set_stable_sort)
    ultimately show ?thesis using r Some i by simp
  qed
qed

theorem pick_available_best_witness:
  "\<forall>rt. \<exists>m a b. snd (pick_available rt [a, b] [] 5 m) = Inr b \<and> ra_id a = 1 \<and> ra_id b = 2"
proof
  fix rt
  define m where "m = new_manager default_config False"
  define a where "a = zero_rapi\<lparr>ra_id := 1, ra_enabled := True, ra_available := True, ra_base_cost := 7\<rparr>"
  define b where "b = zero_rapi\<lparr>ra_id := 2, ra_enabled := True, ra_available := True, ra_base_cost := 3\<rparr>"
  have inv: "manager_inv m" unfolding m_def by (rule new_manager_inv)
  have none: "map_of (mg_rapis m) i = None" for i by (simp add: m_def new_manager_def Let_def)
  have ok: "fst (rapi_verdict 5 m r)" for r
    by (simp add: rapi_st_of_def rapi_entity_locked_def none new_rapi_pickable Let_def)
  have cand: "rapi_candidate a" "rapi_candidate b"
    by (simp_all add: rapi_candidate_def a_def b_def)
  have lt: "pick_less rt 5 (mg_counters m) [] b a"
    by (simp add: pick_less_def compute_cost_def rule_cost_def counters_for_def a_def b_def zero_rapi_def
        m_def new_manager_def threshold_exceeded_def Let_def split_beta)
  note best = pick_available_best [OF inv, where rt = rt and rapis = "[a, b]" and fmt = "[]" and now = 5]
  obtain r where r: "snd (pick_available rt [a, b] [] 5 m) = Inr r"
    using best ok cand by (cases "snd (pick_available rt [a, b] [] 5 m)") auto
  have "r \<noteq> a" using best unfolding r using lt ok cand by auto
  with best r have "snd (pick_available rt [a, b] [] 5 m) = Inr b" by simp
  then show "\<exists>m a b. snd (pick_available rt [a, b] [] 5 m) = Inr b \<and> ra_id a = 1 \<and> ra_id b = 2"
    by (intro exI [of _ m] exI [of _ a] exI [of _ b]) (simp add: a_def b_def)
qed

section \<open>Keys\<close>

text \<open>The answer for one key: its entity is reconciled with the row, then asked.\<close>

abbreviation key_verdict :: "instant \<Rightarrow> manager \<Rightarrow> platform_key \<Rightarrow> bool \<times> instant" where
  "key_verdict now m k \<equiv> snd (key_pickable now (key_sync k now (key_st_of (pk_id k) now m)))"

lemma key_verdict_world:
  "snd (key_pickable now (key_sync k now (c, d, w))) = snd (key_pickable now (key_sync k now (c, d, w')))"
  by (simp add: key_sync_simps op_simps key_pickable_def Let_def key_advance_def advance_def)

lemma key_st_of_put_key:
  "i \<noteq> j \<Longrightarrow> key_st_of j now (put_key i st m) =
     (fst (key_entity_locked j now m), snd (key_entity_locked j now m), snd (snd st))"
  by (simp add: key_st_of_def key_entity_locked_def put_key_def Let_def split: option.split)

lemma key_verdict_put_key:
  "pk_id k \<noteq> i \<Longrightarrow> key_verdict now (put_key i st m) k = key_verdict now m k"
  unfolding key_st_of_put_key [OF not_sym] by (simp add: key_st_of_def Let_def) (rule key_verdict_world)

lemma pick_key_loop_result:
  assumes "distinct (map pk_id ks)"
  shows "snd (pick_key_loop now ks next m) =
    (case find (\<lambda>k. fst (key_verdict now m k)) ks of
       Some k \<Rightarrow> Inr k
     | None \<Rightarrow> Inl (ErrAllKeysUnavailable, min_non_zero next
         (earliest (map (\<lambda>k. snd (key_verdict now m k)) ks))))"
  using assms
proof (induction ks arbitrary: "next" m)
  case Nil
  then show ?case by (simp add: earliest_def)
next
  case (Cons k ks)
  let ?m = "put_key (pk_id k) (fst (key_pickable now (key_sync k now (key_st_of (pk_id k) now m)))) m"
  have same: "key_verdict now ?m k' = key_verdict now m k'" if "k' \<in> set ks" for k'
    using that Cons.prems by (intro key_verdict_put_key) (simp, metis image_eqI)
  have f: "find (\<lambda>k. fst (key_verdict now ?m k)) ks = find (\<lambda>k. fst (key_verdict now m k)) ks"
    by (rule find_cong) (simp_all add: same)
  have e: "map (\<lambda>k. snd (key_verdict now ?m k)) ks = map (\<lambda>k. snd (key_verdict now m k)) ks"
    by (simp add: same)
  have "distinct (map pk_id ks)" using Cons.prems by simp
  note IH = Cons.IH [OF this, of _ ?m, unfolded f e]
  show ?case unfolding pick_key_loop_Cons Let_def
    by (simp add: IH earliest_Cons min_non_zero_assoc split: option.split)
qed

lemma key_locked_inv: "manager_inv m \<Longrightarrow> key_inv (key_st_of i now m)"
proof (cases "map_of (mg_keys m) i")
  case (Some e)
  assume "manager_inv m"
  from manager_invD(2) [OF this, of i "fst e" "snd e" "mg_world m"] Some show ?thesis
    by (simp add: key_st_of_def key_entity_locked_def Let_def)
qed (simp add: key_st_of_def key_entity_locked_def new_key_def Let_def)

lemma key_verdict_usable:
  "manager_inv m \<Longrightarrow> fst (key_verdict now m k) \<Longrightarrow> key_row_usable k now"
  using key_sync_dead_iff [OF key_locked_inv, of m k now "pk_id k" now]
    key_pickable_dead [of "key_sync k now (key_st_of (pk_id k) now m)" now] by force

lemma set_sort_keys [simp]: "set (sort_keys ks) = set ks" "length (sort_keys ks) = length ks"
  "distinct (map pk_id (sort_keys ks)) = distinct (map pk_id ks)"
  by (simp_all add: sort_keys_def)

lemma take_cursor_rot: "0 < len \<Longrightarrow> len < 2 ^ 64 \<Longrightarrow> snd (take_cursor ck len now cs) < len"
proof -
  assume l: "0 < len" "len < 2 ^ 64"
  have "unat (n mod of_nat len) = unat n mod len" for n :: "64 word"
    using l by (simp add: unat_mod_distrib unat_of_nat take_bit_nat_eq_self)
  with l show ?thesis by (simp add: take_cursor_def Let_def split_beta)
qed

lemma pick_key_result:
  assumes "distinct (map pk_id ks)"
  obtains rot where "snd (pick_available_key ks s now m) =
    (case find (\<lambda>k. fst (key_verdict now m k)) (drop rot (sort_keys ks) @ take rot (sort_keys ks)) of
       Some k \<Rightarrow> Inr k
     | None \<Rightarrow> Inl (ErrAllKeysUnavailable, earliest (map (\<lambda>k. snd (key_verdict now m k))
         (drop rot (sort_keys ks) @ take rot (sort_keys ks)))))"
proof (cases "sort_keys ks")
  case Nil
  then show thesis using that [of 0] by (simp add: pick_available_key_def earliest_def)
next
  case (Cons k0 rest)
  define cr where "cr = take_cursor (cursor_key_locked (pk_platform_id k0) s m)
    (length (sort_keys ks)) now (mg_cursors m)"
  let ?ks = "drop (snd cr) (sort_keys ks) @ take (snd cr) (sort_keys ks)"
  have "mset ?ks = mset (sort_keys ks)"
    by (metis append_take_drop_id mset_append union_commute)
  then have "distinct (map pk_id ?ks)"
    using assms by (metis mset_eq_imp_distinct_iff mset_map set_sort_keys(3))
  note res = pick_key_loop_result [OF this, of now 0 "m\<lparr>mg_cursors := fst cr\<rparr>"]
  have v: "key_st_of i t (m\<lparr>mg_cursors := c\<rparr>) = key_st_of i t m" for i t c
    by (simp add: key_st_of_def key_entity_locked_def split: option.split)
  have "snd (pick_available_key ks s now m) = snd (pick_key_loop now ?ks 0 (m\<lparr>mg_cursors := fst cr\<rparr>))"
    using Cons by (simp add: pick_available_key_def Let_def split_beta cr_def)
  with res show thesis by (intro that [of "snd cr"]) (simp add: v split: option.split)
qed

text \<open>C4: \<open>PickAvailableKey\<close> returns a key of the pool whose row is usable and whose entity, reconciled with that
  row, can serve now; it fails exactly when no key of the pool can serve, and then reports the
  earliest recovery time of the pool, or none.\<close>

theorem pick_key_sound_complete:
  assumes "manager_inv m" and "distinct (map pk_id ks)"
  shows "case snd (pick_available_key ks s now m) of
      Inr k \<Rightarrow> k \<in> set ks \<and> key_row_usable k now \<and> fst (key_verdict now m k)
    | Inl (err, next) \<Rightarrow> err = ErrAllKeysUnavailable \<and> (\<forall>k \<in> set ks. \<not> fst (key_verdict now m k)) \<and>
        (\<exists>ts. set ts = (\<lambda>k. snd (key_verdict now m k)) ` set ks \<and> next = earliest ts)"
proof -
  obtain rot where r: "snd (pick_available_key ks s now m) =
    (case find (\<lambda>k. fst (key_verdict now m k)) (drop rot (sort_keys ks) @ take rot (sort_keys ks)) of
       Some k \<Rightarrow> Inr k
     | None \<Rightarrow> Inl (ErrAllKeysUnavailable, earliest (map (\<lambda>k. snd (key_verdict now m k))
         (drop rot (sort_keys ks) @ take rot (sort_keys ks)))))"
    using pick_key_result [OF assms(2)] .
  let ?ks = "drop rot (sort_keys ks) @ take rot (sort_keys ks)"
  have set: "set ?ks = set ks"
    by (metis append_take_drop_id set_append sup_commute set_sort_keys(1))
  show ?thesis
  proof (cases "find (\<lambda>k. fst (key_verdict now m k)) ?ks")
    case None
    then have "\<forall>k \<in> set ks. \<not> fst (key_verdict now m k)"
      unfolding find_None_iff set by blast
    moreover have "set (map (\<lambda>k. snd (key_verdict now m k)) ?ks) = (\<lambda>k. snd (key_verdict now m k)) ` set ks"
      by (simp only: set_map set)
    ultimately show ?thesis unfolding r None option.case sum.case prod.case by blast
  next
    case (Some k)
    then obtain i where "i < length ?ks" "fst (key_verdict now m (?ks ! i))" "k = ?ks ! i"
      unfolding find_Some_iff by blast
    then have k: "k \<in> set ?ks" "fst (key_verdict now m k)" by (simp_all only: nth_mem)
    from k(1) set have "k \<in> set ks" by blast
    with k(2) key_verdict_usable [OF assms(1) k(2)] show ?thesis
      unfolding r Some option.case sum.case by blast
  qed
qed

theorem pick_key_sound_complete_witness:
  "\<exists>m k. snd (pick_available_key [k] ''s'' 5 m) = Inl (ErrAllKeysUnavailable, 0) \<and>
     \<not> key_row_usable k 5"
proof -
  define m where "m = new_manager default_config False"
  define k where "k = zero_key\<lparr>pk_id := 1, pk_enabled := True, pk_failure_type := 2\<rparr>"
  have inv: "manager_inv m" unfolding m_def by (rule new_manager_inv)
  have "key_st_of 1 5 m = (fst (new_key 1 (mg_ecfg m) False 5), snd (new_key 1 (mg_ecfg m) False 5), new_world)"
    by (simp add: key_st_of_def key_entity_locked_def m_def new_manager_def Let_def)
  then have "key_verdict 5 m k = (False, 0)"
    by (simp add: k_def key_sync_simps op_simps new_key_def key_pickable_def)
  moreover have "distinct (map pk_id [k])" by simp
  from pick_key_sound_complete [OF inv this, where s = "''s''" and now = 5] calculation earliest_spec
  have "snd (pick_available_key [k] ''s'' 5 m) = Inl (ErrAllKeysUnavailable, 0)"
    by (cases "snd (pick_available_key [k] ''s'' 5 m)") (fastforce split: prod.splits)+
  moreover have "\<not> key_row_usable k 5" by (simp add: k_def key_row_usable_def)
  ultimately show ?thesis by blast
qed

section \<open>Round robin\<close>

fun pick_keys :: "platform_key list \<Rightarrow> string \<Rightarrow> instant list \<Rightarrow> manager
    \<Rightarrow> ((sched_error \<times> instant) + platform_key) list" where
  "pick_keys ks s [] m = []"
| "pick_keys ks s (now # ts) m =
     (let p = pick_available_key ks s now m in snd p # pick_keys ks s ts (fst p))"

definition pool_cursor :: "platform_key list \<Rightarrow> string \<Rightarrow> manager \<Rightarrow> cursor_key" where
  "pool_cursor ks s m = cursor_key_locked (pk_platform_id (hd (sort_keys ks))) s m"

definition cursor_pos :: "platform_key list \<Rightarrow> string \<Rightarrow> manager \<Rightarrow> nat" where
  "cursor_pos ks s m =
     (case map_of (mg_cursors m) (pool_cursor ks s m) of None \<Rightarrow> 0 | Some c \<Rightarrow> unat (kc_n c))"

definition cursor_kept :: "platform_key list \<Rightarrow> string \<Rightarrow> manager \<Rightarrow> bool" where
  "cursor_kept ks s m \<longleftrightarrow> map_of (mg_cursors m) (pool_cursor ks s m) \<noteq> None \<or>
     length (mg_cursors m) + 1 < cursor_sweep_threshold"

definition pool_healthy :: "platform_key list \<Rightarrow> manager \<Rightarrow> bool" where
  "pool_healthy ks m \<longleftrightarrow> (\<forall>k \<in> set ks. case map_of (mg_keys m) (pk_id k) of
     None \<Rightarrow> True | Some e \<Rightarrow> m_state (fst e) = Healthy)"

lemma length_alist_update: "map_of xs k = None \<Longrightarrow> length (AList.update k v xs) = Suc (length xs)"
  by (induction xs) auto

lemma take_cursor_kept:
  fixes len :: nat
  assumes "0 < len" "len < 2 ^ 64"
    and "map_of cs ck \<noteq> None \<or> length cs + 1 < cursor_sweep_threshold"
  defines "n \<equiv> (case map_of cs ck of None \<Rightarrow> 0 | Some c \<Rightarrow> kc_n c)"
  shows "snd (take_cursor ck len now cs) = unat n mod len"
    and "map_of (fst (take_cursor ck len now cs)) ck = Some \<lparr>kc_n = n + 1, kc_last_used = now\<rparr>"
proof -
  have u: "unat (k mod of_nat len) = unat k mod len" for k :: "64 word"
    using assms by (simp add: unat_mod_distrib unat_of_nat take_bit_nat_eq_self)
  have e: "evict_cursors now (AList.update ck f cs) = AList.update ck f cs" if "map_of cs ck = None" for f
    using assms(3) that by (simp add: evict_cursors_def length_alist_update)
  show "snd (take_cursor ck len now cs) = unat n mod len"
    using u by (simp add: take_cursor_def Let_def n_def split: option.split)
  show "map_of (fst (take_cursor ck len now cs)) ck = Some \<lparr>kc_n = n + 1, kc_last_used = now\<rparr>"
    by (auto simp: take_cursor_def Let_def n_def e split: option.split)
qed

lemma healthy_pick:
  assumes "pool_healthy (k # ks) m" and "key_row_usable k now"
  shows "snd (pick_key_loop now (k # ks) next m) = Inr k"
    and "pool_healthy ks' m \<Longrightarrow> pool_healthy ks' (fst (pick_key_loop now (k # ks) next m))"
    and "mg_cfg (fst (pick_key_loop now (k # ks) next m)) = mg_cfg m"
    and "mg_cursors (fst (pick_key_loop now (k # ks) next m)) = mg_cursors m"
proof -
  obtain c d where e: "key_entity_locked (pk_id k) now m = (c, d)" by fastforce
  then have "m_state c = Healthy"
    using assms(1) by (auto simp: pool_healthy_def key_entity_locked_def new_key_def split: option.splits)
  with assms(2) have p: "key_pickable now (key_sync k now (c, d, mg_world m)) = ((c, d, mg_world m), True, 0)"
    by (simp add: key_sync_simps key_pickable_def key_row_usable_def split: if_splits)
  have l: "pick_key_loop now (k # ks) next m = (put_key (pk_id k) (c, d, mg_world m) m, Inr k)"
    by (simp add: key_st_of_def e p Let_def)
  show "snd (pick_key_loop now (k # ks) next m) = Inr k"
    "mg_cfg (fst (pick_key_loop now (k # ks) next m)) = mg_cfg m"
    "mg_cursors (fst (pick_key_loop now (k # ks) next m)) = mg_cursors m"
    unfolding l by (simp_all add: put_key_def)
  show "pool_healthy ks' m \<Longrightarrow> pool_healthy ks' (fst (pick_key_loop now (k # ks) next m))"
    unfolding l using \<open>m_state c = Healthy\<close> by (simp add: pool_healthy_def put_key_def)
qed

lemma healthy_pick_key:
  assumes "ks \<noteq> []" "length ks < 2 ^ 64" "pool_healthy ks m" "cursor_kept ks s m"
    and "\<forall>k \<in> set ks. key_row_usable k now" and "cursor_pos ks s m + 1 < 2 ^ 64"
  shows "snd (pick_available_key ks s now m) = Inr (sort_keys ks ! (cursor_pos ks s m mod length ks))"
    and "pool_healthy ks (fst (pick_available_key ks s now m))"
    and "cursor_kept ks s (fst (pick_available_key ks s now m))"
    and "cursor_pos ks s (fst (pick_available_key ks s now m)) = cursor_pos ks s m + 1"
proof -
  obtain k0 rest where ks: "sort_keys ks = k0 # rest"
    using assms(1) set_sort_keys(2) [of ks] by (cases "sort_keys ks") auto
  let ?ck = "pool_cursor ks s m"
  let ?tc = "take_cursor ?ck (length ks) now (mg_cursors m)"
  let ?m = "m\<lparr>mg_cursors := fst ?tc\<rparr>"
  define rot where "rot = cursor_pos ks s m mod length ks"
  note kept = assms(4) [unfolded cursor_kept_def]
  have "snd ?tc = rot"
    using take_cursor_kept(1) [OF _ assms(2) kept] assms(1)
    by (auto simp: rot_def cursor_pos_def split: option.split)
  then have pick: "pick_available_key ks s now m =
      pick_key_loop now (drop rot (sort_keys ks) @ take rot (sort_keys ks)) 0 ?m"
    using set_sort_keys(2) [of ks] ks
    by (simp add: pick_available_key_def pool_cursor_def Let_def split_beta)
  have "rot < length (sort_keys ks)" using assms(1) by (simp add: rot_def)
  then have d: "drop rot (sort_keys ks) @ take rot (sort_keys ks) =
      (sort_keys ks ! rot) # (drop (Suc rot) (sort_keys ks) @ take rot (sort_keys ks))" (is "_ = _ # ?rest")
    by (simp add: Cons_nth_drop_Suc [symmetric])
  have mem: "sort_keys ks ! rot \<in> set ks"
    using \<open>rot < length (sort_keys ks)\<close> nth_mem set_sort_keys(1) by blast
  have sub: "set (sort_keys ks ! rot # ?rest) = set ks"
    unfolding d [symmetric] by (metis append_take_drop_id set_append sup_commute set_sort_keys(1))
  have "pool_healthy (sort_keys ks ! rot # ?rest) ?m"
    using assms(3) unfolding pool_healthy_def sub by simp
  note h = healthy_pick [OF this bspec [OF assms(5) mem]]
  show "snd (pick_available_key ks s now m) = Inr (sort_keys ks ! (cursor_pos ks s m mod length ks))"
    unfolding pick d using h(1) by (simp add: rot_def)
  show "pool_healthy ks (fst (pick_available_key ks s now m))"
    unfolding pick d using assms(3) by (intro h(2)) (simp add: pool_healthy_def)
  have cur: "map_of (mg_cursors (fst (pick_available_key ks s now m))) ?ck =
      Some \<lparr>kc_n = (case map_of (mg_cursors m) ?ck of None \<Rightarrow> 0 | Some c \<Rightarrow> kc_n c) + 1, kc_last_used = now\<rparr>"
    unfolding pick d h(4) using take_cursor_kept(2) [OF _ assms(2) kept] assms(1) by simp
  have "mg_cfg (fst (pick_available_key ks s now m)) = mg_cfg m"
    unfolding pick d h(3) by simp
  then have ck: "pool_cursor ks s (fst (pick_available_key ks s now m)) = ?ck"
    by (simp add: pool_cursor_def cursor_key_locked_def)
  show "cursor_kept ks s (fst (pick_available_key ks s now m))"
    unfolding cursor_kept_def ck cur by simp
  have "unat (n + 1) = unat n + 1" if "unat n + 1 < 2 ^ 64" for n :: "64 word"
    using that by (simp add: unat_word_ariths)
  then show "cursor_pos ks s (fst (pick_available_key ks s now m)) = cursor_pos ks s m + 1"
    using assms(6) unfolding cursor_pos_def ck cur by (simp split: option.splits)
qed

lemma map_upt_shift:
  "map (\<lambda>j. f ((p + j) mod n)) [0..<Suc l] = f (p mod n) # map (\<lambda>j. f (Suc (p + j) mod n)) [0..<l]"
  by (simp add: map_upt_Suc del: upt_Suc)

text \<open>C5: With every key of a pool healthy and usable throughout, consecutive requests on one cursor (of the
  session, or of the platform) sweep the pool round robin in the operator's order: the \<open>j\<close>-th request
  gets the key at the cursor's position plus \<open>j\<close>, modulo the pool's size. The cursor has to be one the table
  keeps: it is already there, or the table is below the 1024 entries at which a new cursor triggers the sweep (above
  them \<open>new_session_cursor_lost\<close> holds), and its position stays below \<open>2^64\<close>.\<close>

theorem pick_keys_round_robin:
  assumes "ks \<noteq> []" "length ks < 2 ^ 64" "pool_healthy ks m" "cursor_kept ks s m"
    and "\<forall>now \<in> set ts. \<forall>k \<in> set ks. key_row_usable k now"
    and "cursor_pos ks s m + length ts < 2 ^ 64"
  shows "pick_keys ks s ts m =
    map (\<lambda>j. Inr (sort_keys ks ! ((cursor_pos ks s m + j) mod length ks))) [0..<length ts]"
  using assms(3-)
proof (induction ts arbitrary: m)
  case (Cons now ts)
  note h = healthy_pick_key [OF assms(1,2) Cons.prems(1,2), of now]
  with h Cons.IH [of "fst (pick_available_key ks s now m)"] Cons.prems show ?case
    by (simp add: Let_def map_upt_shift [where f = "\<lambda>i. Inr (sort_keys ks ! i)"] del: upt_Suc)
qed simp

theorem pick_keys_round_robin_witness:
  "\<exists>m a b. pick_keys [a, b] ''s'' [3, 4, 5] m = [Inr b, Inr a, Inr b] \<and> pk_key_index b < pk_key_index a"
proof -
  define m where "m = new_manager default_config False"
  define a where "a = zero_key\<lparr>pk_id := 1, pk_enabled := True, pk_key_index := 2\<rparr>"
  define b where "b = zero_key\<lparr>pk_id := 2, pk_enabled := True, pk_key_index := 1\<rparr>"
  have usable: "\<forall>now \<in> set [3, 4, 5]. \<forall>k \<in> set [a, b]. key_row_usable k now"
    by (simp add: a_def b_def key_row_usable_def past_expiry_def zero_key_def)
  have h: "pool_healthy [a, b] m" "cursor_kept [a, b] ''s'' m"
    by (simp_all add: pool_healthy_def cursor_kept_def m_def new_manager_def Let_def
        cursor_sweep_threshold_def)
  have p: "cursor_pos [a, b] ''s'' m = 0" by (simp add: cursor_pos_def m_def new_manager_def Let_def)
  have "sort_keys [a, b] = [b, a]" by (simp add: sort_keys_def stable_sort_def a_def b_def)
  moreover have "[0..<length [3, 4, 5 :: instant]] = [0, 1, 2]" by (simp add: upt_conv_Cons)
  ultimately have "pick_keys [a, b] ''s'' [3, 4, 5] m = [Inr b, Inr a, Inr b]"
    using pick_keys_round_robin [OF _ _ h usable] p by simp
  then show ?thesis by (intro exI [of _ m] exI [of _ a] exI [of _ b]) (simp add: a_def b_def)
qed

section \<open>A new session among many\<close>

text \<open>Once 1023 session or platform cursors are known, all used within the last ten minutes, the cursor of a new
  session is dropped by the sweep that its own creation triggers (it is inserted with a zero
  last-used time): the table is left as it was and the rotation is 0. So every request of every
  new session starts at the first key of the pool, until older cursors lapse.\<close>

lemma new_session_cursor_lost:
  assumes "map_of cs ck = None" and "ck_session_id ck \<noteq> []" and "session_cursor_ttl < now"
    and "1023 \<le> length cs" and "length cs \<le> max_session_cursors"
    and "\<forall>c \<in> set cs. now - session_cursor_ttl \<le> kc_last_used (snd c)"
  shows "take_cursor ck len now cs = (cs, 0)"
proof -
  let ?f = "\<lparr>kc_n = 0, kc_last_used = zero_time\<rparr>"
  have upd: "AList.update ck f cs = cs @ [(ck, f)]" if "map_of cs ck = None" for f and cs :: "(cursor_key \<times> key_cursor) list"
    using that by (induction cs) auto
  have "filter (\<lambda>(k, c). \<not> (ck_session_id k \<noteq> [] \<and> kc_last_used c < now - session_cursor_ttl)) cs = cs"
    using assms(6) by (auto simp: filter_id_conv split: prod.splits)
  then have e: "evict_cursors now (AList.update ck ?f cs) = cs"
    using assms by (simp add: evict_cursors_def upd cursor_sweep_threshold_def Let_def)
  show ?thesis by (simp add: take_cursor_def assms(1) e Let_def)
qed

lemma new_session_cursor_lost_witness:
  "\<exists>cs ck. length cs = 1023 \<and> take_cursor ck 5 (700 * nsec_second) cs = (cs, 0) \<and> ck_session_id ck = ''new''"
proof -
  define cs where "cs = map (\<lambda>i. (\<lparr>ck_platform_id = int i, ck_session_id = []\<rparr>,
    \<lparr>kc_n = 3, kc_last_used = 650 * nsec_second\<rparr>)) [0..<1023]"
  define ck where "ck = \<lparr>ck_platform_id = 1, ck_session_id = ''new''\<rparr>"
  have "map_of cs ck = None" by (auto simp: cs_def ck_def map_of_eq_None_iff)
  from new_session_cursor_lost [OF this, of "700 * nsec_second" 5] show ?thesis
    by (intro exI [of _ cs] exI [of _ ck])
      (simp add: ck_def cs_def session_cursor_ttl_def max_session_cursors_def)
qed

section \<open>The pool-standard cooldown\<close>

lemma mg_align_key [simp]:
  "mg_rapis (align_key at i m) = mg_rapis m" "mg_ecfg (align_key at i m) = mg_ecfg m"
  "mg_has_store (align_key at i m) = mg_has_store m" "mg_world (align_key at i m) = mg_world m"
  by (auto simp: align_key_def put_key_def key_align_cooldown_def split: option.split)

lemma mg_align_keys [simp]:
  "mg_rapis (fold (align_key at) is m) = mg_rapis m" "mg_ecfg (fold (align_key at) is m) = mg_ecfg m"
  "mg_has_store (fold (align_key at) is m) = mg_has_store m"
  "mg_world (fold (align_key at) is m) = mg_world m"
  by (induction "is" arbitrary: m) simp_all

lemma rapi_soft_live:
  "m_state c \<in> {Healthy, Cooling} \<Longrightarrow>
   rapi_all_keys_unavailable False r now (c, d, w) =
     ((set_timer (now + rapi_cooldown (e_cfg d) (e_consecutive d + 1) False) (enter_state Cooling now c),
      d\<lparr>e_last_failure := now, e_reason := r, e_consecutive := e_consecutive d + 1\<rparr>, w), False)"
  by (auto simp: rapi_all_keys_unavailable_def op_simps rapi_soft_effect rapi_session_effect_def Let_def)

text \<open>\<open>MarkPoolExhausted\<close> puts the endpoint's recovery at the pool's earliest recovery; but a soft
  \<open>MarkAllKeysUnavailable\<close> for the same request, which the gateway's handlers make next,
  replaces it by a short backoff from now and counts a second failure.\<close>

lemma pool_standard_overwritten:
  assumes "map_of (mg_rapis m) i = Some (c, d)" and "m_state c \<in> {Healthy, Cooling}" and "at \<noteq> 0"
  shows "let m1 = fst (mark_pool_exhausted i ks at r now m);
             m2 = fst (mark_all_keys_unavailable i False r' now' m1)
         in rapi_recover_at i m1 = at \<and>
            rapi_recover_at i m2 = now' + rapi_cooldown (e_cfg d) (e_consecutive d + 2) False"
proof -
  let ?d1 = "d\<lparr>e_last_failure := now, e_reason := r, e_consecutive := e_consecutive d + 1\<rparr>"
  let ?c1 = "set_timer (now + rapi_cooldown (e_cfg d) (e_consecutive d + 1) False) (enter_state Cooling now c)"
  have st: "rapi_st_of i t (fold (align_key at) ks m) = (c, d, mg_world m)" for t
    using assms(1) by (simp add: rapi_st_of_def rapi_entity_locked_def Let_def)
  define m1 where "m1 = fst (mark_pool_exhausted i ks at r now m)"
  have m1: "map_of (mg_rapis m1) i = Some (set_timer at ?c1, ?d1)"
    using assms(3) unfolding m1_def mark_pool_exhausted_def mark_all_keys_unavailable_def Let_def st
      rapi_soft_live [OF assms(2)]
    by (simp add: on_rapi_def put_rapi_def rapi_st_of_def rapi_entity_locked_def rapi_align_cooldown_def Let_def)
  then have "rapi_st_of i now' m1 = (set_timer at ?c1, ?d1, mg_world m1)"
    by (simp add: rapi_st_of_def rapi_entity_locked_def Let_def)
  with m1 show ?thesis
    unfolding m1_def [symmetric]
    by (simp add: Let_def rapi_recover_at_def mark_all_keys_unavailable_def rapi_soft_live put_rapi_def
        split_beta ac_simps)
qed

lemma pool_standard_overwritten_witness:
  "\<exists>m. let m1 = fst (mark_pool_exhausted 7 [] (600 * nsec_second) ''429'' 0 m);
        m2 = fst (mark_all_keys_unavailable 7 False ''429'' 0 m1)
    in rapi_recover_at 7 m1 = 600 * nsec_second \<and> rapi_recover_at 7 m2 = 20 * nsec_second"
proof -
  define e where "e = new_rapi 7 (mg_ecfg (new_manager default_config False)) False 0"
  define m where "m = (new_manager default_config False)\<lparr>mg_rapis := [(7, e)]\<rparr>"
  have "map_of (mg_rapis m) 7 = Some (fst e, snd e)" "m_state (fst e) \<in> {Healthy, Cooling}"
    by (simp_all add: m_def e_def new_rapi_def)
  from pool_standard_overwritten [OF this, of "600 * nsec_second" "[]" "''429''" 0 "''429''" 0] show ?thesis
    by (intro exI [of _ m])
      (simp add: e_def new_rapi_def new_manager_def default_config_def rapi_cooldown_def Let_def wrap64_def)
qed

end
