(* ===== verification/SchedWait.thy ===== *)
theory SchedWait
  imports Scheduler
begin

text \<open>
  The wait queues of the scheduler (\<open>Wait\<close>, \<open>queueForLocked\<close>, \<open>clearQueueLocked\<close>). A call to \<open>Wait\<close>
  enters under the mutex, then checks its conditions each time it is woken and either returns or
  waits again, releasing the mutex; so a system of callers is the manager with the callers that
  are inside, and its steps are one entry or one check of one caller. What the context says, and
  the clock, are inputs of a check. Which caller is woken, and when, is left open.
\<close>

datatype ctx_state = CtxOk | CtxCanceled | CtxDeadline

datatype wait_result = WaitOk | WaitErr sched_error | WaitCtxErr ctx_state

record waiter =
  wt_lapi :: int
  wt_generation :: int
  wt_until :: instant

definition queue_for :: "int \<Rightarrow> manager \<Rightarrow> wait_queue" where
  "queue_for i m =
     (case map_of (mg_queues m) i of None \<Rightarrow> \<lparr>wq_count = 0, wq_generation = 0\<rparr> | Some q \<Rightarrow> q)"

definition put_queue :: "int \<Rightarrow> wait_queue \<Rightarrow> manager \<Rightarrow> manager" where
  "put_queue i q m = m\<lparr>mg_queues := AList.update i q (mg_queues m)\<rparr>"

definition wait_enter :: "int \<Rightarrow> instant \<Rightarrow> manager \<Rightarrow> manager \<times> (sched_error + waiter)" where
  "wait_enter i until m =
     (let q = queue_for i m in
      if wq_count q \<ge> sc_queue_max_len (mg_cfg m) then (put_queue i q m, Inl ErrQueueFull)
      else (put_queue i (q\<lparr>wq_count := wq_count q + 1\<rparr>) m,
            Inr \<lparr>wt_lapi = i, wt_generation = wq_generation q, wt_until = until\<rparr>))"

definition clear_queue :: "int \<Rightarrow> manager \<Rightarrow> manager" where
  "clear_queue i m = (let q = queue_for i m in put_queue i (q\<lparr>wq_generation := wq_generation q + 1\<rparr>) m)"

definition wait_leave :: "int \<Rightarrow> manager \<Rightarrow> manager" where
  "wait_leave i m = (let q = queue_for i m in put_queue i (q\<lparr>wq_count := wq_count q - 1\<rparr>) m)"

text \<open>One turn of the loop: the result when the call returns (its deferred decrement included).\<close>

definition wait_check :: "waiter \<Rightarrow> ctx_state \<Rightarrow> instant \<Rightarrow> manager \<Rightarrow> manager \<times> wait_result option" where
  "wait_check w ctx now m =
     (let i = wt_lapi w; timed_by_lapi = sc_request_max_wait (mg_cfg m) > 0 in
      if wq_generation (queue_for i m) \<noteq> wt_generation w
      then (wait_leave i m, Some (WaitErr ErrQueueCleared))
      else if ctx \<noteq> CtxOk
      then (if timed_by_lapi \<and> ctx = CtxDeadline
            then (wait_leave i (clear_queue i m), Some (WaitErr ErrWaitTimeout))
            else (wait_leave i m, Some (WaitCtxErr ctx)))
      else if wt_until w = zero_time \<or> \<not> wt_until w > now then (wait_leave i m, Some WaitOk)
      else (m, None))"

datatype wait_label =
    Enter int instant "sched_error + waiter"
  | Check waiter ctx_state instant "wait_result option"

inductive wait_step :: "manager \<times> waiter list \<Rightarrow> wait_label \<Rightarrow> manager \<times> waiter list \<Rightarrow> bool" where
  enter_full: "wait_enter i u m = (m', Inl e) \<Longrightarrow> wait_step (m, ws) (Enter i u (Inl e)) (m', ws)"
| enter_queue: "wait_enter i u m = (m', Inr w) \<Longrightarrow> wait_step (m, ws) (Enter i u (Inr w)) (m', w # ws)"
| check_return: "w \<in> set ws \<Longrightarrow> wait_check w ctx now m = (m', Some r) \<Longrightarrow>
    wait_step (m, ws) (Check w ctx now (Some r)) (m', remove1 w ws)"
| check_wait: "w \<in> set ws \<Longrightarrow> wait_check w ctx now m = (m', None) \<Longrightarrow>
    wait_step (m, ws) (Check w ctx now None) (m', ws)"

inductive wait_reach :: "manager \<times> waiter list \<Rightarrow> manager \<times> waiter list \<Rightarrow> bool" for s where
  here: "wait_reach s s"
| more: "wait_reach s t \<Longrightarrow> wait_step t l u \<Longrightarrow> wait_reach s u"

inductive_cases wait_step_cases: "wait_step (m, ws) l (m', ws')"

definition waiting_for :: "int \<Rightarrow> waiter list \<Rightarrow> nat" where
  "waiting_for i ws = length (filter (\<lambda>w. wt_lapi w = i) ws)"

definition wait_inv :: "manager \<times> waiter list \<Rightarrow> bool" where
  "wait_inv s \<longleftrightarrow>
     (\<forall>i. wq_count (queue_for i (fst s)) = int (waiting_for i (snd s))) \<and>
     (\<forall>i. int (waiting_for i (snd s)) \<le> max 0 (sc_queue_max_len (mg_cfg (fst s)))) \<and>
     (\<forall>w \<in> set (snd s). wt_generation w \<le> wq_generation (queue_for (wt_lapi w) (fst s)))"

lemma queue_put [simp]:
  "queue_for j (put_queue i q m) = (if j = i then q else queue_for j m)"
  "mg_cfg (put_queue i q m) = mg_cfg m"
  by (simp_all add: queue_for_def put_queue_def)

lemma waiting_Cons [simp]:
  "waiting_for i (w # ws) = (if wt_lapi w = i then 1 else 0) + waiting_for i ws"
  by (simp add: waiting_for_def)

lemma waiting_remove:
  "w \<in> set ws \<Longrightarrow> int (waiting_for i (remove1 w ws)) =
     int (waiting_for i ws) - (if wt_lapi w = i then 1 else 0)"
  by (induction ws) (auto simp: waiting_for_def)

lemma queue_leave [simp]:
  "queue_for j (wait_leave i m) =
     (if j = i then (queue_for i m)\<lparr>wq_count := wq_count (queue_for i m) - 1\<rparr> else queue_for j m)"
  "mg_cfg (wait_leave i m) = mg_cfg m"
  by (simp_all add: wait_leave_def Let_def)

lemma queue_clear [simp]:
  "queue_for j (clear_queue i m) =
     (if j = i then (queue_for i m)\<lparr>wq_generation := wq_generation (queue_for i m) + 1\<rparr>
      else queue_for j m)"
  "mg_cfg (clear_queue i m) = mg_cfg m"
  by (simp_all add: clear_queue_def Let_def)

lemma wait_check_result:
  assumes "wait_check w ctx now m = (m', Some r)"
  shows "m' = wait_leave (wt_lapi w) (if r = WaitErr ErrWaitTimeout then clear_queue (wt_lapi w) m else m)"
  using assms by (auto simp: wait_check_def Let_def split: if_splits)

lemma wait_step_cfg: "wait_step s l t \<Longrightarrow> mg_cfg (fst t) = mg_cfg (fst s)"
  by (induction rule: wait_step.induct)
    (auto simp: wait_enter_def wait_check_def Let_def split: if_splits)

lemma wait_return_inv:
  assumes inv: "wait_inv (m, ws)" and w: "w \<in> set ws"
  shows "wait_inv (wait_leave (wt_lapi w) (if c then clear_queue (wt_lapi w) m else m), remove1 w ws)"
proof -
  have g: "wt_generation v \<le> wq_generation (queue_for (wt_lapi v) m)" if "v \<in> set (remove1 w ws)" for v
    using that inv notin_set_remove1 [of v ws w] by (auto simp: wait_inv_def)
  from g have g': "wt_generation v \<le> wq_generation (queue_for (wt_lapi v) m) + 1"
    if "v \<in> set (remove1 w ws)" for v using that by fastforce
  have n: "int (waiting_for i ws) \<le> max 0 (sc_queue_max_len (mg_cfg m))" for i
    using inv by (simp add: wait_inv_def)
  have n': "int (waiting_for i (remove1 w ws)) \<le> max 0 (sc_queue_max_len (mg_cfg m))" for i
    using n [of i] by (simp add: waiting_remove [OF w])
  have e: "wq_count (queue_for i m) = int (waiting_for i ws)" for i
    using inv by (simp add: wait_inv_def)
  show ?thesis
    using n' unfolding wait_inv_def by (auto simp: e waiting_remove [OF w] dest: g g')
qed

lemma wait_step_inv: "wait_step s l t \<Longrightarrow> wait_inv s \<Longrightarrow> wait_inv t"
proof (induction rule: wait_step.induct)
  case (enter_full i u m m' e ws)
  then show ?case by (auto simp: wait_enter_def wait_inv_def Let_def split: if_splits)
next
  case (enter_queue i u m m' w ws)
  then show ?case by (auto simp: wait_enter_def wait_inv_def Let_def split: if_splits)
next
  case (check_return w ws ctx now m m' r)
  then show ?case using wait_return_inv [OF _ check_return.hyps(1)]
    unfolding wait_check_result [OF check_return.hyps(2)] by simp
next
  case (check_wait w ws ctx now m m')
  then show ?case by (auto simp: wait_check_def Let_def split: if_splits)
qed

lemma wait_reach_inv: "wait_reach s t \<Longrightarrow> wait_inv s \<Longrightarrow> wait_inv t"
  by (induction rule: wait_reach.induct) (auto intro: wait_step_inv)

text \<open>C11: In every state reachable from an idle scheduler by any interleaving of callers, each queue's counter
  is the number of callers waiting on it, and never exceeds the configured length; so no return
  path leaks or double-counts a slot.\<close>

theorem wait_queue_bounded:
  assumes "wait_reach (new_manager cfg hs, []) (m, ws)"
  shows "wq_count (queue_for i m) = int (waiting_for i ws) \<and>
    wq_count (queue_for i m) \<le> max 0 (sc_queue_max_len (mg_cfg m))"
proof -
  have "wait_inv (new_manager cfg hs, [])"
    by (simp add: wait_inv_def queue_for_def waiting_for_def new_manager_def Let_def)
  from wait_reach_inv [OF assms this]
  have c: "wq_count (queue_for i m) = int (waiting_for i ws)"
    and l: "int (waiting_for i ws) \<le> max 0 (sc_queue_max_len (mg_cfg m))"
    by (simp_all add: wait_inv_def)
  from l show ?thesis unfolding c by simp
qed

lemma wait_step_generation:
  "wait_step s l t \<Longrightarrow> wq_generation (queue_for i (fst s)) \<le> wq_generation (queue_for i (fst t))"
  by (induction rule: wait_step.induct)
    (auto simp: wait_enter_def wait_check_def Let_def split: if_splits)

lemma wait_reach_generation:
  "wait_reach s t \<Longrightarrow> wq_generation (queue_for i (fst s)) \<le> wq_generation (queue_for i (fst t))"
  by (induction rule: wait_reach.induct) (auto intro: order_trans wait_step_generation)

text \<open>C12: When one caller's wait times out, every caller that was waiting on the same model at that moment is
  released: at its next check, however much later and whatever happened in between, it returns
  the cleared error, even if its own endpoint has recovered or its context was cancelled.\<close>

theorem wait_timeout_clears:
  assumes "wait_inv (m, ws)" and "wait_step (m, ws) (Check w ctx now (Some (WaitErr ErrWaitTimeout))) s"
    and "v \<in> set ws" and "wt_lapi v = wt_lapi w" and "wait_reach s (m', ws')"
  shows "snd (wait_check v ctx' now' m') = Some (WaitErr ErrQueueCleared)"
proof -
  let ?i = "wt_lapi w"
  obtain m1 ws1 where s: "s = (m1, ws1)" by fastforce
  from assms(2) have c: "wait_check w ctx now m = (m1, Some (WaitErr ErrWaitTimeout))"
    unfolding s by (auto elim: wait_step_cases)
  have "wq_generation (queue_for ?i m1) = wq_generation (queue_for ?i m) + 1"
    using wait_check_result [OF c] by simp
  moreover have "wt_generation v \<le> wq_generation (queue_for ?i m)"
    using assms(1,3,4) by (auto simp: wait_inv_def)
  moreover have "wq_generation (queue_for ?i m1) \<le> wq_generation (queue_for ?i m')"
    using wait_reach_generation [OF assms(5), of ?i] s by simp
  ultimately show ?thesis using assms(4) by (simp add: wait_check_def Let_def)
qed
definition one_waiting :: "manager \<times> waiter list" where
  "one_waiting = (let m = new_manager default_config False; w = wait_enter 4 90 m in
     (fst w, [\<lparr>wt_lapi = 4, wt_generation = 0, wt_until = 90\<rparr>]))"

lemma one_waiting_reach: "wait_reach (new_manager default_config False, []) one_waiting"
  unfolding one_waiting_def Let_def
  by (rule wait_reach.more [OF wait_reach.here wait_step.enter_queue [where i = 4 and u = 90]])
    (simp add: wait_enter_def queue_for_def new_manager_def default_config_def Let_def put_queue_def)

theorem wait_queue_bounded_witness:
  "wq_count (queue_for 4 (fst one_waiting)) = 1 \<and>
   (1::int) \<le> max 0 (sc_queue_max_len (mg_cfg (fst one_waiting)))"
proof -
  have "wait_reach (new_manager default_config False, [])
      (fst one_waiting, [\<lparr>wt_lapi = 4, wt_generation = 0, wt_until = 90\<rparr>])"
    using one_waiting_reach by (simp add: one_waiting_def Let_def)
  from wait_queue_bounded [OF this, of 4] show ?thesis by (simp add: waiting_for_def)
qed

theorem wait_timeout_clears_witness:
  "\<exists>m m' w v. wait_step (m, [w, v]) (Check w CtxDeadline 50 (Some (WaitErr ErrWaitTimeout))) (m', [v]) \<and>
     snd (wait_check v CtxOk 95 m') = Some (WaitErr ErrQueueCleared)"
proof -
  define w where "w = \<lparr>wt_lapi = 4, wt_generation = 0, wt_until = 80\<rparr>"
  define v where "v = \<lparr>wt_lapi = 4, wt_generation = 0, wt_until = 90\<rparr>"
  define m where "m = put_queue 4 \<lparr>wq_count = 2, wq_generation = 0\<rparr> (new_manager default_config False)"
  define m' where "m' = wait_leave 4 (clear_queue 4 m)"
  have q: "queue_for i m = \<lparr>wq_count = if i = 4 then 2 else 0, wq_generation = 0\<rparr>" for i
    by (simp add: m_def) (simp add: queue_for_def new_manager_def Let_def)
  have cfg: "mg_cfg m = default_config" by (simp add: m_def new_manager_def default_config_def
      cursor_scope_session_def Let_def)
  have inv: "wait_inv (m, [w, v])"
    by (simp add: wait_inv_def q cfg waiting_for_def w_def v_def default_config_def)
  have step: "wait_step (m, [w, v]) (Check w CtxDeadline 50 (Some (WaitErr ErrWaitTimeout))) (m', [v])"
    using wait_step.check_return [of w "[w, v]" CtxDeadline 50 m m' "WaitErr ErrWaitTimeout"]
    by (simp add: wait_check_def q cfg w_def v_def m'_def default_config_def)
  have "snd (wait_check v CtxOk 95 m') = Some (WaitErr ErrQueueCleared)"
    using wait_timeout_clears [OF inv step _ _ wait_reach.here, of v CtxOk 95]
    by (simp add: w_def v_def)
  with step show ?thesis by blast
qed

end
