(* ===== verification/Bundle.thy ===== *)
theory Bundle
  imports GoPrelude
begin

text \<open>
  The definition snapshot exchanged between the centre and a gateway, \<open>internal/bundle/bundle.go\<close>:
  its rows, identified by natural keys, and \<open>Validate\<close>, which checks the references before a
  snapshot is applied. An error value names the check that failed and what it quotes. Decoding
  JSON is a parameter of \<open>parse_bundle\<close>. A \<open>*time.Time\<close> is an option.
\<close>

section \<open>Rows\<close>

record b_platform =
  bp_base_url :: string
  bp_name :: string
  bp_token :: string
  bp_last_token_fetch :: "instant option"
  bp_enabled :: bool
  bp_notes :: string
  bp_supported_formats :: string
  bp_format_endpoints :: string
  bp_custom_headers :: string
  bp_login_account :: string
  bp_sort_order :: int

record b_credential =
  bc_token_hash :: string
  bc_platform_base_url :: string
  bc_sort_order :: int
  bc_token :: string
  bc_label :: string
  bc_enabled :: bool
  bc_expires_at :: "instant option"
  bc_is_free :: bool

record b_binding =
  bb_platform_base_url :: string
  bb_model :: string
  bb_token_hash :: string
  bb_rpm_limit :: int
  bb_rph_limit :: int
  bb_rpd_limit :: int
  bb_tpm_limit :: int
  bb_tph_limit :: int
  bb_tpd_limit :: int
  bb_enabled :: bool

record b_rapi =
  br_platform_base_url :: string
  br_model :: string
  br_alias :: string
  br_enabled :: bool
  br_base_cost :: int
  br_high_cost :: int
  br_rpm_limit :: int
  br_rph_limit :: int
  br_rpd_limit :: int
  br_tpm_limit :: int
  br_tph_limit :: int
  br_tpd_limit :: int
  br_time_period_rules :: string
  br_supported_formats :: string
  br_custom_headers :: string
  br_source :: string
  br_vendor :: string
  br_series :: string
  br_model_name :: string
  br_version :: string
  br_suffix :: string
  br_notes :: string
  br_sort_order :: int

record b_lapi =
  bl_alias :: string
  bl_notes :: string
  bl_enabled :: bool
  bl_vendor :: string
  bl_series :: string
  bl_model_name :: string
  bl_version :: string
  bl_suffix :: string

record b_order =
  bo_lapi_alias :: string
  bo_platform_base_url :: string
  bo_model :: string
  bo_order_index :: int

record def_bundle =
  b_platforms :: "b_platform list"
  b_credentials :: "b_credential list"
  b_rapis :: "b_rapi list"
  b_lapis :: "b_lapi list"
  b_orders :: "b_order list"
  b_bindings :: "b_binding list"

record envelope =
  env_schema_version :: int
  env_version :: int
  env_bundle :: def_bundle

definition empty_bundle :: def_bundle where
  "empty_bundle = \<lparr>b_platforms = [], b_credentials = [], b_rapis = [], b_lapis = [], b_orders = [],
     b_bindings = []\<rparr>"

definition schema_version :: int where
  "schema_version = 2"

section \<open>Keys\<close>

type_synonym endpoint = "string \<times> string"

definition platform_key_of :: "string \<Rightarrow> string" where
  "platform_key_of base_url = base_url"

definition rapi_key :: "b_rapi \<Rightarrow> endpoint" where
  "rapi_key r = (platform_key_of (br_platform_base_url r), br_model r)"

definition cred_key :: "b_credential \<Rightarrow> string" where
  "cred_key c = trim_space (bc_token_hash c)"

definition binding_key :: "b_binding \<Rightarrow> endpoint \<times> string" where
  "binding_key b = ((platform_key_of (bb_platform_base_url b), bb_model b), trim_space (bb_token_hash b))"

definition order_endpoint :: "b_order \<Rightarrow> endpoint" where
  "order_endpoint ord = (platform_key_of (bo_platform_base_url ord), bo_model ord)"

text \<open>\<open>strings.IndexAny\<close>.\<close>

fun index_any :: "string \<Rightarrow> string \<Rightarrow> nat option" where
  "index_any [] cs = None"
| "index_any (c # s) cs = (if c \<in> set cs then Some 0 else map_option Suc (index_any s cs))"

definition canonical_node_key :: "(string \<Rightarrow> string) \<Rightarrow> string \<Rightarrow> string \<Rightarrow> string" where
  "canonical_node_key ulow base_url model =
     (let s = trim_right_char (CHR ''/'') (trim_space base_url);
          s = (case str_index s ''://'' of
                 None \<Rightarrow> s
               | Some i \<Rightarrow>
                   let scheme = take i s; rest = drop (i + 3) s in
                   (case index_any rest ''/?#'' of
                      Some j \<Rightarrow> to_lower ulow scheme @ ''://'' @ to_lower ulow (take j rest) @ drop j rest
                    | None \<Rightarrow> to_lower ulow scheme @ ''://'' @ to_lower ulow rest))
      in s @ ''#'' @ model)"

section \<open>Validation\<close>

datatype bundle_error =
    NilEnvelope
  | EmptyBaseURL string
  | DupPlatform string
  | EmptyTokenHash string
  | DupCredential string
  | CredentialUnknownPlatform string string
  | RapiUnknownPlatform string string
  | RapiEmptyModel string
  | DupRapi endpoint
  | BindingUnknownEndpoint endpoint
  | BindingUnknownCredential string
  | DupBinding endpoint string
  | LapiEmptyAlias
  | DupLapi string
  | OrderUnknownLapi string
  | OrderUnknownEndpoint endpoint
  | DupOrder string endpoint
  | ParseError
  | SchemaMismatch int
  | BothNil
  | MergeInvalid bundle_error

text \<open>One loop of \<open>Validate\<close>: the keys seen so far, newest first, and one row at a time.\<close>

fun check_each :: "('a \<Rightarrow> 'k list \<Rightarrow> bundle_error + 'k) \<Rightarrow> 'a list \<Rightarrow> 'k list \<Rightarrow> bundle_error + 'k list" where
  "check_each f [] seen = Inr seen"
| "check_each f (x # xs) seen =
     (case f x seen of Inl e \<Rightarrow> Inl e | Inr k \<Rightarrow> check_each f xs (k # seen))"

definition check_platform :: "b_platform \<Rightarrow> string list \<Rightarrow> bundle_error + string" where
  "check_platform p seen =
     (let bu = platform_key_of (bp_base_url p) in
      if bu = [] then Inl (EmptyBaseURL (bp_name p))
      else if bu \<in> set seen then Inl (DupPlatform bu)
      else Inr bu)"

definition check_credential :: "string list \<Rightarrow> b_credential \<Rightarrow> string list \<Rightarrow> bundle_error + string" where
  "check_credential plats c seen =
     (let h = cred_key c in
      if h = [] then Inl (EmptyTokenHash (bc_label c))
      else if h \<in> set seen then Inl (DupCredential h)
      else if platform_key_of (bc_platform_base_url c) \<notin> set plats
        then Inl (CredentialUnknownPlatform h (bc_platform_base_url c))
      else Inr h)"

definition check_rapi :: "string list \<Rightarrow> b_rapi \<Rightarrow> endpoint list \<Rightarrow> bundle_error + endpoint" where
  "check_rapi plats r seen =
     (let bu = platform_key_of (br_platform_base_url r) in
      if bu \<notin> set plats then Inl (RapiUnknownPlatform (br_alias r) (br_platform_base_url r))
      else if trim_space (br_model r) = [] then Inl (RapiEmptyModel bu)
      else if rapi_key r \<in> set seen then Inl (DupRapi (bu, br_model r))
      else Inr (rapi_key r))"

definition check_binding :: "endpoint list \<Rightarrow> string list \<Rightarrow> b_binding \<Rightarrow> (endpoint \<times> string) list
    \<Rightarrow> bundle_error + endpoint \<times> string" where
  "check_binding eps creds b seen =
     (let ek = fst (binding_key b); h = snd (binding_key b) in
      if ek \<notin> set eps then Inl (BindingUnknownEndpoint (bb_platform_base_url b, bb_model b))
      else if h \<notin> set creds then Inl (BindingUnknownCredential h)
      else if (ek, h) \<in> set seen then Inl (DupBinding (bb_platform_base_url b, bb_model b) h)
      else Inr (ek, h))"

definition check_lapi :: "b_lapi \<Rightarrow> string list \<Rightarrow> bundle_error + string" where
  "check_lapi l seen =
     (if trim_space (bl_alias l) = [] then Inl LapiEmptyAlias
      else if bl_alias l \<in> set seen then Inl (DupLapi (bl_alias l))
      else Inr (bl_alias l))"

definition check_order :: "string list \<Rightarrow> endpoint list \<Rightarrow> b_order \<Rightarrow> (string \<times> endpoint) list
    \<Rightarrow> bundle_error + string \<times> endpoint" where
  "check_order lapis eps ord seen =
     (let ek = order_endpoint ord in
      if bo_lapi_alias ord \<notin> set lapis then Inl (OrderUnknownLapi (bo_lapi_alias ord))
      else if ek \<notin> set eps then Inl (OrderUnknownEndpoint (bo_platform_base_url ord, bo_model ord))
      else if (bo_lapi_alias ord, ek) \<in> set seen
        then Inl (DupOrder (bo_lapi_alias ord) (bo_platform_base_url ord, bo_model ord))
      else Inr (bo_lapi_alias ord, ek))"

definition validate_bundle :: "def_bundle \<Rightarrow> bundle_error option" where
  "validate_bundle b =
     (case check_each check_platform (b_platforms b) [] of Inl e \<Rightarrow> Some e | Inr plats \<Rightarrow>
      case check_each (check_credential plats) (b_credentials b) [] of Inl e \<Rightarrow> Some e | Inr creds \<Rightarrow>
      case check_each (check_rapi plats) (b_rapis b) [] of Inl e \<Rightarrow> Some e | Inr eps \<Rightarrow>
      case check_each (check_binding eps creds) (b_bindings b) [] of Inl e \<Rightarrow> Some e | Inr _ \<Rightarrow>
      case check_each check_lapi (b_lapis b) [] of Inl e \<Rightarrow> Some e | Inr lapis \<Rightarrow>
      case check_each (check_order lapis eps) (b_orders b) [] of Inl e \<Rightarrow> Some e | Inr _ \<Rightarrow> None)"

definition validate :: "envelope option \<Rightarrow> bundle_error option" where
  "validate env =
     (case env of None \<Rightarrow> Some NilEnvelope | Some e \<Rightarrow> validate_bundle (env_bundle e))"

definition parse_bundle :: "(string \<Rightarrow> envelope option) \<Rightarrow> string \<Rightarrow> bundle_error + envelope" where
  "parse_bundle decode data =
     (case decode data of
        None \<Rightarrow> Inl ParseError
      | Some env \<Rightarrow>
          if env_schema_version env \<noteq> schema_version then Inl (SchemaMismatch (env_schema_version env))
          else (case validate (Some env) of Some e \<Rightarrow> Inl e | None \<Rightarrow> Inr env))"

section \<open>What validation promises\<close>

definition valid_bundle :: "def_bundle \<Rightarrow> bool" where
  "valid_bundle b \<longleftrightarrow>
     (let plats = map (\<lambda>p. platform_key_of (bp_base_url p)) (b_platforms b);
          creds = map cred_key (b_credentials b);
          eps = map rapi_key (b_rapis b);
          lapis = map bl_alias (b_lapis b)
      in (\<forall>p \<in> set plats. p \<noteq> []) \<and> distinct plats \<and>
         (\<forall>h \<in> set creds. h \<noteq> []) \<and> distinct creds \<and>
         (\<forall>c \<in> set (b_credentials b). platform_key_of (bc_platform_base_url c) \<in> set plats) \<and>
         (\<forall>r \<in> set (b_rapis b). platform_key_of (br_platform_base_url r) \<in> set plats \<and>
            trim_space (br_model r) \<noteq> []) \<and> distinct eps \<and>
         distinct (map binding_key (b_bindings b)) \<and>
         (\<forall>k \<in> set (map binding_key (b_bindings b)). fst k \<in> set eps \<and> snd k \<in> set creds) \<and>
         distinct lapis \<and> (\<forall>a \<in> set lapis. trim_space a \<noteq> []) \<and>
         distinct (map (\<lambda>ord. (bo_lapi_alias ord, order_endpoint ord)) (b_orders b)) \<and>
         (\<forall>ord \<in> set (b_orders b). bo_lapi_alias ord \<in> set lapis \<and> order_endpoint ord \<in> set eps))"

text \<open>A loop whose step answers with the row's key unless the row is bad or its key was seen.\<close>

lemma check_each_ok:
  assumes "\<And>x seen k. f x seen = Inr k \<longleftrightarrow> k = key x \<and> ok x \<and> key x \<notin> set seen"
  shows "check_each f xs seen = Inr ks \<longleftrightarrow>
    ks = rev (map key xs) @ seen \<and> (\<forall>x \<in> set xs. ok x) \<and> distinct (map key xs) \<and>
    set (map key xs) \<inter> set seen = {}"
proof (induction xs arbitrary: seen)
  case Nil
  then show ?case by auto
next
  case (Cons x xs)
  show ?case
  proof (cases "f x seen")
    case (Inl e)
    then have "\<not> (ok x \<and> key x \<notin> set seen)" using assms [of x seen "key x"] by auto
    with Inl show ?thesis by auto
  next
    case (Inr k)
    then show ?thesis using assms [of x seen k] Cons.IH [of "k # seen"] by auto
  qed
qed

lemmas check_platform_ok = check_each_ok [of check_platform "\<lambda>p. platform_key_of (bp_base_url p)"
    "\<lambda>p. platform_key_of (bp_base_url p) \<noteq> []"]

lemma check_platforms:
  "check_each check_platform xs [] = Inr ks \<longleftrightarrow> ks = rev (map (\<lambda>p. platform_key_of (bp_base_url p)) xs) \<and>
     (\<forall>p \<in> set xs. platform_key_of (bp_base_url p) \<noteq> []) \<and> distinct (map (\<lambda>p. platform_key_of (bp_base_url p)) xs)"
  by (subst check_platform_ok) (auto simp: check_platform_def Let_def split: if_splits)

lemma check_credentials:
  "check_each (check_credential plats) xs [] = Inr ks \<longleftrightarrow> ks = rev (map cred_key xs) \<and>
     (\<forall>c \<in> set xs. cred_key c \<noteq> [] \<and> platform_key_of (bc_platform_base_url c) \<in> set plats) \<and>
     distinct (map cred_key xs)"
  by (subst check_each_ok [where key = cred_key
        and ok = "\<lambda>c. cred_key c \<noteq> [] \<and> platform_key_of (bc_platform_base_url c) \<in> set plats"])
    (auto simp: check_credential_def Let_def split: if_splits)

lemma check_rapis:
  "check_each (check_rapi plats) xs [] = Inr ks \<longleftrightarrow> ks = rev (map rapi_key xs) \<and>
     (\<forall>r \<in> set xs. platform_key_of (br_platform_base_url r) \<in> set plats \<and> trim_space (br_model r) \<noteq> []) \<and>
     distinct (map rapi_key xs)"
  by (subst check_each_ok [where key = rapi_key and ok = "\<lambda>r. platform_key_of (br_platform_base_url r) \<in> set plats
        \<and> trim_space (br_model r) \<noteq> []"])
    (auto simp: check_rapi_def Let_def split: if_splits)

lemma check_bindings:
  "check_each (check_binding eps creds) xs [] = Inr ks \<longleftrightarrow> ks = rev (map binding_key xs) \<and>
     (\<forall>b \<in> set xs. fst (binding_key b) \<in> set eps \<and> snd (binding_key b) \<in> set creds) \<and>
     distinct (map binding_key xs)"
  by (subst check_each_ok [where key = binding_key
        and ok = "\<lambda>b. fst (binding_key b) \<in> set eps \<and> snd (binding_key b) \<in> set creds"])
    (auto simp: check_binding_def Let_def split: if_splits)

lemma check_lapis:
  "check_each check_lapi xs [] = Inr ks \<longleftrightarrow> ks = rev (map bl_alias xs) \<and>
     (\<forall>l \<in> set xs. trim_space (bl_alias l) \<noteq> []) \<and> distinct (map bl_alias xs)"
  by (subst check_each_ok [where key = bl_alias and ok = "\<lambda>l. trim_space (bl_alias l) \<noteq> []"])
    (auto simp: check_lapi_def Let_def split: if_splits)

lemma check_orders:
  "check_each (check_order lapis eps) xs [] = Inr ks \<longleftrightarrow>
     ks = rev (map (\<lambda>ord. (bo_lapi_alias ord, order_endpoint ord)) xs) \<and>
     (\<forall>ord \<in> set xs. bo_lapi_alias ord \<in> set lapis \<and> order_endpoint ord \<in> set eps) \<and>
     distinct (map (\<lambda>ord. (bo_lapi_alias ord, order_endpoint ord)) xs)"
  by (subst check_each_ok [where key = "\<lambda>ord. (bo_lapi_alias ord, order_endpoint ord)"
        and ok = "\<lambda>ord. bo_lapi_alias ord \<in> set lapis \<and> order_endpoint ord \<in> set eps"])
    (auto simp: check_order_def Let_def split: if_splits)

lemma sum_case_None:
  "(case x of Inl e \<Rightarrow> Some e | Inr y \<Rightarrow> f y) = None \<longleftrightarrow> (\<exists>y. x = Inr y \<and> f y = None)"
  by (cases x) auto

lemma validate_valid: "validate_bundle b = None \<longleftrightarrow> valid_bundle b"
  unfolding validate_bundle_def sum_case_None check_platforms check_credentials check_rapis
    check_bindings check_lapis check_orders valid_bundle_def Let_def
  by auto

text \<open>C16: \<open>Validate\<close> accepts a snapshot exactly when every row has its natural key, no key occurs twice, and
  every reference (credential to platform, endpoint to platform, binding to endpoint and
  credential, chain entry to model and endpoint) has its target in the snapshot.\<close>

theorem validate_iff_valid: "validate_bundle b = None \<longleftrightarrow> valid_bundle b"
  by (rule validate_valid)

end
