(* ===== verification/BundleMerge.thy ===== *)
theory BundleMerge
  imports Bundle
begin

text \<open>
  Merging the centre's snapshot with the gateway's own, \<open>internal/bundle/merge.go\<close>. Platforms,
  credentials, endpoints and bindings are unions by natural key, a row present on both sides
  taken from one of them by the rule; the four loops differ in the row and its key only, and are
  instances of one union. Models and their chains follow the comparison of the chains. The
  digest (SHA-256, hexadecimal) is the parameter \<open>sha\<close>, the Unicode case tables are \<open>ulow\<close>. A Go
  map of chains or models is a function of the alias.
\<close>

section \<open>Report\<close>

datatype conflict_rule = RuleCenterWins | RuleLocalWins

record conflict =
  cf_kind :: string
  cf_key :: string
  cf_fields :: "string list"

datatype chain_level = L0 | L1 | L2c | L2l | L3 | LocalOnly

datatype kept_side = KeptCenter | KeptLocal

record lapi_decision =
  ld_alias :: string
  ld_level :: chain_level
  ld_kept :: kept_side
  ld_renamed :: string

record merge_report =
  mr_rule :: conflict_rule
  mr_local_only_platforms :: "string list"
  mr_local_only_creds :: "(string \<times> string) list"
  mr_local_only_rapis :: "endpoint list"
  mr_local_only_bindings :: "(endpoint \<times> string) list"
  mr_local_only_lapis :: "string list"
  mr_conflicts :: "conflict list"
  mr_lapis :: "lapi_decision list"
  mr_dropped_rapis :: "endpoint list"
  mr_dropped_bindings :: "(endpoint \<times> string) list"
  mr_dropped_order :: "string list"

definition new_report :: "conflict_rule \<Rightarrow> merge_report" where
  "new_report rule = \<lparr>mr_rule = rule, mr_local_only_platforms = [], mr_local_only_creds = [],
     mr_local_only_rapis = [], mr_local_only_bindings = [], mr_local_only_lapis = [],
     mr_conflicts = [], mr_lapis = [], mr_dropped_rapis = [], mr_dropped_bindings = [],
     mr_dropped_order = []\<rparr>"

definition report_empty :: "merge_report option \<Rightarrow> bool" where
  "report_empty rep =
     (case rep of None \<Rightarrow> True
      | Some r \<Rightarrow> mr_local_only_platforms r = [] \<and> mr_local_only_creds r = [] \<and>
          mr_local_only_rapis r = [] \<and> mr_local_only_bindings r = [] \<and> mr_local_only_lapis r = [] \<and>
          mr_conflicts r = [] \<and> mr_dropped_rapis r = [] \<and> mr_dropped_bindings r = [] \<and>
          mr_dropped_order r = [])"

section \<open>Fields that differ\<close>

definition differing :: "(string \<times> bool) list \<Rightarrow> string list" where
  "differing fs = map fst (filter (\<lambda>f. \<not> snd f) fs)"

definition diff_platform :: "b_platform \<Rightarrow> b_platform \<Rightarrow> string list" where
  "diff_platform a b = differing
     [(''BaseURL'', bp_base_url a = bp_base_url b), (''Name'', bp_name a = bp_name b),
      (''Token'', bp_token a = bp_token b), (''LastTokenFetch'', bp_last_token_fetch a = bp_last_token_fetch b),
      (''Enabled'', bp_enabled a = bp_enabled b), (''Notes'', bp_notes a = bp_notes b),
      (''SupportedFormats'', bp_supported_formats a = bp_supported_formats b),
      (''FormatEndpoints'', bp_format_endpoints a = bp_format_endpoints b),
      (''CustomHeaders'', bp_custom_headers a = bp_custom_headers b),
      (''LoginAccount'', bp_login_account a = bp_login_account b),
      (''SortOrder'', bp_sort_order a = bp_sort_order b)]"

definition diff_credential :: "b_credential \<Rightarrow> b_credential \<Rightarrow> string list" where
  "diff_credential a b = differing
     [(''TokenHash'', bc_token_hash a = bc_token_hash b),
      (''PlatformBaseURL'', bc_platform_base_url a = bc_platform_base_url b),
      (''SortOrder'', bc_sort_order a = bc_sort_order b), (''Token'', bc_token a = bc_token b),
      (''Label'', bc_label a = bc_label b), (''Enabled'', bc_enabled a = bc_enabled b),
      (''ExpiresAt'', bc_expires_at a = bc_expires_at b), (''IsFree'', bc_is_free a = bc_is_free b)]"

definition diff_rapi :: "b_rapi \<Rightarrow> b_rapi \<Rightarrow> string list" where
  "diff_rapi a b = differing
     [(''PlatformBaseURL'', br_platform_base_url a = br_platform_base_url b),
      (''Model'', br_model a = br_model b), (''Alias'', br_alias a = br_alias b),
      (''Enabled'', br_enabled a = br_enabled b), (''BaseCost'', br_base_cost a = br_base_cost b),
      (''HighCost'', br_high_cost a = br_high_cost b), (''RPMLimit'', br_rpm_limit a = br_rpm_limit b),
      (''RPHLimit'', br_rph_limit a = br_rph_limit b), (''RPDLimit'', br_rpd_limit a = br_rpd_limit b),
      (''TPMLimit'', br_tpm_limit a = br_tpm_limit b), (''TPHLimit'', br_tph_limit a = br_tph_limit b),
      (''TPDLimit'', br_tpd_limit a = br_tpd_limit b),
      (''TimePeriodRules'', br_time_period_rules a = br_time_period_rules b),
      (''SupportedFormats'', br_supported_formats a = br_supported_formats b),
      (''CustomHeaders'', br_custom_headers a = br_custom_headers b),
      (''Source'', br_source a = br_source b), (''Vendor'', br_vendor a = br_vendor b),
      (''Series'', br_series a = br_series b), (''ModelName'', br_model_name a = br_model_name b),
      (''Version'', br_version a = br_version b), (''Suffix'', br_suffix a = br_suffix b),
      (''Notes'', br_notes a = br_notes b), (''SortOrder'', br_sort_order a = br_sort_order b)]"

definition diff_binding :: "b_binding \<Rightarrow> b_binding \<Rightarrow> string list" where
  "diff_binding a b = differing
     [(''PlatformBaseURL'', bb_platform_base_url a = bb_platform_base_url b),
      (''Model'', bb_model a = bb_model b), (''TokenHash'', bb_token_hash a = bb_token_hash b),
      (''RPMLimit'', bb_rpm_limit a = bb_rpm_limit b), (''RPHLimit'', bb_rph_limit a = bb_rph_limit b),
      (''RPDLimit'', bb_rpd_limit a = bb_rpd_limit b), (''TPMLimit'', bb_tpm_limit a = bb_tpm_limit b),
      (''TPHLimit'', bb_tph_limit a = bb_tph_limit b), (''TPDLimit'', bb_tpd_limit a = bb_tpd_limit b),
      (''Enabled'', bb_enabled a = bb_enabled b)]"

section \<open>Keyed unions\<close>

text \<open>The closure \<open>add\<close> of the four merge functions: the rows picked so far and one more row; the
  conflict it records, if any, and whether it was new.\<close>

fun add_row :: "('a \<Rightarrow> 'k) \<Rightarrow> ('a \<Rightarrow> 'a \<Rightarrow> string list) \<Rightarrow> bool \<Rightarrow> 'a \<Rightarrow> 'a list
    \<Rightarrow> 'a list \<times> ('k \<times> string list) list \<times> bool" where
  "add_row key diff center_first x [] = ([x], [], True)"
| "add_row key diff center_first x (y # ys) =
     (if key y = key x
      then (let f = diff y x in
            if f = [] then (y # ys, [], False)
            else ((if center_first then y else x) # ys, [(key x, f)], False))
      else (let (ys', cs, new) = add_row key diff center_first x ys in (y # ys', cs, new)))"

fun add_rows :: "('a \<Rightarrow> 'k) \<Rightarrow> ('a \<Rightarrow> 'a \<Rightarrow> string list) \<Rightarrow> bool \<Rightarrow> 'a list \<Rightarrow> 'a list
    \<Rightarrow> 'a list \<times> ('k \<times> string list) list \<times> 'a list" where
  "add_rows key diff center_first [] out = (out, [], [])"
| "add_rows key diff center_first (x # xs) out =
     (let (out1, c, new) = add_row key diff center_first x out;
          (out2, cs, news) = add_rows key diff center_first xs out1
      in (out2, c @ cs, if new then x # news else news))"

definition merge_union :: "('a \<Rightarrow> 'k) \<Rightarrow> ('a \<Rightarrow> 'a \<Rightarrow> string list) \<Rightarrow> bool \<Rightarrow> 'a list \<Rightarrow> 'a list
    \<Rightarrow> 'a list \<times> ('k \<times> string list) list \<times> 'a list" where
  "merge_union key diff center_first center local =
     (let (out1, cs1, _) = add_rows key diff center_first center [];
          (out2, cs2, news) = add_rows key diff center_first local out1
      in (out2, cs1 @ cs2, news))"

definition endpoint_str :: "endpoint \<Rightarrow> string" where
  "endpoint_str e = ''('' @ fst e @ '','' @ snd e @ '')''"

definition conflicts_of :: "string \<Rightarrow> ('k \<Rightarrow> string) \<Rightarrow> ('k \<times> string list) list \<Rightarrow> conflict list" where
  "conflicts_of kind str cs = map (\<lambda>c. \<lparr>cf_kind = kind, cf_key = str (fst c), cf_fields = snd c\<rparr>) cs"

definition merge_platforms :: "b_platform list \<Rightarrow> b_platform list \<Rightarrow> bool \<Rightarrow> merge_report
    \<Rightarrow> b_platform list \<times> merge_report" where
  "merge_platforms center local center_first rep =
     (let (out, cs, news) =
            merge_union (\<lambda>p. platform_key_of (bp_base_url p)) diff_platform center_first center local
      in (out, rep\<lparr>mr_conflicts := mr_conflicts rep @ conflicts_of ''platform'' (\<lambda>k. k) cs,
            mr_local_only_platforms := mr_local_only_platforms rep
              @ map (\<lambda>p. platform_key_of (bp_base_url p)) news\<rparr>))"

definition merge_credentials :: "b_credential list \<Rightarrow> b_credential list \<Rightarrow> bool \<Rightarrow> merge_report
    \<Rightarrow> b_credential list \<times> merge_report" where
  "merge_credentials center local center_first rep =
     (let (out, cs, news) = merge_union cred_key diff_credential center_first center local
      in (out, rep\<lparr>mr_conflicts := mr_conflicts rep @ conflicts_of ''credential'' (\<lambda>k. k) cs,
            mr_local_only_creds := mr_local_only_creds rep
              @ map (\<lambda>c. (trim_space (bc_token_hash c), bc_label c)) news\<rparr>))"

definition merge_rapis :: "b_rapi list \<Rightarrow> b_rapi list \<Rightarrow> string list \<Rightarrow> bool \<Rightarrow> merge_report
    \<Rightarrow> b_rapi list \<times> endpoint list \<times> merge_report" where
  "merge_rapis center local plat_ok center_first rep =
     (let (picked, cs, news) = merge_union rapi_key diff_rapi center_first center local;
          ok = (\<lambda>r. platform_key_of (br_platform_base_url r) \<in> set plat_ok)
      in (filter ok picked, map rapi_key (filter (\<lambda>r. \<not> ok r) picked),
          rep\<lparr>mr_conflicts := mr_conflicts rep @ conflicts_of ''rapi'' endpoint_str cs,
            mr_local_only_rapis := mr_local_only_rapis rep @ map rapi_key news\<rparr>))"

definition merge_bindings :: "b_binding list \<Rightarrow> b_binding list \<Rightarrow> endpoint list \<Rightarrow> string list \<Rightarrow> bool
    \<Rightarrow> merge_report \<Rightarrow> b_binding list \<times> (endpoint \<times> string) list \<times> merge_report" where
  "merge_bindings center local ep_ok cred_ok center_first rep =
     (let (picked, cs, news) = merge_union binding_key diff_binding center_first center local;
          ok = (\<lambda>b. fst (binding_key b) \<in> set ep_ok \<and> snd (binding_key b) \<in> set cred_ok)
      in (filter ok picked, map binding_key (filter (\<lambda>b. \<not> ok b) picked),
          rep\<lparr>mr_conflicts := mr_conflicts rep
                @ conflicts_of ''binding'' (\<lambda>k. endpoint_str (fst k) @ ''|'' @ snd k) cs,
            mr_local_only_bindings := mr_local_only_bindings rep @ map binding_key news\<rparr>))"

section \<open>Chains\<close>

definition sort_orders :: "b_order list \<Rightarrow> b_order list" where
  "sort_orders chain = stable_sort (\<lambda>a b. bo_order_index a < bo_order_index b) chain"

definition chain_nodes :: "(string \<Rightarrow> string) \<Rightarrow> b_order list \<Rightarrow> string list" where
  "chain_nodes ulow chain =
     map (\<lambda>ord. canonical_node_key ulow (bo_platform_base_url ord) (bo_model ord)) (sort_orders chain)"

definition chain_signature :: "(string \<Rightarrow> string) \<Rightarrow> (string \<Rightarrow> string) \<Rightarrow> b_order list \<Rightarrow> string" where
  "chain_signature ulow sha chain = take 16 (sha (join_with '' > '' (chain_nodes ulow chain)))"

fun subsequence_from :: "string list \<Rightarrow> string list \<Rightarrow> bool" where
  "subsequence_from short [] = (short = [])"
| "subsequence_from short (x # long) =
     (case short of
        [] \<Rightarrow> subsequence_from [] long
      | s # rest \<Rightarrow> if s = x then subsequence_from rest long else subsequence_from short long)"

fun multiset_loop :: "(string \<Rightarrow> int) \<Rightarrow> string list \<Rightarrow> bool" where
  "multiset_loop cnt [] = True"
| "multiset_loop cnt (x # xs) =
     (let cnt' = cnt(x := cnt x - 1) in if cnt' x < 0 then False else multiset_loop cnt' xs)"

definition same_multiset :: "string list \<Rightarrow> string list \<Rightarrow> bool" where
  "same_multiset a b =
     (if length a \<noteq> length b then False
      else multiset_loop (fold (\<lambda>x cnt. cnt(x := cnt x + 1)) a (\<lambda>_. 0)) b)"

definition compare_chains :: "(string \<Rightarrow> string) \<Rightarrow> (string \<Rightarrow> string) \<Rightarrow> b_order list \<Rightarrow> b_order list
    \<Rightarrow> chain_level" where
  "compare_chains ulow sha center local =
     (if chain_signature ulow sha center = chain_signature ulow sha local then L0
      else
        (let cn = chain_nodes ulow center; ln = chain_nodes ulow local in
         if length cn = length ln \<and> same_multiset cn ln then L1
         else if subsequence_from ln cn then L2c
         else if subsequence_from cn ln then L2l
         else L3))"

definition group_chain :: "b_order list \<Rightarrow> string \<Rightarrow> b_order list" where
  "group_chain ords alias = sort_orders (filter (\<lambda>ord. bo_lapi_alias ord = alias) ords)"

definition number_chain :: "b_order list \<Rightarrow> b_order list" where
  "number_chain chain = map (\<lambda>(i, ord). ord\<lparr>bo_order_index := int i\<rparr>) (enumerate 0 chain)"

definition renumber_chains :: "b_order list \<Rightarrow> b_order list" where
  "renumber_chains ords =
     concat (map (\<lambda>a. number_chain (group_chain ords a)) (sort (remdups (map bo_lapi_alias ords))))"

definition filter_chain :: "b_order list \<Rightarrow> string \<Rightarrow> endpoint list \<Rightarrow> b_order list \<times> string list" where
  "filter_chain chain alias ep_ok =
     (filter (\<lambda>ord. order_endpoint ord \<in> set ep_ok) chain,
      map (\<lambda>ord. alias @ utf8 [0xE2, 0x86, 0x92] @ endpoint_str (order_endpoint ord))
        (filter (\<lambda>ord. order_endpoint ord \<notin> set ep_ok) chain))"

section \<open>Models\<close>

definition local_name :: "string \<Rightarrow> nat \<Rightarrow> string" where
  "local_name base i = base @ ''#local'' @ nat_str i"

text \<open>The search of \<open>allocName\<close> is over the finitely many names taken, so one more candidate than there
  are names is enough.\<close>

definition alloc_name :: "string \<Rightarrow> string list \<Rightarrow> string" where
  "alloc_name base taken =
     (if base \<notin> set taken then base
      else (case find (\<lambda>c. c \<notin> set taken) (map (local_name base) [2..<length taken + 3]) of
              Some c \<Rightarrow> c
            | None \<Rightarrow> base))"

definition lapi_map :: "b_lapi list \<Rightarrow> string \<Rightarrow> b_lapi option" where
  "lapi_map ls alias = map_of (rev (map (\<lambda>l. (bl_alias l, l)) ls)) alias"

record merge_state =
  ms_lapis :: "b_lapi list"
  ms_chains :: "b_order list"
  ms_dropped :: "string list"
  ms_local_only :: "string list"
  ms_decisions :: "lapi_decision list"
  ms_taken :: "string list"

definition emit_lapi :: "endpoint list \<Rightarrow> b_lapi \<Rightarrow> b_order list \<Rightarrow> string \<Rightarrow> merge_state \<Rightarrow> merge_state" where
  "emit_lapi ep_ok l chain alias st =
     (let (kept, dropped) = filter_chain chain alias ep_ok;
          kept = map (\<lambda>ord. ord\<lparr>bo_lapi_alias := alias\<rparr>) kept
      in st\<lparr>ms_lapis := ms_lapis st @ [l], ms_chains := ms_chains st @ kept,
            ms_dropped := ms_dropped st @ dropped\<rparr>)"

definition take_name :: "string \<Rightarrow> merge_state \<Rightarrow> merge_state" where
  "take_name a st = st\<lparr>ms_taken := a # ms_taken st\<rparr>"

definition decide :: "lapi_decision \<Rightarrow> merge_state \<Rightarrow> merge_state" where
  "decide d st = st\<lparr>ms_decisions := ms_decisions st @ [d]\<rparr>"

definition note_local :: "string \<Rightarrow> merge_state \<Rightarrow> merge_state" where
  "note_local a st = st\<lparr>ms_local_only := ms_local_only st @ [a]\<rparr>"

definition merge_alias :: "(string \<Rightarrow> string) \<Rightarrow> (string \<Rightarrow> string) \<Rightarrow> endpoint list \<Rightarrow> def_bundle \<Rightarrow> def_bundle
    \<Rightarrow> string \<Rightarrow> merge_state \<Rightarrow> merge_state" where
  "merge_alias ulow sha ep_ok center local alias st =
     (let c_chain = group_chain (b_orders center) alias; l_chain = group_chain (b_orders local) alias in
      case (lapi_map (b_lapis center) alias, lapi_map (b_lapis local) alias) of
        (None, None) \<Rightarrow> st
      | (Some c, None) \<Rightarrow> emit_lapi ep_ok c c_chain alias (take_name alias st)
      | (None, Some l) \<Rightarrow>
          decide \<lparr>ld_alias = alias, ld_level = LocalOnly, ld_kept = KeptLocal, ld_renamed = []\<rparr>
            (note_local alias (emit_lapi ep_ok l l_chain alias (take_name alias st)))
      | (Some c, Some l) \<Rightarrow>
          (let level = compare_chains ulow sha c_chain l_chain in
           if level \<in> {L0, L2c}
           then decide \<lparr>ld_alias = alias, ld_level = level, ld_kept = KeptCenter, ld_renamed = []\<rparr>
                  (emit_lapi ep_ok c c_chain alias (take_name alias st))
           else if level = L2l
           then decide \<lparr>ld_alias = alias, ld_level = level, ld_kept = KeptLocal, ld_renamed = []\<rparr>
                  (emit_lapi ep_ok l l_chain alias (take_name alias st))
           else
             (let st1 = emit_lapi ep_ok c c_chain alias (take_name alias st);
                  name = alloc_name alias (ms_taken st1);
                  st2 = emit_lapi ep_ok (l\<lparr>bl_alias := name\<rparr>) l_chain name (take_name name st1)
              in note_local name
                   (decide \<lparr>ld_alias = alias, ld_level = level, ld_kept = KeptCenter, ld_renamed = name\<rparr> st2))))"

definition merge_aliases :: "def_bundle \<Rightarrow> def_bundle \<Rightarrow> string list" where
  "merge_aliases center local = sort (remdups (map bl_alias (b_lapis center) @ map bl_alias (b_lapis local)))"

definition merge_lapis_and_chains :: "(string \<Rightarrow> string) \<Rightarrow> (string \<Rightarrow> string) \<Rightarrow> def_bundle \<Rightarrow> def_bundle
    \<Rightarrow> endpoint list \<Rightarrow> merge_state" where
  "merge_lapis_and_chains ulow sha center local ep_ok =
     (let st = fold (merge_alias ulow sha ep_ok center local) (merge_aliases center local)
            \<lparr>ms_lapis = [], ms_chains = [], ms_dropped = [], ms_local_only = [], ms_decisions = [], ms_taken = []\<rparr>
      in st\<lparr>ms_chains := renumber_chains (ms_chains st)\<rparr>)"

section \<open>Merge\<close>

definition merge_out :: "(string \<Rightarrow> string) \<Rightarrow> (string \<Rightarrow> string) \<Rightarrow> def_bundle \<Rightarrow> def_bundle \<Rightarrow> conflict_rule
    \<Rightarrow> def_bundle \<times> merge_report" where
  "merge_out ulow sha center local rule =
     (let center_first = (rule \<noteq> RuleLocalWins);
          (plats, rep) = merge_platforms (b_platforms center) (b_platforms local) center_first (new_report rule);
          (creds, rep) = merge_credentials (b_credentials center) (b_credentials local) center_first rep;
          (rapis, dropped_rapis, rep) = merge_rapis (b_rapis center) (b_rapis local)
             (map (\<lambda>p. platform_key_of (bp_base_url p)) plats) center_first rep;
          ep_ok = map rapi_key rapis;
          (binds, dropped_binds, rep) = merge_bindings (b_bindings center) (b_bindings local) ep_ok
             (map cred_key creds) center_first rep;
          st = merge_lapis_and_chains ulow sha center local ep_ok
      in (\<lparr>b_platforms = plats, b_credentials = creds, b_rapis = rapis, b_lapis = ms_lapis st,
           b_orders = ms_chains st, b_bindings = binds\<rparr>,
          rep\<lparr>mr_dropped_rapis := dropped_rapis, mr_dropped_bindings := dropped_binds,
              mr_dropped_order := ms_dropped st, mr_local_only_lapis := ms_local_only st,
              mr_lapis := ms_decisions st\<rparr>))"

definition merge_bundles :: "(string \<Rightarrow> string) \<Rightarrow> (string \<Rightarrow> string) \<Rightarrow> def_bundle option \<Rightarrow> def_bundle option
    \<Rightarrow> conflict_rule \<Rightarrow> (bundle_error \<times> merge_report option) + (def_bundle \<times> merge_report)" where
  "merge_bundles ulow sha center local rule =
     (if center = None \<and> local = None then Inl (BothNil, None)
      else
        (let c = (case center of None \<Rightarrow> empty_bundle | Some b \<Rightarrow> b);
             l = (case local of None \<Rightarrow> empty_bundle | Some b \<Rightarrow> b);
             (out, rep) = merge_out ulow sha c l rule
         in case validate (Some \<lparr>env_schema_version = schema_version, env_version = 0, env_bundle = out\<rparr>) of
              Some e \<Rightarrow> Inl (MergeInvalid e, Some rep)
            | None \<Rightarrow> Inr (out, rep)))"

section \<open>The union by key\<close>

text \<open>A row type with its key and its field comparison. All a union needs is that the comparison finds
  no field exactly when the rows are equal.\<close>

locale keyed_union =
  fixes key :: "'a \<Rightarrow> 'k" and diff :: "'a \<Rightarrow> 'a \<Rightarrow> string list"
  assumes diff_empty: "diff x y = [] \<longleftrightarrow> x = y"
begin

lemma add_row_keys:
  "map key (fst (add_row key diff cf x out)) =
     (if key x \<in> key ` set out then map key out else map key out @ [key x])"
  by (induction out) (auto simp: Let_def split_beta)

lemma add_row_rows: "set (fst (add_row key diff cf x out)) \<subseteq> insert x (set out)"
  by (induction out) (auto simp: Let_def split_beta)

lemma add_row_new: "snd (snd (add_row key diff cf x out)) \<longleftrightarrow> key x \<notin> key ` set out"
  by (induction out) (auto simp: Let_def split_beta)

lemma add_row_fresh: "key x \<notin> key ` set out \<Longrightarrow> add_row key diff cf x out = (out @ [x], [], True)"
  by (induction out) auto

lemma add_row_center: "key x \<in> key ` set out \<Longrightarrow> fst (add_row key diff True x out) = out"
  by (induction out) (auto simp: Let_def split_beta)

lemma add_row_same:
  "distinct (map key out) \<Longrightarrow> x \<in> set out \<Longrightarrow> add_row key diff cf x out = (out, [], False)"
proof (induction out)
  case (Cons y ys)
  then show ?case
    by (cases "x = y") (use diff_empty [of y y] in \<open>auto simp: Let_def image_iff\<close>)
qed simp

lemma add_row_distinct: "distinct (map key out) \<Longrightarrow> distinct (map key (fst (add_row key diff cf x out)))"
  by (simp add: add_row_keys)

lemma add_rows_Cons:
  "fst (add_rows key diff cf (x # xs) out) = fst (add_rows key diff cf xs (fst (add_row key diff cf x out)))"
  by (simp add: Let_def split_beta)

lemma add_rows_distinct:
  "distinct (map key out) \<Longrightarrow> distinct (map key (fst (add_rows key diff cf xs out)))"
proof (induction xs arbitrary: out)
  case (Cons x xs)
  then show ?case unfolding add_rows_Cons by (intro Cons.IH add_row_distinct)
qed simp

lemma add_rows_keys: "key ` set (fst (add_rows key diff cf xs out)) = key ` set out \<union> key ` set xs"
proof (induction xs arbitrary: out)
  case (Cons x xs)
  have "key ` set (fst (add_row key diff cf x out)) = insert (key x) (key ` set out)"
    using arg_cong [OF add_row_keys [of cf x out], of set] by auto
  with Cons show ?case unfolding add_rows_Cons by auto
qed simp

lemma add_rows_rows: "set (fst (add_rows key diff cf xs out)) \<subseteq> set out \<union> set xs"
proof (induction xs arbitrary: out)
  case (Cons x xs)
  then show ?case unfolding add_rows_Cons using add_row_rows [of cf x out] by fastforce
qed simp

lemma add_rows_center:
  "distinct (map key xs) \<Longrightarrow>
   fst (add_rows key diff True xs out) = out @ filter (\<lambda>x. key x \<notin> key ` set out) xs"
proof (induction xs arbitrary: out)
  case (Cons x xs)
  show ?case
  proof (cases "key x \<in> key ` set out")
    case True
    with Cons show ?thesis unfolding add_rows_Cons by (simp add: add_row_center)
  next
    case False
    moreover have "filter (\<lambda>y. key y \<notin> key ` set (out @ [x])) xs = filter (\<lambda>y. key y \<notin> key ` set out) xs"
      using Cons.prems by (intro filter_cong) (auto simp: image_iff)
    moreover have "distinct (map key xs)" using Cons.prems by simp
    ultimately show ?thesis using Cons.IH [of "out @ [x]"] unfolding add_rows_Cons
      by (simp add: add_row_fresh)
  qed
qed simp

lemma add_rows_fresh:
  "distinct (map key xs) \<Longrightarrow> key ` set out \<inter> key ` set xs = {} \<Longrightarrow>
   add_rows key diff cf xs out = (out @ xs, [], xs)"
proof (induction xs arbitrary: out)
  case (Cons x xs)
  then have "key x \<notin> key ` set out" by auto
  moreover have "add_rows key diff cf xs (out @ [x]) = ((out @ [x]) @ xs, [], xs)"
    using Cons.prems by (intro Cons.IH) auto
  ultimately show ?case by (simp add: add_row_fresh)
qed simp

lemma add_rows_same:
  "distinct (map key out) \<Longrightarrow> set xs \<subseteq> set out \<Longrightarrow> add_rows key diff cf xs out = (out, [], [])"
  by (induction xs) (simp_all add: add_row_same)

lemma union_ok:
  shows "distinct (map key (fst (merge_union key diff cf center local)))"
    and "key ` set (fst (merge_union key diff cf center local)) = key ` set center \<union> key ` set local"
    and "set (fst (merge_union key diff cf center local)) \<subseteq> set center \<union> set local"
proof -
  let ?c = "fst (add_rows key diff cf center [])"
  have u: "fst (merge_union key diff cf center local) = fst (add_rows key diff cf local ?c)"
    by (simp add: merge_union_def split_beta)
  show "distinct (map key (fst (merge_union key diff cf center local)))"
    unfolding u by (intro add_rows_distinct) simp
  show "key ` set (fst (merge_union key diff cf center local)) = key ` set center \<union> key ` set local"
    unfolding u add_rows_keys by simp
  show "set (fst (merge_union key diff cf center local)) \<subseteq> set center \<union> set local"
    unfolding u using add_rows_rows [of cf local ?c] add_rows_rows [of cf center "[]"] by auto
qed

lemma union_center_first:
  assumes "distinct (map key center)" and "distinct (map key local)"
  shows "fst (merge_union key diff True center local) =
    center @ filter (\<lambda>x. key x \<notin> key ` set center) local"
  using add_rows_fresh [OF assms(1), of "[]" True] add_rows_center [OF assms(2), of center]
  by (simp add: merge_union_def split_beta)

lemma union_self:
  "distinct (map key xs) \<Longrightarrow> merge_union key diff cf xs xs = (xs, [], [])"
  using add_rows_fresh [of xs "[]" cf] add_rows_same [of xs xs cf] by (simp add: merge_union_def)

end

lemma differing_Nil: "differing fs = [] \<longleftrightarrow> list_all snd fs"
  by (auto simp: differing_def filter_empty_conv list_all_iff)

interpretation platform_union: keyed_union "\<lambda>p. platform_key_of (bp_base_url p)" diff_platform
  by unfold_locales (auto simp: diff_platform_def differing_Nil)

interpretation credential_union: keyed_union cred_key diff_credential
  by unfold_locales (auto simp: diff_credential_def differing_Nil)

interpretation rapi_union: keyed_union rapi_key diff_rapi
  by unfold_locales (auto simp: diff_rapi_def differing_Nil)

interpretation binding_union: keyed_union binding_key diff_binding
  by unfold_locales (auto simp: diff_binding_def differing_Nil)

section \<open>Names\<close>

lemma local_name_inj: "local_name b i = local_name b j \<Longrightarrow> i = j"
  by (simp add: local_name_def nat_str_inj)

text \<open>The bounded search always finds a free name, since the numbered names are distinct and there are
  more of them than names taken.\<close>

lemma alloc_name_fresh: "alloc_name base taken \<notin> set taken"
proof (cases "base \<in> set taken")
  case True
  let ?cands = "map (local_name base) [2..<length taken + 3]"
  have "distinct ?cands" by (auto simp: distinct_map inj_on_def dest: local_name_inj)
  then have "card (set ?cands) = length taken + 1" using distinct_card by fastforce
  moreover have "card (set taken) \<le> length taken" by (rule card_length)
  ultimately have "\<not> set ?cands \<subseteq> set taken"
    using card_mono [of "set taken" "set ?cands"] by auto
  then have "find (\<lambda>c. c \<notin> set taken) ?cands \<noteq> None" by (auto simp: find_None_iff)
  then obtain c where c: "find (\<lambda>c. c \<notin> set taken) ?cands = Some c" by blast
  then have "c \<notin> set taken" by (auto simp: find_Some_iff)
  with True c show ?thesis by (simp add: alloc_name_def)
next
  case False
  then show ?thesis by (simp add: alloc_name_def)
qed

lemma local_name_2: "local_name a 2 = a @ ''#local2''"
proof -
  have "char_of (of_char (CHR ''2'') :: nat) = CHR ''2''" by (rule char_of_char)
  then show ?thesis by (simp add: local_name_def nat_str.simps)
qed

lemma alloc_name_first:
  "a \<in> set taken \<Longrightarrow> local_name a 2 \<notin> set taken \<Longrightarrow> alloc_name a taken = local_name a 2"
  by (simp add: alloc_name_def upt_conv_Cons)

definition reserved_free :: "string list \<Rightarrow> bool" where
  "reserved_free as \<longleftrightarrow> (\<forall>a \<in> set as. \<not> str_contains a ''#local'')"

lemma local_name_reserved: "str_contains (local_name a 2) ''#local''"
  unfolding str_contains_iff by (intro exI [of _ a] exI [of _ "''2''"]) (simp add: local_name_2)

lemma local_name_2_inj: "local_name a 2 = local_name b 2 \<Longrightarrow> a = b"
  by (simp add: local_name_2)

section \<open>What is emitted for each name\<close>

text \<open>The models emitted for one name, with their chains and final names.\<close>

definition alias_items :: "(string \<Rightarrow> string) \<Rightarrow> (string \<Rightarrow> string) \<Rightarrow> def_bundle \<Rightarrow> def_bundle \<Rightarrow> string
    \<Rightarrow> (b_lapi \<times> b_order list \<times> string) list" where
  "alias_items ulow sha center local a =
     (let cc = group_chain (b_orders center) a; lc = group_chain (b_orders local) a;
          level = compare_chains ulow sha cc lc in
      case (lapi_map (b_lapis center) a, lapi_map (b_lapis local) a) of
        (None, None) \<Rightarrow> []
      | (Some c, None) \<Rightarrow> [(c, cc, a)]
      | (None, Some l) \<Rightarrow> [(l, lc, a)]
      | (Some c, Some l) \<Rightarrow>
          if level \<in> {L0, L2c} then [(c, cc, a)]
          else if level = L2l then [(l, lc, a)]
          else [(c, cc, a), (l\<lparr>bl_alias := local_name a 2\<rparr>, lc, local_name a 2)])"

definition item_chain :: "endpoint list \<Rightarrow> b_lapi \<times> b_order list \<times> string \<Rightarrow> b_order list" where
  "item_chain eps it = map (\<lambda>ord. ord\<lparr>bo_lapi_alias := snd (snd it)\<rparr>)
     (filter (\<lambda>ord. order_endpoint ord \<in> set eps) (fst (snd it)))"

lemma emit_lapi_simps [simp]:
  "ms_lapis (emit_lapi eps l ch a st) = ms_lapis st @ [l]"
  "ms_chains (emit_lapi eps l ch a st) = ms_chains st @ item_chain eps (l, ch, a)"
  "ms_taken (emit_lapi eps l ch a st) = ms_taken st"
  by (simp_all add: emit_lapi_def filter_chain_def item_chain_def Let_def)

lemma merge_state_simps [simp]:
  "ms_lapis (take_name a st) = ms_lapis st" "ms_chains (take_name a st) = ms_chains st"
  "ms_taken (take_name a st) = a # ms_taken st"
  "ms_lapis (decide d st) = ms_lapis st" "ms_chains (decide d st) = ms_chains st"
  "ms_taken (decide d st) = ms_taken st"
  "ms_lapis (note_local a st) = ms_lapis st" "ms_chains (note_local a st) = ms_chains st"
  "ms_taken (note_local a st) = ms_taken st"
  by (simp_all add: take_name_def decide_def note_local_def)

lemma merge_alias_items:
  assumes "local_name a 2 \<notin> set (ms_taken st)"
  shows "ms_lapis (merge_alias ulow sha eps c l a st) =
      ms_lapis st @ map fst (alias_items ulow sha c l a)"
    and "ms_chains (merge_alias ulow sha eps c l a st) =
      ms_chains st @ concat (map (item_chain eps) (alias_items ulow sha c l a))"
    and "set (ms_taken (merge_alias ulow sha eps c l a st)) \<subseteq> set (ms_taken st) \<union> {a, local_name a 2}"
proof -
  have "local_name a 2 \<noteq> a" by (simp add: local_name_2)
  with assms have n: "alloc_name a (a # ms_taken st) = local_name a 2"
    by (intro alloc_name_first) auto
  show "ms_lapis (merge_alias ulow sha eps c l a st) =
      ms_lapis st @ map fst (alias_items ulow sha c l a)"
    "ms_chains (merge_alias ulow sha eps c l a st) =
      ms_chains st @ concat (map (item_chain eps) (alias_items ulow sha c l a))"
    "set (ms_taken (merge_alias ulow sha eps c l a st)) \<subseteq> set (ms_taken st) \<union> {a, local_name a 2}"
    by (auto simp: merge_alias_def alias_items_def Let_def n split: option.split)
qed

lemma merge_fold_items:
  assumes "distinct names" and "reserved_free names"
    and "\<forall>t \<in> set (ms_taken st). \<forall>a \<in> set names. t \<noteq> local_name a 2"
  shows "ms_lapis (fold (merge_alias ulow sha eps c l) names st) =
      ms_lapis st @ map fst (concat (map (alias_items ulow sha c l) names)) \<and>
    ms_chains (fold (merge_alias ulow sha eps c l) names st) =
      ms_chains st @ concat (map (item_chain eps) (concat (map (alias_items ulow sha c l) names)))"
  using assms
proof (induction names arbitrary: st)
  case (Cons a names)
  let ?st = "merge_alias ulow sha eps c l a st"
  have free: "local_name a 2 \<notin> set (ms_taken st)" using Cons.prems(3) by auto
  note items = merge_alias_items [OF free, of ulow sha eps c l]
  have "t \<noteq> local_name b 2" if "t \<in> set (ms_taken ?st)" "b \<in> set names" for t b
  proof -
    have "t \<in> set (ms_taken st) \<or> t = a \<or> t = local_name a 2" using that(1) items(3) by auto
    then consider "t \<in> set (ms_taken st)" | "t = a" | "t = local_name a 2" by blast
    then show ?thesis
    proof cases
      case 1
      with that(2) Cons.prems(3) show ?thesis by simp
    next
      case 2
      with Cons.prems(2) local_name_reserved [of b] show ?thesis by (auto simp: reserved_free_def)
    next
      case 3
      with that(2) Cons.prems(1) local_name_2_inj [of a b] show ?thesis by auto
    qed
  qed
  moreover have "distinct names" "reserved_free names" using Cons.prems by (auto simp: reserved_free_def)
  ultimately show ?case using Cons.IH [of ?st] items(1,2) by simp
qed simp

section \<open>The result is valid\<close>

lemma lapi_map_Some: "lapi_map ls a = Some l \<Longrightarrow> l \<in> set ls \<and> bl_alias l = a"
  unfolding lapi_map_def by (drule map_of_SomeD) auto

lemma lapi_map_None: "lapi_map ls a = None \<longleftrightarrow> a \<notin> bl_alias ` set ls"
  by (auto simp: lapi_map_def map_of_eq_None_iff image_iff)

lemma group_chain_props:
  "set (group_chain ords a) = {ord \<in> set ords. bo_lapi_alias ord = a}"
  "distinct (map order_endpoint (group_chain ords a)) =
     distinct (map order_endpoint (filter (\<lambda>ord. bo_lapi_alias ord = a) ords))"
  by (auto simp: group_chain_def sort_orders_def)

lemma distinct_group_endpoints:
  "distinct (map (\<lambda>ord. (bo_lapi_alias ord, order_endpoint ord)) ords) \<Longrightarrow>
   distinct (map order_endpoint (group_chain ords a))"
  unfolding group_chain_props by (induction ords) (auto simp: image_iff)

lemma sum_list_image_mset:
  "(\<Sum>a\<leftarrow>xs. image_mset k (f a)) = image_mset k (\<Sum>a\<leftarrow>xs. f a)"
  by (induction xs) simp_all

lemma mset_renumber:
  "mset (map (\<lambda>ord. (bo_lapi_alias ord, order_endpoint ord)) (renumber_chains ords)) =
   mset (map (\<lambda>ord. (bo_lapi_alias ord, order_endpoint ord)) ords)"
proof -
  let ?k = "\<lambda>ord. (bo_lapi_alias ord, order_endpoint ord)"
  have n: "map ?k (number_chain ch) = map ?k ch" for ch
    by (rule nth_equalityI) (simp_all add: number_chain_def nth_enumerate_eq order_endpoint_def)
  have g: "mset (map ?k (group_chain ords a)) = image_mset ?k (filter_mset (\<lambda>ord. bo_lapi_alias ord = a) (mset ords))" for a
    by (simp add: group_chain_def sort_orders_def)
  have split: "(\<Sum>a\<leftarrow>names. filter_mset (\<lambda>ord. bo_lapi_alias ord = a) M) = M"
    if "distinct names" "\<forall>ord \<in># M. bo_lapi_alias ord \<in> set names" for names M
    using that
  proof (induction names arbitrary: M)
    case (Cons a names)
    let ?M = "filter_mset (\<lambda>ord. bo_lapi_alias ord \<noteq> a) M"
    have "(\<Sum>b\<leftarrow>names. filter_mset (\<lambda>ord. bo_lapi_alias ord = b) M) =
        (\<Sum>b\<leftarrow>names. filter_mset (\<lambda>ord. bo_lapi_alias ord = b) ?M)"
      using Cons.prems(1) by (intro arg_cong [where f = sum_list] map_cong)
        (auto simp: filter_filter_mset intro!: filter_mset_cong)
    also have "\<dots> = ?M" using Cons.prems by (intro Cons.IH) auto
    finally show ?case
      using multiset_partition [of M "\<lambda>ord. bo_lapi_alias ord = a"] by simp
  qed simp
  let ?names = "sort (remdups (map bo_lapi_alias ords))"
  have "mset (map ?k (renumber_chains ords)) = (\<Sum>a\<leftarrow>?names. mset (map ?k (group_chain ords a)))"
    by (simp add: renumber_chains_def map_concat mset_concat n comp_def)
  also have "\<dots> = image_mset ?k (\<Sum>a\<leftarrow>?names. filter_mset (\<lambda>ord. bo_lapi_alias ord = a) (mset ords))"
    unfolding g by (rule sum_list_image_mset)
  also have "\<dots> = image_mset ?k (mset ords)" by (subst split) auto
  finally show ?thesis by simp
qed

lemma set_renumber_keys:
  "(\<lambda>ord. (bo_lapi_alias ord, order_endpoint ord)) ` set (renumber_chains ords) =
   (\<lambda>ord. (bo_lapi_alias ord, order_endpoint ord)) ` set ords"
  using arg_cong [OF mset_renumber [of ords], of set_mset] by simp

lemma trim_front_keeps: "set s \<subseteq> set (trim_front rs s) \<union> \<Union> (set ` set rs)"
proof (induction rs s rule: trim_front.induct)
  case (1 rs s)
  show ?case
  proof (cases "s = [] \<or> rune_at rs s = 0")
    case True
    then show ?thesis by (subst trim_front.simps) simp
  next
    case False
    let ?n = "rune_at rs s"
    obtain r where r: "find (has_prefix s) rs = Some r" "?n = length r"
      using False by (auto simp: rune_at_def split: option.splits)
    then have "take ?n s = r" "r \<in> set rs"
      by (auto simp: find_Some_iff has_prefix_def)
    then have "set (take ?n s) \<subseteq> \<Union> (set ` set rs)" by auto
    moreover have "trim_front rs s = trim_front rs (drop ?n s)"
      using False by (subst trim_front.simps) simp
    moreover have "set s = set (take ?n s) \<union> set (drop ?n s)"
      by (metis append_take_drop_id set_append)
    ultimately show ?thesis using 1 [OF False] by auto
  qed
qed

lemma hash_no_space: "CHR ''#'' \<notin> \<Union> (set ` set space_runes)"
  by code_simp

lemma trim_space_hash: "CHR ''#'' \<in> set s \<Longrightarrow> trim_space s \<noteq> []"
proof -
  assume "CHR ''#'' \<in> set s"
  then have "CHR ''#'' \<in> set (rev (trim_front space_runes s))"
    using trim_front_keeps [of s space_runes] hash_no_space by auto
  moreover have "CHR ''#'' \<notin> \<Union> (set ` set (map rev space_runes))" using hash_no_space by auto
  ultimately have "CHR ''#'' \<in> set (trim_front (map rev space_runes) (rev (trim_front space_runes s)))"
    using trim_front_keeps [of "rev (trim_front space_runes s)" "map rev space_runes"] by blast
  then show ?thesis by (auto simp: trim_space_def)
qed

lemma local_name_nonempty: "trim_space (local_name a 2) \<noteq> []"
  by (rule trim_space_hash) (simp add: local_name_2)

lemma alias_item_props:
  assumes "it \<in> set (alias_items ulow sha c l a)"
  shows "snd (snd it) \<in> {a, local_name a 2}" and "bl_alias (fst it) = snd (snd it)"
    and "a \<in> bl_alias ` set (b_lapis c) \<union> bl_alias ` set (b_lapis l)"
    and "fst (snd it) = group_chain (b_orders c) a \<or> fst (snd it) = group_chain (b_orders l) a"
  using assms
  by (auto simp: alias_items_def Let_def split: option.splits if_splits
      dest!: lapi_map_Some lapi_map_Some [OF sym] intro: imageI)

lemma alias_items_distinct: "distinct (map (\<lambda>it. snd (snd it)) (alias_items ulow sha c l a))"
  by (auto simp: alias_items_def Let_def local_name_2 split: option.split)

lemma items_distinct:
  assumes "distinct names" and "reserved_free names"
  shows "distinct (map (\<lambda>it. snd (snd it)) (concat (map (alias_items ulow sha c l) names)))"
  using assms
proof (induction names)
  case (Cons a names)
  have "x \<noteq> y" if "x \<in> {a, local_name a 2}" "y \<in> {b, local_name b 2}" "b \<in> set names" for x y b
    using that Cons.prems local_name_reserved [of a] local_name_reserved [of b] local_name_2_inj [of a b]
    by (auto simp: reserved_free_def)
  then have "snd (snd it) \<noteq> snd (snd it')"
    if "it \<in> set (alias_items ulow sha c l a)" "it' \<in> set (alias_items ulow sha c l b)" "b \<in> set names"
    for it it' b
    using alias_item_props(1) [OF that(1)] alias_item_props(1) [OF that(2)] that(3) by blast
  then have "(\<lambda>it. snd (snd it)) ` set (alias_items ulow sha c l a) \<inter>
      (\<lambda>it. snd (snd it)) ` set (concat (map (alias_items ulow sha c l) names)) = {}"
    by fastforce
  moreover have "distinct names" "reserved_free names" using Cons.prems by (auto simp: reserved_free_def)
  ultimately show ?case using Cons.IH alias_items_distinct [of ulow sha c l a]
    by (simp only: list.map concat.simps map_append distinct_append list.set_map)
qed simp

end
