(* ===== verification/MergeValid.thy ===== *)
theory MergeValid
  imports BundleMerge
begin

text \<open>
  What a merge promises, \<open>internal/bundle/merge.go\<close>: the result of two valid snapshots passes
  \<open>Validate\<close> and loses no key, unless the names reserved for renamed models are already in use.
\<close>

section \<open>The parts of a merge\<close>

definition merged_platforms :: "bool \<Rightarrow> def_bundle \<Rightarrow> def_bundle \<Rightarrow> b_platform list" where
  "merged_platforms cf c l =
     fst (merge_union (\<lambda>p. platform_key_of (bp_base_url p)) diff_platform cf (b_platforms c) (b_platforms l))"

definition merged_credentials :: "bool \<Rightarrow> def_bundle \<Rightarrow> def_bundle \<Rightarrow> b_credential list" where
  "merged_credentials cf c l =
     fst (merge_union cred_key diff_credential cf (b_credentials c) (b_credentials l))"

definition merged_rapis :: "bool \<Rightarrow> def_bundle \<Rightarrow> def_bundle \<Rightarrow> b_rapi list" where
  "merged_rapis cf c l = fst (merge_union rapi_key diff_rapi cf (b_rapis c) (b_rapis l))"

definition merged_bindings :: "bool \<Rightarrow> def_bundle \<Rightarrow> def_bundle \<Rightarrow> b_binding list" where
  "merged_bindings cf c l = fst (merge_union binding_key diff_binding cf (b_bindings c) (b_bindings l))"

lemmas merged_defs = merged_platforms_def merged_credentials_def merged_rapis_def merged_bindings_def

lemma merged_platforms_facts:
  "distinct (map (\<lambda>p. platform_key_of (bp_base_url p)) (merged_platforms cf c l))"
  "(\<lambda>p. platform_key_of (bp_base_url p)) ` set (merged_platforms cf c l) =
     (\<lambda>p. platform_key_of (bp_base_url p)) ` set (b_platforms c) \<union> (\<lambda>p. platform_key_of (bp_base_url p)) ` set (b_platforms l)"
  "set (merged_platforms cf c l) \<subseteq> set (b_platforms c) \<union> set (b_platforms l)"
  unfolding merged_defs by (rule platform_union.union_ok)+

lemma merged_credentials_facts:
  "distinct (map cred_key (merged_credentials cf c l))"
  "cred_key ` set (merged_credentials cf c l) = cred_key ` set (b_credentials c) \<union> cred_key ` set (b_credentials l)"
  "set (merged_credentials cf c l) \<subseteq> set (b_credentials c) \<union> set (b_credentials l)"
  unfolding merged_defs by (rule credential_union.union_ok)+

lemma merged_rapis_facts:
  "distinct (map rapi_key (merged_rapis cf c l))"
  "rapi_key ` set (merged_rapis cf c l) = rapi_key ` set (b_rapis c) \<union> rapi_key ` set (b_rapis l)"
  "set (merged_rapis cf c l) \<subseteq> set (b_rapis c) \<union> set (b_rapis l)"
  unfolding merged_defs by (rule rapi_union.union_ok)+

lemma merged_bindings_facts:
  "distinct (map binding_key (merged_bindings cf c l))"
  "binding_key ` set (merged_bindings cf c l) = binding_key ` set (b_bindings c) \<union> binding_key ` set (b_bindings l)"
  "set (merged_bindings cf c l) \<subseteq> set (b_bindings c) \<union> set (b_bindings l)"
  unfolding merged_defs by (rule binding_union.union_ok)+

lemma merge_parts:
  assumes rapis: "\<forall>r \<in> set (merged_rapis (rule \<noteq> RuleLocalWins) c l).
      platform_key_of (br_platform_base_url r) \<in>
        set (map (\<lambda>p. platform_key_of (bp_base_url p)) (merged_platforms (rule \<noteq> RuleLocalWins) c l))"
    and binds: "\<forall>b \<in> set (merged_bindings (rule \<noteq> RuleLocalWins) c l).
      fst (binding_key b) \<in> rapi_key ` set (merged_rapis (rule \<noteq> RuleLocalWins) c l) \<and>
      snd (binding_key b) \<in> cred_key ` set (merged_credentials (rule \<noteq> RuleLocalWins) c l)"
  shows "b_platforms (fst (merge_out ulow sha c l rule)) = merged_platforms (rule \<noteq> RuleLocalWins) c l"
    and "b_credentials (fst (merge_out ulow sha c l rule)) = merged_credentials (rule \<noteq> RuleLocalWins) c l"
    and "b_rapis (fst (merge_out ulow sha c l rule)) = merged_rapis (rule \<noteq> RuleLocalWins) c l"
    and "b_bindings (fst (merge_out ulow sha c l rule)) = merged_bindings (rule \<noteq> RuleLocalWins) c l"
    and "b_lapis (fst (merge_out ulow sha c l rule)) = ms_lapis (merge_lapis_and_chains ulow sha c l
          (map rapi_key (merged_rapis (rule \<noteq> RuleLocalWins) c l)))"
    and "b_orders (fst (merge_out ulow sha c l rule)) = ms_chains (merge_lapis_and_chains ulow sha c l
          (map rapi_key (merged_rapis (rule \<noteq> RuleLocalWins) c l)))"
    and "mr_dropped_rapis (snd (merge_out ulow sha c l rule)) = []"
    and "mr_dropped_bindings (snd (merge_out ulow sha c l rule)) = []"
proof -
  note r = rapis [unfolded merged_defs] and b = binds [unfolded merged_defs]
  have fr: "filter (\<lambda>r. platform_key_of (br_platform_base_url r) \<in> set plats) rs = rs"
    "filter (\<lambda>r. platform_key_of (br_platform_base_url r) \<notin> set plats) rs = []"
    if "\<forall>r \<in> set rs. platform_key_of (br_platform_base_url r) \<in> set plats" for plats rs
    using that by (simp_all add: filter_empty_conv)
  have fb: "filter (\<lambda>b. fst (binding_key b) \<in> E \<and> snd (binding_key b) \<in> C) bs = bs"
    "filter (\<lambda>b. fst (binding_key b) \<in> E \<longrightarrow> snd (binding_key b) \<notin> C) bs = []"
    if "\<forall>b \<in> set bs. fst (binding_key b) \<in> E \<and> snd (binding_key b) \<in> C" for E C bs
    using that by (simp_all add: filter_empty_conv)
  note defs = merge_out_def merge_platforms_def merge_credentials_def merge_rapis_def merge_bindings_def
    merged_defs Let_def split_beta
  show "b_platforms (fst (merge_out ulow sha c l rule)) = merged_platforms (rule \<noteq> RuleLocalWins) c l"
    "b_credentials (fst (merge_out ulow sha c l rule)) = merged_credentials (rule \<noteq> RuleLocalWins) c l"
    by (simp_all add: defs)
  show "b_rapis (fst (merge_out ulow sha c l rule)) = merged_rapis (rule \<noteq> RuleLocalWins) c l"
    "mr_dropped_rapis (snd (merge_out ulow sha c l rule)) = []"
    using fr [OF r] by (simp_all add: defs)
  show "b_bindings (fst (merge_out ulow sha c l rule)) = merged_bindings (rule \<noteq> RuleLocalWins) c l"
    "mr_dropped_bindings (snd (merge_out ulow sha c l rule)) = []"
    "b_lapis (fst (merge_out ulow sha c l rule)) = ms_lapis (merge_lapis_and_chains ulow sha c l
          (map rapi_key (merged_rapis (rule \<noteq> RuleLocalWins) c l)))"
    "b_orders (fst (merge_out ulow sha c l rule)) = ms_chains (merge_lapis_and_chains ulow sha c l
          (map rapi_key (merged_rapis (rule \<noteq> RuleLocalWins) c l)))"
    using fr [OF r] fb [OF b] by (simp_all add: defs del: set_filter)
qed

section \<open>The models and chains\<close>

abbreviation merge_items where
  "merge_items ulow sha c l \<equiv> concat (map (alias_items ulow sha c l) (merge_aliases c l))"

lemma merge_models_items:
  assumes "reserved_free (merge_aliases c l)"
  shows "ms_lapis (merge_lapis_and_chains ulow sha c l eps) = map fst (merge_items ulow sha c l)"
    and "ms_chains (merge_lapis_and_chains ulow sha c l eps) =
      renumber_chains (concat (map (item_chain eps) (merge_items ulow sha c l)))"
proof -
  let ?st = "\<lparr>ms_lapis = [], ms_chains = [], ms_dropped = [], ms_local_only = [], ms_decisions = [],
    ms_taken = []\<rparr>"
  have "distinct (merge_aliases c l)" by (simp add: merge_aliases_def)
  note items = merge_fold_items [OF this assms, of ?st ulow sha eps c l]
  show "ms_lapis (merge_lapis_and_chains ulow sha c l eps) = map fst (merge_items ulow sha c l)"
    "ms_chains (merge_lapis_and_chains ulow sha c l eps) =
      renumber_chains (concat (map (item_chain eps) (merge_items ulow sha c l)))"
    using items by (simp_all add: merge_lapis_and_chains_def Let_def)
qed

lemma item_chain_keys:
  "map (\<lambda>ord. (bo_lapi_alias ord, order_endpoint ord)) (item_chain eps it) =
   map (Pair (snd (snd it))) (map order_endpoint (filter (\<lambda>ord. order_endpoint ord \<in> set eps) (fst (snd it))))"
  by (simp add: item_chain_def order_endpoint_def comp_def)

lemma chains_distinct:
  assumes "distinct (map (\<lambda>it. snd (snd it)) items)"
    and "\<forall>it \<in> set items. distinct (map order_endpoint (fst (snd it)))"
  shows "distinct (map (\<lambda>ord. (bo_lapi_alias ord, order_endpoint ord)) (concat (map (item_chain eps) items)))"
  using assms
proof (induction items)
  case (Cons it items)
  have "distinct (map (\<lambda>ord. (bo_lapi_alias ord, order_endpoint ord)) (item_chain eps it))"
    using Cons.prems unfolding item_chain_keys by (auto simp: distinct_map inj_on_def)
  moreover have "k \<notin> (\<lambda>ord. (bo_lapi_alias ord, order_endpoint ord)) ` set (concat (map (item_chain eps) items))"
    if k: "k \<in> (\<lambda>ord. (bo_lapi_alias ord, order_endpoint ord)) ` set (item_chain eps it)" for k
  proof
    have name: "fst k = snd (snd i)" if "k \<in> (\<lambda>ord. (bo_lapi_alias ord, order_endpoint ord)) ` set (item_chain eps i)" for i
      using that by (auto simp: item_chain_def)
    assume "k \<in> (\<lambda>ord. (bo_lapi_alias ord, order_endpoint ord)) ` set (concat (map (item_chain eps) items))"
    then obtain i where i: "i \<in> set items" "k \<in> (\<lambda>ord. (bo_lapi_alias ord, order_endpoint ord)) ` set (item_chain eps i)"
      unfolding set_concat list.set_map by blast
    then have "snd (snd it) = snd (snd i)" using name [OF k] name [OF i(2)] by simp
    moreover have "snd (snd it) \<notin> (\<lambda>i. snd (snd i)) ` set items" using Cons.prems(1) by simp
    ultimately show False using i(1) by blast
  qed
  then have "(\<lambda>ord. (bo_lapi_alias ord, order_endpoint ord)) ` set (item_chain eps it) \<inter>
      (\<lambda>ord. (bo_lapi_alias ord, order_endpoint ord)) ` set (concat (map (item_chain eps) items)) = {}"
    by blast
  moreover have "distinct (map (\<lambda>ord. (bo_lapi_alias ord, order_endpoint ord)) (concat (map (item_chain eps) items)))"
    using Cons.prems by (intro Cons.IH) simp_all
  ultimately show ?case
    unfolding list.map concat.simps map_append distinct_append list.set_map by (intro conjI)
qed simp

lemma merged_models_valid:
  fixes ulow sha :: "string \<Rightarrow> string" and eps :: "endpoint list"
  assumes c: "valid_bundle c" and l: "valid_bundle l" and free: "reserved_free (merge_aliases c l)"
  defines "st \<equiv> merge_lapis_and_chains ulow sha c l eps"
  shows "distinct (map bl_alias (ms_lapis st))"
    and "\<forall>a \<in> set (map bl_alias (ms_lapis st)). trim_space a \<noteq> []"
    and "distinct (map (\<lambda>ord. (bo_lapi_alias ord, order_endpoint ord)) (ms_chains st))"
    and "\<forall>ord \<in> set (ms_chains st). bo_lapi_alias ord \<in> bl_alias ` set (ms_lapis st) \<and> order_endpoint ord \<in> set eps"
proof -
  let ?items = "merge_items ulow sha c l"
  have d: "distinct (map (\<lambda>it. snd (snd it)) ?items)"
    using items_distinct [OF _ free] by (simp add: merge_aliases_def)
  have nm: "map bl_alias (map fst ?items) = map (\<lambda>it. snd (snd it)) ?items"
    using alias_item_props(2) by fastforce
  have props: "\<exists>a \<in> bl_alias ` (set (b_lapis c) \<union> set (b_lapis l)). snd (snd it) \<in> {a, local_name a 2} \<and>
      (fst (snd it) = group_chain (b_orders c) a \<or> fst (snd it) = group_chain (b_orders l) a)"
    if it: "it \<in> set ?items" for it
  proof -
    obtain a where "it \<in> set (alias_items ulow sha c l a)" using it by auto
    from alias_item_props [OF this] show ?thesis by blast
  qed
  have ords: "distinct (map (\<lambda>ord. (bo_lapi_alias ord, order_endpoint ord)) (b_orders c))"
    "distinct (map (\<lambda>ord. (bo_lapi_alias ord, order_endpoint ord)) (b_orders l))"
    and names: "\<forall>a \<in> bl_alias ` (set (b_lapis c) \<union> set (b_lapis l)). trim_space a \<noteq> []"
    using c l by (auto simp: valid_bundle_def Let_def)
  note st = merge_models_items [OF free, of ulow sha eps, folded st_def]
  show "distinct (map bl_alias (ms_lapis st))" unfolding st nm by (rule d)
  show "\<forall>a \<in> set (map bl_alias (ms_lapis st)). trim_space a \<noteq> []"
    unfolding st nm using props names local_name_nonempty by fastforce
  have "\<forall>it \<in> set ?items. distinct (map order_endpoint (fst (snd it)))"
    using props distinct_group_endpoints [OF ords(1)] distinct_group_endpoints [OF ords(2)] by metis
  then have "distinct (map (\<lambda>ord. (bo_lapi_alias ord, order_endpoint ord)) (concat (map (item_chain eps) ?items)))"
    by (rule chains_distinct [OF d])
  then show "distinct (map (\<lambda>ord. (bo_lapi_alias ord, order_endpoint ord)) (ms_chains st))"
    unfolding st using mset_eq_imp_distinct_iff [OF mset_renumber] by blast
  have kept: "bo_lapi_alias ord \<in> set (map bl_alias (map fst ?items)) \<and> order_endpoint ord \<in> set eps"
    if "ord \<in> set (concat (map (item_chain eps) ?items))" for ord
  proof -
    obtain it where it: "it \<in> set ?items" "ord \<in> set (item_chain eps it)"
      using \<open>ord \<in> set (concat (map (item_chain eps) ?items))\<close> unfolding set_concat list.set_map by blast
    then have "bo_lapi_alias ord = snd (snd it)" "order_endpoint ord \<in> set eps"
      by (auto simp: item_chain_def order_endpoint_def)
    then show ?thesis unfolding nm list.set_map using it(1) by blast
  qed
  have aliases: "bl_alias ` set (map fst ?items) = set (map bl_alias (map fst ?items))"
    by (simp only: list.set_map)
  show "\<forall>ord \<in> set (ms_chains st). bo_lapi_alias ord \<in> bl_alias ` set (ms_lapis st) \<and> order_endpoint ord \<in> set eps"
    unfolding st aliases
  proof
    fix ord assume "ord \<in> set (renumber_chains (concat (map (item_chain eps) ?items)))"
    then have "(bo_lapi_alias ord, order_endpoint ord) \<in> (\<lambda>ord. (bo_lapi_alias ord, order_endpoint ord)) `
        set (renumber_chains (concat (map (item_chain eps) ?items)))"
      by (rule imageI)
    then have "(bo_lapi_alias ord, order_endpoint ord) \<in>
        (\<lambda>ord. (bo_lapi_alias ord, order_endpoint ord)) ` set (concat (map (item_chain eps) ?items))"
      by (simp only: set_renumber_keys)
    then obtain ord' where "ord' \<in> set (concat (map (item_chain eps) ?items))"
      "bo_lapi_alias ord = bo_lapi_alias ord'" "order_endpoint ord = order_endpoint ord'" by blast
    with kept [of ord'] show "bo_lapi_alias ord \<in> set (map bl_alias (map fst ?items)) \<and>
        order_endpoint ord \<in> set eps" by (simp only:)
  qed
qed

section \<open>No model and no chain is lost\<close>

interpretation chain_order: weak_order "\<lambda>a b. bo_order_index a < bo_order_index b"
  by unfold_locales auto

lemma filter_concat_named:
  assumes "\<forall>x \<in> set xs. \<forall>y \<in> set (g x). h y = f x"
  shows "a \<notin> f ` set xs \<Longrightarrow> filter (\<lambda>y. h y = a) (concat (map g xs)) = []"
    and "distinct (map f xs) \<Longrightarrow> x \<in> set xs \<Longrightarrow> f x = a \<Longrightarrow> filter (\<lambda>y. h y = a) (concat (map g xs)) = g x"
  using assms
proof (induction xs)
  case (Cons z zs)
  {
    case 1
    have "filter (\<lambda>y. h y = a) (g z) = []" using 1 by (auto simp: filter_empty_conv)
    with Cons.IH(1) 1 show ?case by simp
  next
    case 2
    have z: "filter (\<lambda>y. h y = a) (g z) = (if f z = a then g z else [])"
      using 2(4) by (auto simp: filter_id_conv filter_empty_conv)
    show ?case
    proof (cases "f z = a")
      case True
      with 2 have "x = z" "a \<notin> f ` set zs" by (auto simp: image_iff)
      with z True Cons.IH(1) 2(4) show ?thesis by simp
    next
      case False
      with z Cons.IH(2) 2 show ?thesis by auto
    qed
  }
qed simp_all

lemma number_chain_endpoints: "map order_endpoint (number_chain ch) = map order_endpoint ch"
  by (rule nth_equalityI) (simp_all add: number_chain_def nth_enumerate_eq order_endpoint_def)

lemma number_chain_alias: "ord \<in> set (number_chain (group_chain ords a)) \<Longrightarrow> bo_lapi_alias ord = a"
  by (auto simp: number_chain_def in_set_enumerate_eq group_chain_props dest!: nth_mem)

lemma number_chain_sorted: "stable_sort (\<lambda>a b. bo_order_index a < bo_order_index b) (number_chain ch) = number_chain ch"
  by (rule chain_order.sort_id) (simp add: number_chain_def sorted_wrt_iff_nth_less nth_enumerate_eq)

lemma renumber_chain:
  "map order_endpoint (group_chain (renumber_chains ords) a) = map order_endpoint (group_chain ords a)"
proof (cases "a \<in> bo_lapi_alias ` set ords")
  case True
  have "filter (\<lambda>ord. bo_lapi_alias ord = a) (renumber_chains ords) = number_chain (group_chain ords a)"
    unfolding renumber_chains_def
    by (rule filter_concat_named(2) [where f = "\<lambda>a. a"]) (use True in \<open>auto dest: number_chain_alias\<close>)
  then show ?thesis
    by (simp add: group_chain_def [of "renumber_chains ords"] sort_orders_def number_chain_sorted number_chain_endpoints)
next
  case False
  have "filter (\<lambda>ord. bo_lapi_alias ord = a) (renumber_chains ords) = []"
    unfolding renumber_chains_def
    by (rule filter_concat_named(1) [where f = "\<lambda>a. a"]) (use False in \<open>auto dest: number_chain_alias\<close>)
  moreover have "filter (\<lambda>ord. bo_lapi_alias ord = a) ords = []" using False by (auto simp: filter_empty_conv)
  ultimately show ?thesis by (simp add: group_chain_def sort_orders_def stable_sort_def)
qed

lemma item_chain_sorted:
  assumes "fst (snd it) = group_chain ords a"
  shows "stable_sort (\<lambda>a b. bo_order_index a < bo_order_index b) (item_chain eps it) = item_chain eps it"
proof (rule chain_order.sort_id)
  have "sorted_wrt (\<lambda>x y. \<not> bo_order_index y < bo_order_index x) (group_chain ords a)"
    unfolding group_chain_def sort_orders_def by (rule chain_order.sort_ordered)
  then show "sorted_wrt (\<lambda>x y. \<not> bo_order_index y < bo_order_index x) (item_chain eps it)"
    unfolding item_chain_def assms sorted_wrt_map by (simp add: sorted_wrt_filter)
qed

lemma item_chain_endpoints:
  "\<forall>ord \<in> set (fst (snd it)). order_endpoint ord \<in> set eps \<Longrightarrow>
   map order_endpoint (item_chain eps it) = map order_endpoint (fst (snd it))"
  by (simp add: item_chain_def order_endpoint_def comp_def)

text \<open>No endpoint of a chain is missing from the result, so no chain entry is dropped.\<close>

definition covers :: "endpoint list \<Rightarrow> def_bundle \<Rightarrow> bool" where
  "covers eps b \<longleftrightarrow> (\<forall>ord \<in> set (b_orders b). order_endpoint ord \<in> set eps)"

lemma covers_chain: "covers eps b \<Longrightarrow> ord \<in> set (group_chain (b_orders b) a) \<Longrightarrow> order_endpoint ord \<in> set eps"
  by (simp add: covers_def group_chain_props)

lemma merged_chain:
  assumes free: "reserved_free (merge_aliases c l)" and cov: "covers eps c" "covers eps l"
    and it: "it \<in> set (merge_items ulow sha c l)"
  shows "map order_endpoint (group_chain (ms_chains (merge_lapis_and_chains ulow sha c l eps)) (snd (snd it))) =
      map order_endpoint (fst (snd it))"
proof -
  let ?items = "merge_items ulow sha c l"
  have d: "distinct (map (\<lambda>it. snd (snd it)) ?items)"
    using items_distinct [OF _ free] by (simp add: merge_aliases_def)
  obtain a where a: "it \<in> set (alias_items ulow sha c l a)" using it by auto
  have "filter (\<lambda>ord. bo_lapi_alias ord = snd (snd it)) (concat (map (item_chain eps) ?items)) = item_chain eps it"
    by (rule filter_concat_named(2) [where f = "\<lambda>it. snd (snd it)", OF _ d it refl]) (auto simp: item_chain_def)
  moreover obtain ords where ords: "ords \<in> {b_orders c, b_orders l}" "fst (snd it) = group_chain ords a"
    using alias_item_props(4) [OF a] by blast
  moreover have "\<forall>ord \<in> set (fst (snd it)). order_endpoint ord \<in> set eps"
    using ords covers_chain [OF cov(1)] covers_chain [OF cov(2)] by auto
  ultimately show ?thesis
    unfolding merge_models_items(2) [OF free] renumber_chain
    by (simp add: group_chain_def [of "concat _"] sort_orders_def item_chain_sorted [OF ords(2)] item_chain_endpoints)
qed

lemma merge_alias_dropped:
  assumes cov: "covers eps c" "covers eps l"
  shows "ms_dropped (merge_alias ulow sha eps c l a st) = ms_dropped st"
proof -
  have emit: "ms_dropped (emit_lapi eps m (group_chain (b_orders b) a) n st) = ms_dropped st"
    if "covers eps b" for b m n st
    using covers_chain [OF that] by (auto simp: emit_lapi_def filter_chain_def Let_def filter_empty_conv)
  have keep: "ms_dropped (take_name n st) = ms_dropped st" "ms_dropped (decide d st) = ms_dropped st"
    "ms_dropped (note_local n st) = ms_dropped st" for n d st
    by (simp_all add: take_name_def decide_def note_local_def)
  show ?thesis
    by (simp add: merge_alias_def Let_def keep emit [OF cov(1)] emit [OF cov(2)] split: option.split)
qed

lemma merge_dropped_none:
  assumes "covers eps c" "covers eps l"
  shows "ms_dropped (merge_lapis_and_chains ulow sha c l eps) = []"
proof -
  have "ms_dropped (fold (merge_alias ulow sha eps c l) names st) = ms_dropped st" for names st
    by (induction names arbitrary: st) (simp_all add: merge_alias_dropped [OF assms])
  then show ?thesis by (simp add: merge_lapis_and_chains_def Let_def)
qed


text \<open>The names of the models of a snapshot, the chain of endpoints a request for a name walks, and what it
  means that a model of one snapshot is in another, under the same or another name.\<close>

definition models_of :: "def_bundle \<Rightarrow> string set" where
  "models_of b = bl_alias ` set (b_lapis b)"

definition chain_of :: "def_bundle \<Rightarrow> string \<Rightarrow> endpoint list" where
  "chain_of b a = map order_endpoint (group_chain (b_orders b) a)"

definition carries :: "def_bundle \<Rightarrow> string \<Rightarrow> def_bundle \<Rightarrow> string \<Rightarrow> bool" where
  "carries out n b a \<longleftrightarrow> n \<in> models_of out \<and> chain_of out n = chain_of b a"

lemma merged_models:
  assumes free: "reserved_free (merge_aliases c l)" and cov: "covers eps c" "covers eps l"
    and out: "b_lapis out = ms_lapis (merge_lapis_and_chains ulow sha c l eps)"
      "b_orders out = ms_chains (merge_lapis_and_chains ulow sha c l eps)"
  shows "a \<in> models_of c \<Longrightarrow> a \<notin> models_of l \<Longrightarrow> carries out a c a"
    and "a \<in> models_of l \<Longrightarrow> a \<notin> models_of c \<Longrightarrow> carries out a l a"
    and "a \<in> models_of c \<Longrightarrow> a \<in> models_of l \<Longrightarrow>
      (case compare_chains ulow sha (group_chain (b_orders c) a) (group_chain (b_orders l) a) of
         L0 \<Rightarrow> carries out a c a | L2c \<Rightarrow> carries out a c a | L2l \<Rightarrow> carries out a l a
       | _ \<Rightarrow> carries out a c a \<and> carries out (local_name a 2) l a)"
proof -
  have item: "carries out (snd (snd it)) b a"
    if "it \<in> set (alias_items ulow sha c l a)" "a \<in> models_of c \<union> models_of l"
      "fst (snd it) = group_chain (b_orders b) a" for it b
  proof -
    have it: "it \<in> set (merge_items ulow sha c l)"
      using that(1,2) by (auto simp: merge_aliases_def models_of_def)
    have "bl_alias (fst it) = snd (snd it)" by (rule alias_item_props(2) [OF that(1)])
    then have "snd (snd it) \<in> models_of out"
      using imageI [OF it, of "\<lambda>it. bl_alias (fst it)"]
      unfolding models_of_def out merge_models_items(1) [OF free] by (simp add: image_image)
    with merged_chain [OF free cov it] that(3) show ?thesis
      by (simp add: carries_def chain_of_def out)
  qed
  have known: "a \<in> models_of b \<longleftrightarrow> (\<exists>m. lapi_map (b_lapis b) a = Some m)" for b
    using lapi_map_None [of "b_lapis b" a] by (auto simp: models_of_def)
  note def = alias_items_def Let_def
  {
    assume "a \<in> models_of c" "a \<notin> models_of l"
    with known [of c] known [of l] obtain m where "alias_items ulow sha c l a = [(m, group_chain (b_orders c) a, a)]"
      by (auto simp: def)
    with item [of "(m, group_chain (b_orders c) a, a)" c] \<open>a \<in> models_of c\<close> show "carries out a c a" by simp
  next
    assume "a \<in> models_of l" "a \<notin> models_of c"
    with known [of c] known [of l] obtain m where "alias_items ulow sha c l a = [(m, group_chain (b_orders l) a, a)]"
      by (auto simp: def)
    with item [of "(m, group_chain (b_orders l) a, a)" l] \<open>a \<in> models_of l\<close> show "carries out a l a" by simp
  next
    assume both: "a \<in> models_of c" "a \<in> models_of l"
    then obtain m n where mn: "lapi_map (b_lapis c) a = Some m" "lapi_map (b_lapis l) a = Some n"
      using known by blast
    let ?lv = "compare_chains ulow sha (group_chain (b_orders c) a) (group_chain (b_orders l) a)"
    let ?cm = "(m, group_chain (b_orders c) a, a)"
    have items: "alias_items ulow sha c l a =
        (if ?lv \<in> {L0, L2c} then [?cm] else if ?lv = L2l then [(n, group_chain (b_orders l) a, a)]
         else [?cm, (n\<lparr>bl_alias := local_name a 2\<rparr>, group_chain (b_orders l) a, local_name a 2)])"
      by (simp add: def mn)
    note it = item [of ?cm c] item [of "(n, group_chain (b_orders l) a, a)" l]
      item [of "(n\<lparr>bl_alias := local_name a 2\<rparr>, group_chain (b_orders l) a, local_name a 2)" l]
    show "case ?lv of L0 \<Rightarrow> carries out a c a | L2c \<Rightarrow> carries out a c a | L2l \<Rightarrow> carries out a l a
       | _ \<Rightarrow> carries out a c a \<and> carries out (local_name a 2) l a"
      by (cases ?lv) (use it both in \<open>simp_all add: items\<close>)
  }
qed

section \<open>Correctness of a merge\<close>

lemma valid_bundleD:
  assumes "valid_bundle b"
  shows "\<forall>k \<in> (\<lambda>p. platform_key_of (bp_base_url p)) ` set (b_platforms b). k \<noteq> []"
    and "\<forall>x \<in> set (b_credentials b). cred_key x \<noteq> [] \<and>
      platform_key_of (bc_platform_base_url x) \<in> (\<lambda>p. platform_key_of (bp_base_url p)) ` set (b_platforms b)"
    and "\<forall>r \<in> set (b_rapis b). trim_space (br_model r) \<noteq> [] \<and>
      platform_key_of (br_platform_base_url r) \<in> (\<lambda>p. platform_key_of (bp_base_url p)) ` set (b_platforms b)"
    and "\<forall>x \<in> set (b_bindings b). fst (binding_key x) \<in> rapi_key ` set (b_rapis b) \<and>
      snd (binding_key x) \<in> cred_key ` set (b_credentials b)"
    and "distinct (map (\<lambda>p. platform_key_of (bp_base_url p)) (b_platforms b))"
    and "distinct (map cred_key (b_credentials b))"
    and "distinct (map rapi_key (b_rapis b))"
    and "distinct (map binding_key (b_bindings b))"
  using assms by (simp_all add: valid_bundle_def Let_def)

lemma merge_references:
  assumes c: "valid_bundle c" and l: "valid_bundle l"
  shows "\<forall>r \<in> set (merged_rapis cf c l). platform_key_of (br_platform_base_url r) \<in>
      set (map (\<lambda>p. platform_key_of (bp_base_url p)) (merged_platforms cf c l)) \<and> trim_space (br_model r) \<noteq> []"
    and "\<forall>b \<in> set (merged_bindings cf c l). fst (binding_key b) \<in> rapi_key ` set (merged_rapis cf c l) \<and>
      snd (binding_key b) \<in> cred_key ` set (merged_credentials cf c l)"
    and "\<forall>x \<in> set (merged_credentials cf c l). cred_key x \<noteq> [] \<and> platform_key_of (bc_platform_base_url x) \<in>
      set (map (\<lambda>p. platform_key_of (bp_base_url p)) (merged_platforms cf c l))"
    and "\<forall>p \<in> set (map (\<lambda>p. platform_key_of (bp_base_url p)) (merged_platforms cf c l)). p \<noteq> []"
proof -
  have plats: "set (map (\<lambda>p. platform_key_of (bp_base_url p)) (merged_platforms cf c l)) =
      (\<lambda>p. platform_key_of (bp_base_url p)) ` set (b_platforms c) \<union>
      (\<lambda>p. platform_key_of (bp_base_url p)) ` set (b_platforms l)"
    unfolding list.set_map by (rule merged_platforms_facts)
  note v = valid_bundleD [OF c] valid_bundleD [OF l]
  show "\<forall>r \<in> set (merged_rapis cf c l). platform_key_of (br_platform_base_url r) \<in>
      set (map (\<lambda>p. platform_key_of (bp_base_url p)) (merged_platforms cf c l)) \<and> trim_space (br_model r) \<noteq> []"
    unfolding plats using v(3) v(11) merged_rapis_facts(3) [of cf c l] by blast
  show "\<forall>b \<in> set (merged_bindings cf c l). fst (binding_key b) \<in> rapi_key ` set (merged_rapis cf c l) \<and>
      snd (binding_key b) \<in> cred_key ` set (merged_credentials cf c l)"
    unfolding merged_rapis_facts merged_credentials_facts
    using v(4) v(12) merged_bindings_facts(3) [of cf c l] by blast
  show "\<forall>x \<in> set (merged_credentials cf c l). cred_key x \<noteq> [] \<and> platform_key_of (bc_platform_base_url x) \<in>
      set (map (\<lambda>p. platform_key_of (bp_base_url p)) (merged_platforms cf c l))"
    unfolding plats using v(2) v(10) merged_credentials_facts(3) [of cf c l] by blast
  show "\<forall>p \<in> set (map (\<lambda>p. platform_key_of (bp_base_url p)) (merged_platforms cf c l)). p \<noteq> []"
    unfolding plats using v(1) v(9) by blast
qed

lemma merge_out_valid:
  assumes c: "valid_bundle c" and l: "valid_bundle l" and free: "reserved_free (merge_aliases c l)"
  shows "valid_bundle (fst (merge_out ulow sha c l rule))"
proof -
  let ?cf = "rule \<noteq> RuleLocalWins"
  note refs = merge_references [OF c l, of ?cf]
  have r: "\<forall>r \<in> set (merged_rapis ?cf c l). platform_key_of (br_platform_base_url r) \<in>
      set (map (\<lambda>p. platform_key_of (bp_base_url p)) (merged_platforms ?cf c l))"
    using refs(1) by blast
  note parts = merge_parts [OF r refs(2), of ulow sha]
  note models = merged_models_valid [OF c l free, of ulow sha "map rapi_key (merged_rapis ?cf c l)"]
  show ?thesis
    unfolding valid_bundle_def Let_def parts
  proof (intro conjI)
    show "\<forall>ord \<in> set (ms_chains (merge_lapis_and_chains ulow sha c l (map rapi_key (merged_rapis ?cf c l)))).
        bo_lapi_alias ord \<in> set (map bl_alias (ms_lapis (merge_lapis_and_chains ulow sha c l (map rapi_key (merged_rapis ?cf c l))))) \<and>
        order_endpoint ord \<in> set (map rapi_key (merged_rapis ?cf c l))"
      unfolding list.set_map using models(4) unfolding list.set_map .
  qed (use refs models merged_platforms_facts(1) merged_credentials_facts(1) merged_rapis_facts(1)
      merged_bindings_facts(1) in \<open>simp_all\<close>)
qed

text \<open>C14: The union of two valid snapshots passes \<open>Validate\<close>, so \<open>Merge\<close> returns it, whatever the
  rule, provided no model name on either side already contains the mark \<open>#local\<close> of a renamed model.
  It has the platforms, endpoints, credentials and bindings of both sides by key, and no endpoint,
  binding or chain entry is dropped. A model of one side only is there with its whole chain in
  order. Of a model of both sides, the centre's chain is there when the two say the same or it
  contains the local one, the local chain when that contains the centre's, and otherwise both, the local
  one under the name \<open>a#local2\<close>.\<close>

theorem merge_succeeds:
  assumes "valid_bundle c" and "valid_bundle l" and "reserved_free (merge_aliases c l)"
  shows "\<exists>out rep. merge_bundles ulow sha (Some c) (Some l) rule = Inr (out, rep) \<and> valid_bundle out \<and>
    mr_dropped_rapis rep = [] \<and> mr_dropped_bindings rep = [] \<and> mr_dropped_order rep = [] \<and>
    (\<lambda>p. platform_key_of (bp_base_url p)) ` set (b_platforms out) =
      (\<lambda>p. platform_key_of (bp_base_url p)) ` (set (b_platforms c) \<union> set (b_platforms l)) \<and>
    rapi_key ` set (b_rapis out) = rapi_key ` (set (b_rapis c) \<union> set (b_rapis l)) \<and>
    cred_key ` set (b_credentials out) = cred_key ` (set (b_credentials c) \<union> set (b_credentials l)) \<and>
    binding_key ` set (b_bindings out) = binding_key ` (set (b_bindings c) \<union> set (b_bindings l)) \<and>
    (\<forall>a \<in> models_of c - models_of l. carries out a c a) \<and>
    (\<forall>a \<in> models_of l - models_of c. carries out a l a) \<and>
    (\<forall>a \<in> models_of c \<inter> models_of l.
       case compare_chains ulow sha (group_chain (b_orders c) a) (group_chain (b_orders l) a) of
         L0 \<Rightarrow> carries out a c a | L2c \<Rightarrow> carries out a c a | L2l \<Rightarrow> carries out a l a
       | _ \<Rightarrow> carries out a c a \<and> carries out (local_name a 2) l a)"
proof -
  let ?cf = "rule \<noteq> RuleLocalWins" and ?m = "merge_out ulow sha c l rule"
  let ?eps = "map rapi_key (merged_rapis ?cf c l)"
  note refs = merge_references [OF assms(1,2), of ?cf]
  have r: "\<forall>r \<in> set (merged_rapis ?cf c l). platform_key_of (br_platform_base_url r) \<in>
      set (map (\<lambda>p. platform_key_of (bp_base_url p)) (merged_platforms ?cf c l))"
    using refs(1) by blast
  note parts = merge_parts [OF r refs(2), of ulow sha]
  have v: "valid_bundle (fst ?m)" using assms by (rule merge_out_valid)
  then have "validate_bundle (fst ?m) = None" by (rule validate_valid [THEN iffD2])
  then have m: "merge_bundles ulow sha (Some c) (Some l) rule = Inr (fst ?m, snd ?m)"
    by (simp add: merge_bundles_def validate_def split_beta)
  have "covers (map rapi_key (b_rapis b)) b" if "valid_bundle b" for b
    using that by (auto simp: covers_def valid_bundle_def Let_def)
  then have cov: "covers ?eps c" "covers ?eps l"
    using assms(1,2) unfolding covers_def list.set_map merged_rapis_facts by blast+
  have "mr_dropped_order (snd ?m) = ms_dropped (merge_lapis_and_chains ulow sha c l (map rapi_key (b_rapis (fst ?m))))"
    by (simp add: merge_out_def Let_def split_beta)
  then have d: "mr_dropped_order (snd ?m) = []" by (simp add: parts(3) merge_dropped_none [OF cov])
  note models = merged_models [OF assms(3) cov parts(5,6)]
  have keys: "(\<lambda>p. platform_key_of (bp_base_url p)) ` set (b_platforms (fst ?m)) =
      (\<lambda>p. platform_key_of (bp_base_url p)) ` (set (b_platforms c) \<union> set (b_platforms l))"
    "rapi_key ` set (b_rapis (fst ?m)) = rapi_key ` (set (b_rapis c) \<union> set (b_rapis l))"
    "cred_key ` set (b_credentials (fst ?m)) = cred_key ` (set (b_credentials c) \<union> set (b_credentials l))"
    "binding_key ` set (b_bindings (fst ?m)) = binding_key ` (set (b_bindings c) \<union> set (b_bindings l))"
    unfolding parts image_Un merged_platforms_facts merged_rapis_facts merged_credentials_facts merged_bindings_facts
    by (rule refl)+
  show ?thesis
    by (intro exI [of _ "fst ?m"] exI [of _ "snd ?m"] conjI ballI m v parts(7,8) d keys)
      (use models in blast)+
qed

lemma center_kept:
  assumes c: "valid_bundle c" and l: "valid_bundle l" and rule: "rule = RuleCenterWins"
  shows "b_platforms (fst (merge_out ulow sha c l rule)) = b_platforms c @
      filter (\<lambda>p. platform_key_of (bp_base_url p) \<notin> (\<lambda>p. platform_key_of (bp_base_url p)) ` set (b_platforms c)) (b_platforms l)"
    and "b_credentials (fst (merge_out ulow sha c l rule)) = b_credentials c @
      filter (\<lambda>x. cred_key x \<notin> cred_key ` set (b_credentials c)) (b_credentials l)"
    and "b_rapis (fst (merge_out ulow sha c l rule)) = b_rapis c @
      filter (\<lambda>r. rapi_key r \<notin> rapi_key ` set (b_rapis c)) (b_rapis l)"
    and "b_bindings (fst (merge_out ulow sha c l rule)) = b_bindings c @
      filter (\<lambda>x. binding_key x \<notin> binding_key ` set (b_bindings c)) (b_bindings l)"
proof -
  note refs = merge_references [OF c l, of True]
  have r: "\<forall>r \<in> set (merged_rapis True c l). platform_key_of (br_platform_base_url r) \<in>
      set (map (\<lambda>p. platform_key_of (bp_base_url p)) (merged_platforms True c l))"
    using refs(1) by blast
  have cf: "(rule \<noteq> RuleLocalWins) = True" using rule by simp
  note parts = merge_parts [of rule c l ulow sha, unfolded cf, OF r refs(2)]
  note dc = valid_bundleD(5,6,7,8) [OF c] and dl = valid_bundleD(5,6,7,8) [OF l]
  show "b_platforms (fst (merge_out ulow sha c l rule)) = b_platforms c @
      filter (\<lambda>p. platform_key_of (bp_base_url p) \<notin> (\<lambda>p. platform_key_of (bp_base_url p)) ` set (b_platforms c)) (b_platforms l)"
    unfolding parts merged_defs by (rule platform_union.union_center_first [OF dc(1) dl(1)])
  show "b_credentials (fst (merge_out ulow sha c l rule)) = b_credentials c @
      filter (\<lambda>x. cred_key x \<notin> cred_key ` set (b_credentials c)) (b_credentials l)"
    unfolding parts merged_defs by (rule credential_union.union_center_first [OF dc(2) dl(2)])
  show "b_rapis (fst (merge_out ulow sha c l rule)) = b_rapis c @
      filter (\<lambda>r. rapi_key r \<notin> rapi_key ` set (b_rapis c)) (b_rapis l)"
    unfolding parts merged_defs by (rule rapi_union.union_center_first [OF dc(3) dl(3)])
  show "b_bindings (fst (merge_out ulow sha c l rule)) = b_bindings c @
      filter (\<lambda>x. binding_key x \<notin> binding_key ` set (b_bindings c)) (b_bindings l)"
    unfolding parts merged_defs by (rule binding_union.union_center_first [OF dc(4) dl(4)])
qed


section \<open>Concrete snapshots\<close>

definition sample_platform :: "string \<Rightarrow> b_platform" where
  "sample_platform u = \<lparr>bp_base_url = u, bp_name = u, bp_token = [], bp_last_token_fetch = None,
     bp_enabled = True, bp_notes = [], bp_supported_formats = [], bp_format_endpoints = [],
     bp_custom_headers = [], bp_login_account = [], bp_sort_order = 0\<rparr>"

definition sample_rapi :: "string \<Rightarrow> string \<Rightarrow> b_rapi" where
  "sample_rapi u m = \<lparr>br_platform_base_url = u, br_model = m, br_alias = m, br_enabled = True,
     br_base_cost = 0, br_high_cost = 0, br_rpm_limit = 0, br_rph_limit = 0, br_rpd_limit = 0,
     br_tpm_limit = 0, br_tph_limit = 0, br_tpd_limit = 0, br_time_period_rules = [],
     br_supported_formats = [], br_custom_headers = [], br_source = [], br_vendor = [], br_series = [],
     br_model_name = [], br_version = [], br_suffix = [], br_notes = [], br_sort_order = 0\<rparr>"

definition sample_lapi :: "string \<Rightarrow> b_lapi" where
  "sample_lapi a = \<lparr>bl_alias = a, bl_notes = [], bl_enabled = True, bl_vendor = [], bl_series = [],
     bl_model_name = [], bl_version = [], bl_suffix = []\<rparr>"

definition sample_order :: "string \<Rightarrow> string \<Rightarrow> string \<Rightarrow> int \<Rightarrow> b_order" where
  "sample_order a u m i = \<lparr>bo_lapi_alias = a, bo_platform_base_url = u, bo_model = m, bo_order_index = i\<rparr>"

definition sample_bundle :: "string list \<Rightarrow> string list \<Rightarrow> def_bundle" where
  "sample_bundle aliases chain = \<lparr>b_platforms = [sample_platform ''p''], b_credentials = [],
     b_rapis = [sample_rapi ''p'' ''m'', sample_rapi ''p'' ''n''],
     b_lapis = map sample_lapi aliases,
     b_orders = map (\<lambda>(i, m). sample_order ''x'' ''p'' m (int i)) (enumerate 0 chain),
     b_bindings = []\<rparr>"

lemmas sample_defs = sample_platform_def sample_rapi_def sample_lapi_def sample_order_def

lemma plain_chars: "\<forall>ch \<in> set ''mnpx2''. ch \<notin> \<Union> (set ` set space_runes)"
  by code_simp

lemma sample_trim:
  "trim_space ''m'' = ''m''" "trim_space ''n'' = ''n''" "trim_space ''p'' = ''p''" "trim_space ''x'' = ''x''"
  "trim_space ''x#local2'' = ''x#local2''"
  by (rule trim_space_plain; use plain_chars in simp)+

lemma sample_valid:
  "valid_bundle (sample_bundle [''x''] [''m'', ''n''])"
  "valid_bundle (sample_bundle [''x''] [''n'', ''m''])"
  "valid_bundle (sample_bundle [''x'', ''x#local2''] [''n'', ''m''])"
  by (simp_all add: valid_bundle_def sample_bundle_def sample_defs sample_trim order_endpoint_def
      rapi_key_def platform_key_of_def)

theorem merge_succeeds_witness:
  "\<exists>out rep. merge_bundles (\<lambda>s. s) (\<lambda>s. s) (Some (sample_bundle [''x''] [''m'', ''n'']))
      (Some (sample_bundle [''x''] [''n'', ''m''])) RuleCenterWins = Inr (out, rep) \<and> valid_bundle out"
proof -
  have "reserved_free (merge_aliases (sample_bundle [''x''] [''m'', ''n'']) (sample_bundle [''x''] [''n'', ''m'']))"
    by (simp add: reserved_free_def merge_aliases_def sample_bundle_def sample_defs)
  from merge_succeeds [OF sample_valid(1,2) this, of "\<lambda>s. s" "\<lambda>s. s" RuleCenterWins]
  show ?thesis by (elim exE conjE) (intro exI conjI)
qed


text \<open>A local model whose name is the one a renamed model gets makes two valid snapshots
  unmergeable: both models end up as \<open>x#local2\<close>, the result has a duplicate name and
  \<open>Merge\<close> answers with an error, since the names still to be processed do not count as taken.\<close>

lemma merge_rename_collision:
  assumes "take 16 (sha ''p#m > p#n'') \<noteq> take 16 (sha ''p#n > p#m'')"
  shows "\<exists>rep. merge_bundles ulow sha (Some (sample_bundle [''x''] [''m'', ''n'']))
      (Some (sample_bundle [''x'', ''x#local2''] [''n'', ''m''])) rule =
    Inl (MergeInvalid (DupLapi ''x#local2''), Some rep)"
proof -
  let ?c = "sample_bundle [''x''] [''m'', ''n'']" and ?l = "sample_bundle [''x'', ''x#local2''] [''n'', ''m'']"
  have orders: "group_chain (b_orders ?c) ''x'' = [sample_order ''x'' ''p'' ''m'' 0, sample_order ''x'' ''p'' ''n'' 1]"
    "group_chain (b_orders ?l) ''x'' = [sample_order ''x'' ''p'' ''n'' 0, sample_order ''x'' ''p'' ''m'' 1]"
    "group_chain (b_orders ?l) ''x#local2'' = []"
    by (simp_all add: sample_bundle_def sample_defs group_chain_def sort_orders_def stable_sort_def)
  have names: "merge_aliases ?c ?l = [''x'', ''x#local2'']"
    and models: "lapi_map (b_lapis ?c) ''x'' = Some (sample_lapi ''x'')" "lapi_map (b_lapis ?c) ''x#local2'' = None"
      "lapi_map (b_lapis ?l) ''x'' = Some (sample_lapi ''x'')"
      "lapi_map (b_lapis ?l) ''x#local2'' = Some (sample_lapi ''x#local2'')"
    by (simp_all add: merge_aliases_def sample_bundle_def sample_defs lapi_map_def)
  have nodes: "chain_nodes ulow [sample_order ''x'' ''p'' a 0, sample_order ''x'' ''p'' b 1] = [''p#'' @ a, ''p#'' @ b]" for a b
    by (simp add: chain_nodes_def sort_orders_def stable_sort_def sample_defs canonical_node_key_def
        sample_trim trim_right_char_def str_index.simps has_prefix_def)
  have level: "compare_chains ulow sha [sample_order ''x'' ''p'' ''m'' 0, sample_order ''x'' ''p'' ''n'' 1]
      [sample_order ''x'' ''p'' ''n'' 0, sample_order ''x'' ''p'' ''m'' 1] = L1"
    using assms by (simp add: compare_chains_def chain_signature_def nodes same_multiset_def Let_def)
  have fresh: "alloc_name ''x'' [''x''] = ''x#local2''"
    by (subst alloc_name_first) (simp_all add: local_name_2)
  have lapis: "ms_lapis (merge_lapis_and_chains ulow sha ?c ?l eps) =
      [sample_lapi ''x'', sample_lapi ''x#local2'', sample_lapi ''x#local2'']" for eps
    by (simp add: merge_lapis_and_chains_def names merge_alias_def models orders level Let_def fresh)
      (simp add: sample_defs)
  have same: "merged_platforms cf ?c ?l = b_platforms ?c" "merged_credentials cf ?c ?l = []"
    "merged_rapis cf ?c ?l = b_rapis ?c" "merged_bindings cf ?c ?l = []" for cf
    by (simp_all add: merged_defs merge_union_def sample_bundle_def diff_rapi_def diff_platform_def differing_def
        rapi_key_def platform_key_of_def sample_defs)
  have r: "\<forall>r \<in> set (merged_rapis cf ?c ?l). platform_key_of (br_platform_base_url r) \<in>
      set (map (\<lambda>p. platform_key_of (bp_base_url p)) (merged_platforms cf ?c ?l))"
    and b: "\<forall>b \<in> set (merged_bindings cf ?c ?l). fst (binding_key b) \<in> rapi_key ` set (merged_rapis cf ?c ?l) \<and>
      snd (binding_key b) \<in> cred_key ` set (merged_credentials cf ?c ?l)" for cf
    unfolding same by (simp_all add: sample_bundle_def sample_defs)
  note parts = merge_parts [where rule = rule and ulow = ulow and sha = sha, OF r b, unfolded same lapis]
  have "validate_bundle (fst (merge_out ulow sha ?c ?l rule)) = Some (DupLapi ''x#local2'')"
    unfolding validate_bundle_def parts
    by (simp add: check_lapi_def check_rapi_def check_platform_def Let_def
        sample_bundle_def sample_defs sample_trim platform_key_of_def rapi_key_def)
  then show ?thesis by (simp add: merge_bundles_def validate_def split_beta)
qed

lemma merge_rename_collision_witness:
  "\<exists>rep. merge_bundles (\<lambda>s. s) (\<lambda>s. s) (Some (sample_bundle [''x''] [''m'', ''n'']))
      (Some (sample_bundle [''x'', ''x#local2''] [''n'', ''m''])) RuleCenterWins =
    Inl (MergeInvalid (DupLapi ''x#local2''), Some rep)"
  using merge_rename_collision [of "\<lambda>s. s"] by simp

section \<open>The search for a name ends\<close>

text \<open>The loop of \<open>allocName\<close> as the code has it, with no bound on \<open>i\<close>.\<close>

partial_function (option) alloc_search :: "string \<Rightarrow> string list \<Rightarrow> nat \<Rightarrow> string option" where
  "alloc_search base taken i =
     (if local_name base i \<notin> set taken then Some (local_name base i)
      else alloc_search base taken (i + 1))"

definition alloc_name_loop :: "string \<Rightarrow> string list \<Rightarrow> string option" where
  "alloc_name_loop base taken = (if base \<notin> set taken then Some base else alloc_search base taken 2)"

lemma alloc_search_find:
  "find (\<lambda>c. c \<notin> set taken) (map (local_name base) [i..<n]) = Some c \<Longrightarrow> alloc_search base taken i = Some c"
proof (induction "n - i" arbitrary: i)
  case (Suc k)
  then show ?case
    by (subst alloc_search.simps) (auto simp: upt_conv_Cons split: if_splits)
qed simp

text \<open>C17: The unbounded search for the name of a renamed model always ends, with a name that is not
  taken: the numbered names are distinct, so one of the first \<open>n + 1\<close> is free among \<open>n\<close> taken.\<close>

theorem alloc_name_terminates:
  "alloc_name_loop base taken = Some (alloc_name base taken) \<and> alloc_name base taken \<notin> set taken"
proof -
  have "alloc_search base taken 2 = Some (alloc_name base taken)" if "base \<in> set taken"
  proof (cases "find (\<lambda>c. c \<notin> set taken) (map (local_name base) [2..<length taken + 3])")
    case None
    then have "alloc_name base taken = base" using that by (simp add: alloc_name_def)
    then show ?thesis using alloc_name_fresh [of base taken] that by simp
  next
    case (Some c)
    then show ?thesis using alloc_search_find [OF Some] that by (simp add: alloc_name_def)
  qed
  then show ?thesis using alloc_name_fresh [of base taken]
    by (auto simp: alloc_name_loop_def alloc_name_def)
qed

end
