(* ===== verification/KeyBlocks.thy ===== *)
theory KeyBlocks
  imports EntityBase
begin

text \<open>
  The blacklist of key and model pairs of the gateway, \<open>internal/gateway/gateway.go\<close>
  (\<open>loadKeyModelBlocks\<close> to \<open>clearBlocksForKey\<close>): a platform that denies a key for one model blocks
  the pair for a time, the key keeps serving its other models. \<open>bk_blocks\<close> is the map of maps the
  code has, \<open>bk_calls\<close> the calls on the database in order; a database error is only logged. Every
  method holds \<open>blockMu\<close>; \<open>isBlocked\<close> gives the read lock up before \<open>purgeExpiredBlock\<close> takes the
  write lock, so its two phases are also two definitions.
\<close>

section \<open>State\<close>

record key_model_block =
  kb_reason :: string
  kb_expires_at :: instant

type_synonym block_map = "(int \<times> (int \<times> key_model_block) list) list"

datatype block_call =
    BlockRow int int string instant
  | UnblockRow int int
  | ClearRows int

record block_state =
  bk_blocks :: block_map
  bk_ttl :: duration
  bk_calls :: "block_call list"

definition block_lookup :: "int \<Rightarrow> int \<Rightarrow> block_map \<Rightarrow> key_model_block option" where
  "block_lookup k r blocks = (case map_of blocks k of None \<Rightarrow> None | Some m \<Rightarrow> map_of m r)"

definition set_block :: "int \<Rightarrow> int \<Rightarrow> key_model_block \<Rightarrow> block_map \<Rightarrow> block_map" where
  "set_block k r b blocks =
     (let m = (case map_of blocks k of None \<Rightarrow> [] | Some m \<Rightarrow> m)
      in AList.update k (AList.update r b m) blocks)"

definition delete_block :: "int \<Rightarrow> int \<Rightarrow> block_map \<Rightarrow> block_map" where
  "delete_block k r blocks =
     (case map_of blocks k of
        None \<Rightarrow> blocks
      | Some m \<Rightarrow>
          (let m' = AList.delete r m in
           if m' = [] then AList.delete k blocks else AList.update k m' blocks))"

section \<open>Operations\<close>

definition load_block :: "instant \<Rightarrow> key_model_block_row \<Rightarrow> block_map \<Rightarrow> block_map" where
  "load_block now b blocks =
     (if bl_expires_at b \<noteq> zero_time \<and> bl_expires_at b < now then blocks
      else set_block (bl_key_id b) (bl_rapi_id b)
             \<lparr>kb_reason = bl_reason b, kb_expires_at = bl_expires_at b\<rparr> blocks)"

definition load_key_model_blocks :: "duration \<Rightarrow> key_model_block_row list option \<Rightarrow> instant \<Rightarrow> block_state" where
  "load_key_model_blocks ttl rows now =
     \<lparr>bk_blocks =
        (case rows of
           None \<Rightarrow> []
         | Some bs \<Rightarrow> fold (load_block now) bs []),
      bk_ttl = (if ttl \<le> 0 then 24 * nsec_hour else ttl), bk_calls = []\<rparr>"

definition block_key_for_model :: "int \<Rightarrow> int \<Rightarrow> string \<Rightarrow> instant \<Rightarrow> block_state \<Rightarrow> block_state \<times> bool" where
  "block_key_for_model k r reason now bs =
     (let exp = now + bk_ttl bs;
          newly = (case block_lookup k r (bk_blocks bs) of None \<Rightarrow> True | Some prev \<Rightarrow> now > kb_expires_at prev)
      in (bs\<lparr>bk_blocks := set_block k r \<lparr>kb_reason = reason, kb_expires_at = exp\<rparr> (bk_blocks bs),
             bk_calls := bk_calls bs @ [BlockRow k r reason exp]\<rparr>, newly))"

definition unblock_key_for_model :: "int \<Rightarrow> int \<Rightarrow> block_state \<Rightarrow> block_state" where
  "unblock_key_for_model k r bs =
     bs\<lparr>bk_blocks := delete_block k r (bk_blocks bs), bk_calls := bk_calls bs @ [UnblockRow k r]\<rparr>"

definition purge_expired_block :: "int \<Rightarrow> int \<Rightarrow> instant \<Rightarrow> block_state \<Rightarrow> block_state \<times> string \<times> bool" where
  "purge_expired_block k r now bs =
     (case block_lookup k r (bk_blocks bs) of
        None \<Rightarrow> (bs, [], False)
      | Some cur \<Rightarrow>
          if kb_expires_at cur = zero_time \<or> kb_expires_at cur > now then (bs, kb_reason cur, True)
          else (bs\<lparr>bk_blocks := delete_block k r (bk_blocks bs)\<rparr>, [], False))"

text \<open>The part of \<open>isBlocked\<close> under the read lock: \<open>None\<close> when it goes on to purge.\<close>

definition read_block :: "int \<Rightarrow> int \<Rightarrow> instant \<Rightarrow> block_state \<Rightarrow> (string \<times> bool) option" where
  "read_block k r now bs =
     (case block_lookup k r (bk_blocks bs) of
        None \<Rightarrow> Some ([], False)
      | Some b \<Rightarrow>
          if kb_expires_at b \<noteq> zero_time \<and> \<not> kb_expires_at b > now then None
          else Some (kb_reason b, True))"

definition is_blocked :: "int \<Rightarrow> int \<Rightarrow> instant \<Rightarrow> block_state \<Rightarrow> block_state \<times> string \<times> bool" where
  "is_blocked k r now bs =
     (case read_block k r now bs of
        Some res \<Rightarrow> (bs, res)
      | None \<Rightarrow> purge_expired_block k r now bs)"

definition clear_blocks_for_key :: "int \<Rightarrow> block_state \<Rightarrow> block_state" where
  "clear_blocks_for_key k bs =
     bs\<lparr>bk_blocks := AList.delete k (bk_blocks bs), bk_calls := bk_calls bs @ [ClearRows k]\<rparr>"

text \<open>The loops over a key pool, for any test of one key.\<close>

fun drop_blocked :: "(int \<Rightarrow> 's \<Rightarrow> 's \<times> string \<times> bool) \<Rightarrow> platform_key list \<Rightarrow> 's \<Rightarrow> 's \<times> platform_key list" where
  "drop_blocked test [] s = (s, [])"
| "drop_blocked test (k # ks) s =
     (let (s1, _, blocked) = test (pk_id k) s; (s2, out) = drop_blocked test ks s1
      in (s2, if blocked then out else k # out))"

fun blocked_texts :: "(int \<Rightarrow> 's \<Rightarrow> 's \<times> string \<times> bool) \<Rightarrow> platform_key list \<Rightarrow> 's \<Rightarrow> 's \<times> string list" where
  "blocked_texts test [] s = (s, [])"
| "blocked_texts test (k # ks) s =
     (let (s1, reason, blocked) = test (pk_id k) s; (s2, out) = blocked_texts test ks s1
      in (s2, if blocked
              then (pk_label k @ utf8 [0xEF, 0xBC, 0x88] @ reason @ utf8 [0xEF, 0xBC, 0x89]) # out
              else out))"

definition filter_blocked_keys :: "platform_key list \<Rightarrow> int \<Rightarrow> instant \<Rightarrow> block_state
    \<Rightarrow> block_state \<times> platform_key list" where
  "filter_blocked_keys keys r now bs = drop_blocked (\<lambda>k. is_blocked k r now) keys bs"

definition blocked_reasons :: "platform_key list \<Rightarrow> int \<Rightarrow> instant \<Rightarrow> block_state
    \<Rightarrow> block_state \<times> string list" where
  "blocked_reasons keys r now bs = blocked_texts (\<lambda>k. is_blocked k r now) keys bs"

section \<open>What a blacklist promises its clients\<close>

text \<open>\<open>view s k r t\<close> is the reason for which a pair is blocked at the instant \<open>t\<close>, if it is. A test of
  one pair answers with the view and changes no later view.\<close>

locale blacklist =
  fixes view :: "'s \<Rightarrow> int \<Rightarrow> int \<Rightarrow> instant \<Rightarrow> string option"
    and test :: "int \<Rightarrow> int \<Rightarrow> instant \<Rightarrow> 's \<Rightarrow> 's \<times> string \<times> bool"
  assumes test_result: "snd (test k r now s) =
      (case view s k r now of None \<Rightarrow> ([], False) | Some reason \<Rightarrow> (reason, True))"
    and test_view: "now \<le> t \<Longrightarrow> view (fst (test k r now s)) k' r' t = view s k' r' t"
begin

lemma drop_result:
  "snd (drop_blocked (\<lambda>k. test k r now) ks s) = filter (\<lambda>k. view s (pk_id k) r now = None) ks"
proof (induction ks arbitrary: s)
  case (Cons k ks)
  have "snd (snd (test (pk_id k) r now s)) \<longleftrightarrow> view s (pk_id k) r now \<noteq> None"
    by (simp add: test_result split: option.split)
  with Cons.IH [of "fst (test (pk_id k) r now s)"] show ?case
    by (simp add: Let_def split_beta test_view)
qed simp

lemma drop_view: "now \<le> t \<Longrightarrow> view (fst (drop_blocked (\<lambda>k. test k r now) ks s)) k' r' t = view s k' r' t"
proof (induction ks arbitrary: s)
  case (Cons k ks)
  then show ?case using test_view [OF Cons.prems, of "pk_id k" r s k' r']
    by (simp add: Let_def split_beta)
qed simp

lemma texts_view: "now \<le> t \<Longrightarrow> view (fst (blocked_texts (\<lambda>k. test k r now) ks s)) k' r' t = view s k' r' t"
proof (induction ks arbitrary: s)
  case (Cons k ks)
  then show ?case using test_view [OF Cons.prems, of "pk_id k" r s k' r']
    by (simp add: Let_def split_beta)
qed simp

lemma texts_none: "snd (blocked_texts (\<lambda>k. test k r now) ks s) = [] \<longleftrightarrow> (\<forall>k \<in> set ks. view s (pk_id k) r now = None)"
proof (induction ks arbitrary: s)
  case (Cons k ks)
  have "snd (snd (test (pk_id k) r now s)) \<longleftrightarrow> view s (pk_id k) r now \<noteq> None"
    by (simp add: test_result split: option.split)
  with Cons.IH [of "fst (test (pk_id k) r now s)"] show ?case
    by (simp add: Let_def split_beta test_view)
qed simp

end

definition block_view :: "block_state \<Rightarrow> int \<Rightarrow> int \<Rightarrow> instant \<Rightarrow> string option" where
  "block_view bs k r t =
     (case block_lookup k r (bk_blocks bs) of
        None \<Rightarrow> None
      | Some b \<Rightarrow> if kb_expires_at b = zero_time \<or> kb_expires_at b > t then Some (kb_reason b) else None)"

lemma block_lookup_set [simp]:
  "block_lookup k' r' (set_block k r b blocks) = (if k' = k \<and> r' = r then Some b else block_lookup k' r' blocks)"
  by (simp add: block_lookup_def set_block_def Let_def split: option.split)

lemma block_lookup_delete [simp]:
  "block_lookup k' r' (delete_block k r blocks) = (if k' = k \<and> r' = r then None else block_lookup k' r' blocks)"
proof (cases "map_of blocks k")
  case (Some m)
  have "map_of (AList.delete r m) r' = (if r' = r then None else map_of m r')" by simp
  then show ?thesis
    using Some by (cases "AList.delete r m = []") (auto simp: block_lookup_def delete_block_def Let_def)
qed (auto simp: block_lookup_def delete_block_def)

lemma block_lookup_clear [simp]:
  "block_lookup k' r' (AList.delete k blocks) = (if k' = k then None else block_lookup k' r' blocks)"
  by (simp add: block_lookup_def)

interpretation key_blocks: blacklist block_view is_blocked
  by unfold_locales
    (auto simp: is_blocked_def read_block_def purge_expired_block_def block_view_def
      split: option.splits if_splits)

section \<open>Histories\<close>

datatype block_op =
    BBlock int int string instant
  | BUnblock int int
  | BTest int int instant
  | BClear int

fun block_step :: "block_op \<Rightarrow> block_state \<Rightarrow> block_state" where
  "block_step (BBlock k r reason now) bs = fst (block_key_for_model k r reason now bs)"
| "block_step (BUnblock k r) bs = unblock_key_for_model k r bs"
| "block_step (BTest k r now) bs = fst (is_blocked k r now bs)"
| "block_step (BClear k) bs = clear_blocks_for_key k bs"

definition block_run :: "block_op list \<Rightarrow> block_state \<Rightarrow> block_state" where
  "block_run ops bs = fold block_step ops bs"

text \<open>A well-formed blacklist holds one entry per pair and no empty inner map.\<close>

definition block_map_wf :: "block_map \<Rightarrow> bool" where
  "block_map_wf blocks \<longleftrightarrow>
     distinct (map fst blocks) \<and> (\<forall>k m. (k, m) \<in> set blocks \<longrightarrow> m \<noteq> [] \<and> distinct (map fst m))"

lemma alist_update_nonempty: "AList.update k v m \<noteq> []"
  by (cases m) auto

lemma set_alist_update: "set (AList.update k v m) \<subseteq> insert (k, v) (set m)"
  by (induction m) auto

lemma block_map_wfD: "block_map_wf blocks \<Longrightarrow> map_of blocks k = Some m \<Longrightarrow> m \<noteq> [] \<and> distinct (map fst m)"
  by (auto simp: block_map_wf_def dest: map_of_SomeD)

lemma update_wf:
  assumes "block_map_wf blocks" and "m \<noteq> []" and "distinct (map fst m)"
  shows "block_map_wf (AList.update k m blocks)"
  using assms set_alist_update [of k m blocks] unfolding block_map_wf_def
  by (auto simp: distinct_update)

lemma delete_wf: "block_map_wf blocks \<Longrightarrow> block_map_wf (AList.delete k blocks)"
  unfolding block_map_wf_def using distinct_delete [of blocks k] by (auto simp: AList.delete_eq)

lemma set_block_wf: "block_map_wf blocks \<Longrightarrow> block_map_wf (set_block k r b blocks)"
  unfolding set_block_def Let_def
  by (intro update_wf) (auto simp: alist_update_nonempty distinct_update dest: block_map_wfD split: option.split)

lemma delete_block_wf: "block_map_wf blocks \<Longrightarrow> block_map_wf (delete_block k r blocks)"
  unfolding delete_block_def Let_def
  by (auto intro!: update_wf delete_wf dest: block_map_wfD simp: distinct_delete split: option.split)

lemmas block_op_defs = block_key_for_model_def unblock_key_for_model_def purge_expired_block_def
  is_blocked_def clear_blocks_for_key_def read_block_def

lemma block_step_wf: "block_map_wf (bk_blocks bs) \<Longrightarrow> block_map_wf (bk_blocks (block_step op bs))"
  by (cases op)
    (auto simp: block_op_defs Let_def set_block_wf delete_block_wf delete_wf split: option.split)

text \<open>C27: Whatever rows the blacklist is loaded from and whatever the gateway then does with it, it keeps
  one entry per pair of key and model and never an empty map for a key, so expired and lifted
  blocks leave nothing behind.\<close>

theorem block_run_well_formed:
  "block_map_wf (bk_blocks (block_run ops (load_key_model_blocks ttl rows now)))"
proof -
  have "block_map_wf (fold (load_block now) bs blocks)" if "block_map_wf blocks" for bs blocks
    using that by (induction bs arbitrary: blocks) (simp_all add: load_block_def set_block_wf)
  moreover have "block_map_wf []" by (simp add: block_map_wf_def)
  ultimately have load: "block_map_wf (bk_blocks (load_key_model_blocks ttl rows now))"
    by (simp add: load_key_model_blocks_def split: option.split)
  have "block_map_wf (bk_blocks (block_run ops bs))" if "block_map_wf (bk_blocks bs)" for bs
    unfolding block_run_def using that by (induction ops arbitrary: bs) (simp_all add: block_step_wf)
  from this [OF load] show ?thesis .
qed

text \<open>The specification: for each pair the last block with its expiry, until it is lifted. Testing a pair
  is no event.\<close>

fun spec_step :: "duration \<Rightarrow> block_op \<Rightarrow> (int \<times> int \<Rightarrow> (string \<times> instant) option)
    \<Rightarrow> int \<times> int \<Rightarrow> (string \<times> instant) option" where
  "spec_step ttl (BBlock k r reason now) a = a((k, r) \<mapsto> (reason, now + ttl))"
| "spec_step ttl (BUnblock k r) a = a((k, r) := None)"
| "spec_step ttl (BTest k r now) a = a"
| "spec_step ttl (BClear k) a = (\<lambda>(k', r). if k' = k then None else a (k', r))"

definition spec_view :: "(int \<times> int \<Rightarrow> (string \<times> instant) option) \<Rightarrow> int \<Rightarrow> int \<Rightarrow> instant \<Rightarrow> string option" where
  "spec_view a k r t =
     (case a (k, r) of
        None \<Rightarrow> None
      | Some (reason, exp) \<Rightarrow> if exp = zero_time \<or> t < exp then Some reason else None)"

definition abs_blocks :: "block_state \<Rightarrow> int \<times> int \<Rightarrow> (string \<times> instant) option" where
  "abs_blocks bs = (\<lambda>(k, r). map_option (\<lambda>b. (kb_reason b, kb_expires_at b)) (block_lookup k r (bk_blocks bs)))"

lemma abs_blocks_view: "spec_view (abs_blocks bs) k r t = block_view bs k r t"
  by (simp add: spec_view_def abs_blocks_def block_view_def split: option.split)

lemma block_step_ttl [simp]: "bk_ttl (block_step op bs) = bk_ttl bs"
  by (cases op) (auto simp: block_op_defs Let_def split: option.split)

lemma block_step_sim:
  assumes "\<forall>k r. block_view bs k r t = spec_view a k r t"
    and "\<forall>k r now. op = BTest k r now \<longrightarrow> now \<le> t"
  shows "block_view (block_step op bs) k r t = spec_view (spec_step (bk_ttl bs) op a) k r t"
proof (cases op)
  case (BTest k' r' now)
  with assms key_blocks.test_view [of now t k' r' bs k r] show ?thesis by simp
qed (use assms in \<open>auto simp: block_op_defs Let_def block_view_def spec_view_def\<close>)

text \<open>C22: At any instant a pair is blocked exactly when its last block is neither lifted nor expired, with
  the reason of that block: the lazily purged maps implement the table of last blocks, for any
  history of blocks, successes, deletions and tests before that instant.\<close>

theorem block_run_refines:
  assumes "\<forall>k r now. BTest k r now \<in> set ops \<longrightarrow> now \<le> t"
  shows "snd (is_blocked k r t (block_run ops bs)) =
    (case spec_view (fold (spec_step (bk_ttl bs)) ops (abs_blocks bs)) k r t of
       None \<Rightarrow> ([], False) | Some reason \<Rightarrow> (reason, True))"
proof -
  have "block_view (fold block_step ops bs) k r t = spec_view (fold (spec_step (bk_ttl bs)) ops a) k r t"
    if "\<forall>k r. block_view bs k r t = spec_view a k r t" for a
    using that assms
  proof (induction ops arbitrary: bs a)
    case (Cons op ops)
    have "\<forall>k r. block_view (block_step op bs) k r t = spec_view (spec_step (bk_ttl bs) op a) k r t"
      using block_step_sim [OF Cons.prems(1)] Cons.prems(2) by simp
    from Cons.IH [OF this] Cons.prems(2) show ?case by simp
  qed simp
  from this [of "abs_blocks bs"] show ?thesis
    by (simp add: key_blocks.test_result block_run_def abs_blocks_view)
qed

theorem block_run_refines_witness:
  "snd (is_blocked 7 3 50 (block_run [BBlock 7 3 ''403'' 10, BTest 7 3 20, BUnblock 7 4]
      (load_key_model_blocks 100 None 5))) = (''403'', True)"
proof -
  have "\<forall>k r now. BTest k r now \<in> set [BBlock 7 3 ''403'' 10, BTest 7 3 20, BUnblock 7 4] \<longrightarrow> now \<le> 50"
    by simp
  from block_run_refines [OF this, of 7 3 "load_key_model_blocks 100 None 5"] show ?thesis
    by (simp add: spec_view_def load_key_model_blocks_def)
qed

text \<open>Between the read lock and the write lock of \<open>isBlocked\<close> another request may block the pair
  again; the second check keeps that block and answers with it, instead of deleting it on the
  strength of the first look.\<close>

lemma purge_keeps_refreshed:
  assumes "read_block k r t bs = None" and "t \<le> u" and "0 < bk_ttl bs" and "0 \<le> u"
  shows "purge_expired_block k r u (fst (block_key_for_model k r reason u bs)) =
    (fst (block_key_for_model k r reason u bs), reason, True)"
  using assms by (auto simp: block_op_defs Let_def split: option.splits if_splits)

lemma purge_keeps_refreshed_witness:
  "\<exists>bs. read_block 7 3 50 bs = None \<and>
     snd (purge_expired_block 7 3 51 (fst (block_key_for_model 7 3 ''again'' 51 bs))) = (''again'', True)"
proof -
  define bs where "bs = \<lparr>bk_blocks = [(7, [(3, \<lparr>kb_reason = ''old'', kb_expires_at = 40\<rparr>)])], bk_ttl = 10, bk_calls = []\<rparr>"
  have h: "read_block 7 3 50 bs = None" "(50::int) \<le> 51" "0 < bk_ttl bs" "(0::int) \<le> 51"
    by (simp_all add: bs_def read_block_def block_lookup_def)
  show ?thesis using purge_keeps_refreshed [OF h, of "''again''"] h(1) by (intro exI [of _ bs]) simp
qed

end
