(* ===== verification/KeyPool.thy ===== *)
theory KeyPool
  imports KeyBlocks SchedPick
begin

text \<open>
  Trying the keys of one endpoint, \<open>internal/gateway/gateway.go\<close>: the key pool of an endpoint
  (\<open>loadKeysForRAPIs\<close>, \<open>filterKeysByKeyIDs\<close>, \<open>firstUsableKey\<close>), the loop \<open>tryKeyForRAPI\<close> over the
  pool and what the gateway does when the pool is exhausted. The state is the scheduler, the
  blacklist and the notifications published.

  One pass of the loop is \<open>try_pass\<close>; what the upstream answers, when each clock is read and what other
  requests do to the scheduler during the upstream call come from an \<open>attempt\<close>. The loop itself has no
  bound in the code, so it is a partial function; the request goes to the network and the log entries
  are no part of the state. A notification keeps its menu, kind and entity, its texts are left out.
\<close>

section \<open>Key pools\<close>

text \<open>\<open>strconv.ParseInt(part, 10, 64)\<close> accepts what \<open>strconv.Atoi\<close> accepts.\<close>

definition allowed_ids :: "string \<Rightarrow> int list" where
  "allowed_ids csv =
     List.map_filter (\<lambda>part. let p = trim_space part in if p = [] then None else atoi p) (split_on (CHR '','') csv)"

definition filter_keys_by_key_ids :: "platform_key list \<Rightarrow> string \<Rightarrow> platform_key list" where
  "filter_keys_by_key_ids keys key_ids_csv =
     (let csv = trim_space key_ids_csv in
      if csv = [] then keys
      else let allowed = allowed_ids csv in
        if allowed = [] then keys
        else filter (\<lambda>k. pk_id k \<in> set allowed) keys)"

definition load_keys_for_rapis :: "(int \<Rightarrow> platform_key list option) \<Rightarrow> rapi list \<Rightarrow> rapi list" where
  "load_keys_for_rapis get_keys rapis =
     map (\<lambda>r. r\<lparr>ra_keys := filter_keys_by_key_ids
                  (case get_keys (ra_platform_id r) of None \<Rightarrow> [] | Some ks \<Rightarrow> ks) (ra_key_ids r)\<rparr>) rapis"

definition first_usable_from_keys :: "platform_key list \<Rightarrow> instant \<Rightarrow> string" where
  "first_usable_from_keys keys now =
     (case find (\<lambda>k. key_row_usable k now) keys of Some k \<Rightarrow> pk_token k | None \<Rightarrow> [])"

definition first_usable_key :: "platform_key list option \<Rightarrow> string \<Rightarrow> instant \<Rightarrow> string" where
  "first_usable_key keys platform_token now =
     (case keys of
        None \<Rightarrow> platform_token
      | Some ks \<Rightarrow>
          (case find (\<lambda>k. key_row_usable k now) ks of Some k \<Rightarrow> pk_token k | None \<Rightarrow> platform_token))"

section \<open>State\<close>

datatype note_menu = MenuPlatforms | MenuKeys | MenuModels | MenuInterfaces
datatype note_kind = NoteFailure | NoteCooling

record notice =
  no_menu :: note_menu
  no_kind :: note_kind
  no_entity :: int

record gateway =
  gw_sched :: manager
  gw_blocks :: block_state
  gw_notify :: bool
  gw_notes :: "notice list"

text \<open>The runtime with \<open>http.ParseTime\<close>.\<close>

record gw_env =
  ge_rt :: runtime
  ge_parse_time :: "string \<Rightarrow> instant option"

record response =
  rs_status :: int
  rs_header :: "string \<Rightarrow> string"
  rs_body :: string

datatype outcome = UpstreamError string bool | Upstream response

record attempt =
  at_filter :: instant
  at_pick :: instant
  at_others :: "sched_op list"
  at_outcome :: outcome
  at_mark :: instant

datatype try_result = Served platform_key response | PoolUnavailable

definition publish_if :: "bool \<Rightarrow> note_menu \<Rightarrow> note_kind \<Rightarrow> int \<Rightarrow> gateway \<Rightarrow> gateway" where
  "publish_if changed menu kind entity gw =
     (if changed \<and> gw_notify gw
      then gw\<lparr>gw_notes := gw_notes gw @ [\<lparr>no_menu = menu, no_kind = kind, no_entity = entity\<rparr>]\<rparr>
      else gw)"

text \<open>A mark on the scheduler that tells whether the key changed state, and the notification it may
  cause.\<close>

definition mark_key :: "(manager \<Rightarrow> manager \<times> instant \<times> bool) \<Rightarrow> (bool \<Rightarrow> bool) \<Rightarrow> note_kind \<Rightarrow> int
    \<Rightarrow> gateway \<Rightarrow> gateway" where
  "mark_key mark when kind entity gw =
     (let (m, _, changed) = mark (gw_sched gw)
      in publish_if (when changed) MenuKeys kind entity (gw\<lparr>gw_sched := m\<rparr>))"

definition block_pair :: "int \<Rightarrow> int \<Rightarrow> string \<Rightarrow> instant \<Rightarrow> gateway \<Rightarrow> gateway" where
  "block_pair k r reason now gw =
     (let (bs, newly) = block_key_for_model k r reason now (gw_blocks gw)
      in publish_if newly MenuKeys NoteFailure k (gw\<lparr>gw_blocks := bs\<rparr>))"

section \<open>One upstream answer\<close>

text \<open>The prefixes of the persisted reasons: authentication failed, platform level.\<close>

definition auth_failed_text :: string where
  "auth_failed_text = ''['' @ utf8 [0xE8,0xAE,0xA4,0xE8,0xAF,0x81,0xE5,0xA4,0xB1,0xE8,0xB4,0xA5] @ '']''"

definition platform_level_text :: string where
  "platform_level_text = ''['' @ utf8 [0xE5,0xB9,0xB3,0xE5,0x8F,0xB0,0xE7,0xBA,0xA7] @ '']''"

definition upstream_text :: "int \<Rightarrow> string \<Rightarrow> string" where
  "upstream_text status body = ''upstream '' @ int_str status @ '': '' @ body"

definition on_system_failure :: "platform_key \<Rightarrow> string \<Rightarrow> instant \<Rightarrow> gateway \<Rightarrow> gateway" where
  "on_system_failure key body now =
     mark_key (mark_key_platform_failure (pk_id key) (auth_failed_text @ '' upstream 401: '' @ body) now)
       (\<lambda>c. c) NoteFailure (pk_id key)"

definition on_platform_failure :: "gw_env \<Rightarrow> rapi \<Rightarrow> platform_key \<Rightarrow> int \<Rightarrow> string \<Rightarrow> instant \<Rightarrow> gateway \<Rightarrow> gateway" where
  "on_platform_failure env r key status body now =
     (let reason = platform_level_text @ '' '' @ upstream_text status body; ulow = rt_lower (ge_rt env) in
      if is_recoverable_billing_error ulow body
      then mark_key (mark_key_billing_failure (pk_id key) reason now) (\<lambda>c. c) NoteCooling (pk_id key)
      else if status = 403 \<and> is_capability_mismatch ulow body
      then block_pair (pk_id key) (ra_id r) reason now
      else mark_key (mark_key_platform_failure (pk_id key) reason now) (\<lambda>c. c) NoteFailure (pk_id key))"

definition on_session_failure :: "gw_env \<Rightarrow> rapi \<Rightarrow> platform_key \<Rightarrow> response \<Rightarrow> string \<Rightarrow> instant \<Rightarrow> gateway \<Rightarrow> gateway" where
  "on_session_failure env r key resp body now =
     (let status = rs_status resp; reason = upstream_text status body in
      if (status = 400 \<or> status = 404 \<or> status = 422) \<and> is_capability_mismatch (rt_lower (ge_rt env)) body
      then block_pair (pk_id key) (ra_id r) reason now
      else
        (let retry = retry_at (ge_parse_time env) (Some (rs_header resp)) zero_time now
         in mark_key (mark_key_temporary_failure (pk_id key) retry reason False now)
              (\<lambda>c. c \<and> (status = 429 \<or> status \<ge> 500)) NoteCooling (pk_id key)))"

definition is_success :: "int \<Rightarrow> bool" where
  "is_success status \<longleftrightarrow> status \<ge> 200 \<and> status < 300"

definition on_failed_response :: "gw_env \<Rightarrow> rapi \<Rightarrow> platform_key \<Rightarrow> response \<Rightarrow> instant \<Rightarrow> gateway \<Rightarrow> gateway" where
  "on_failed_response env r key resp now =
     (let body = take 4096 (rs_body resp) in
      case classify_failure (rs_status resp) of
        ScopeSystem \<Rightarrow> on_system_failure key body now
      | ScopePlatform \<Rightarrow> on_platform_failure env r key (rs_status resp) body now
      | ScopeSession \<Rightarrow> on_session_failure env r key resp body now)"

definition on_served :: "rapi \<Rightarrow> platform_key \<Rightarrow> instant \<Rightarrow> gateway \<Rightarrow> gateway" where
  "on_served r key now gw =
     (let gw1 = gw\<lparr>gw_sched := mark_key_success (pk_id key) now (gw_sched gw)\<rparr>
      in if pk_id key > 0
         then gw1\<lparr>gw_blocks := unblock_key_for_model (pk_id key) (ra_id r) (gw_blocks gw1)\<rparr>
         else gw1)"

section \<open>Exhausted pools\<close>

definition no_access_text :: string where
  "no_access_text = utf8 [0xE6,0x89,0x80,0xE6,0x9C,0x89] @ '' Key ''
     @ utf8 [0xE6,0x97,0xA0,0xE6,0x9D,0x83,0xE8,0xAE,0xBF,0xE9,0x97,0xAE,0xE6,0xAD,0xA4,0xE6,0xA8,0xA1,0xE5,0x9E,0x8B] @ '': ''"

definition keys_unusable_text :: string where
  "keys_unusable_text = utf8 [0xE6,0x89,0x80,0xE6,0x9C,0x89] @ '' Key ''
     @ utf8 [0xE4,0xB8,0x8D,0xE5,0x8F,0xAF,0xE7,0x94,0xA8] @ '': ''"

definition handle_all_keys_unavailable :: "rapi \<Rightarrow> instant \<Rightarrow> gateway \<Rightarrow> gateway" where
  "handle_all_keys_unavailable r now gw =
     (let (bs1, blocked) = blocked_reasons (ra_keys r) (ra_id r) now (gw_blocks gw);
          (bs2, pool) = filter_blocked_keys (ra_keys r) (ra_id r) now bs1;
          (dead, dead_reason) = keys_hard_dead pool now;
          (hard, reason) =
            (if blocked \<noteq> [] \<and> pool = []
             then (True, no_access_text @ join_with (utf8 [0xE3,0x80,0x81]) blocked)
             else if dead then (True, keys_unusable_text @ dead_reason)
             else (False, ''all keys unavailable''));
          hard = (hard \<and> is_auto_discovered (ra_source r));
          (m, first) = mark_all_keys_unavailable (ra_id r) hard reason now (gw_sched gw)
      in publish_if first MenuModels NoteFailure (ra_id r) (gw\<lparr>gw_sched := m, gw_blocks := bs2\<rparr>))"

definition pool_exhausted :: "rapi \<Rightarrow> platform_key list \<Rightarrow> instant \<Rightarrow> instant \<Rightarrow> gateway \<Rightarrow> gateway" where
  "pool_exhausted r keys pool_recover_at now gw =
     (let ids = map pk_id (filter (\<lambda>k. pk_id k > 0) keys) in
      if pool_recover_at = zero_time then handle_all_keys_unavailable r now gw
      else gw\<lparr>gw_sched := fst (mark_pool_exhausted (ra_id r) ids pool_recover_at
                ''key pool exhausted (all cooling)'' now (gw_sched gw))\<rparr>)"

section \<open>The loop\<close>

definition synthetic_key :: "rapi \<Rightarrow> platform_key" where
  "synthetic_key r = zero_key\<lparr>pk_id := -1, pk_key_index := 0, pk_platform_id := ra_platform_id r,
     pk_token := ra_token r, pk_enabled := True\<rparr>"

definition try_pass :: "gw_env \<Rightarrow> rapi \<Rightarrow> string \<Rightarrow> attempt \<Rightarrow> platform_key list \<Rightarrow> gateway
    \<Rightarrow> gateway \<times> (platform_key list + try_result)" where
  "try_pass env r session at keys gw =
     (let (bs, keys) = filter_blocked_keys keys (ra_id r) (at_filter at) (gw_blocks gw);
          gw = gw\<lparr>gw_blocks := bs\<rparr>
      in if keys = [] then (gw, Inr PoolUnavailable)
         else
           (let (m, picked) = pick_available_key keys session (at_pick at) (gw_sched gw);
                gw = gw\<lparr>gw_sched := m\<rparr>
            in case picked of
                 Inl (err, next_avail) \<Rightarrow>
                   (pool_exhausted r keys next_avail (at_mark at) gw, Inr PoolUnavailable)
               | Inr key \<Rightarrow>
                   (let gw = gw\<lparr>gw_sched := sched_run (ge_rt env) (at_others at) (gw_sched gw)\<rparr> in
                    case at_outcome at of
                      UpstreamError text is_timeout \<Rightarrow>
                        (gw\<lparr>gw_sched := fst (mark_key_failure (pk_id key) zero_time text is_timeout
                               (at_mark at) (gw_sched gw))\<rparr>, Inl keys)
                    | Upstream resp \<Rightarrow>
                        if is_success (rs_status resp)
                        then (on_served r key (at_mark at) gw, Inr (Served key resp))
                        else (on_failed_response env r key resp (at_mark at) gw, Inl keys))))"

partial_function (option) try_loop :: "gw_env \<Rightarrow> rapi \<Rightarrow> string \<Rightarrow> (nat \<Rightarrow> attempt) \<Rightarrow> nat
    \<Rightarrow> platform_key list \<Rightarrow> gateway \<Rightarrow> (gateway \<times> nat \<times> try_result) option" where
  "try_loop env r session attempts n keys gw =
     (case try_pass env r session (attempts n) keys gw of
        (gw', Inr res) \<Rightarrow> Some (gw', n, res)
      | (gw', Inl keys') \<Rightarrow> try_loop env r session attempts (n + 1) keys' gw')"

definition try_key_for_rapi :: "gw_env \<Rightarrow> rapi \<Rightarrow> string \<Rightarrow> (nat \<Rightarrow> attempt) \<Rightarrow> gateway
    \<Rightarrow> (gateway \<times> nat \<times> try_result) option" where
  "try_key_for_rapi env r session attempts gw =
     (let keys = (if ra_keys r = [] then [synthetic_key r] else ra_keys r)
      in try_loop env r session attempts 0 keys gw)"

end
