(* ===== verification/Json.thy ===== *)
theory Json
  imports Complex_Main "HOL-Library.Log_Nat" "HOL-Library.Finite_Map" GoPrelude
begin

text \<open>
  JSON values as Go sees them after \<open>json.Unmarshal\<close> into an \<open>interface{}\<close>: a number is a finite
  \<open>float64\<close>, which is a rational; an object is a Go map, here a finite map. The functions of this theory are the type
  assertions of the code (\<open>v, ok := x.(T)\<close>), the reads \<open>m[k]\<close> and the helpers at the end of
  \<open>internal/apiformat/convert_request.go\<close>.

  Parsing and printing the text of a value is \<open>encoding/json\<close>, a parameter: \<open>jc_unmarshal\<close> gives
  the value or the error text, \<open>jc_marshal\<close> the bytes. A float that overflows to infinity, the only
  value \<open>json.Marshal\<close> refuses here, is the \<open>None\<close> of \<open>float_add\<close>.
\<close>

section \<open>Values\<close>

datatype json =
    JNull
  | JBool bool
  | JNum rat
  | JStr string
  | JArr "json list"
  | JObj "(string, json) fmap"

type_synonym json_map = "(string, json) fmap"

abbreviation jmap :: "(string \<times> json) list \<Rightarrow> json_map" where "jmap kvs \<equiv> fmap_of_list kvs"
abbreviation obj :: "(string \<times> json) list \<Rightarrow> json" where "obj kvs \<equiv> JObj (fmap_of_list kvs)"

record json_codec =
  jc_unmarshal :: "string \<Rightarrow> string + json"
  jc_marshal :: "json \<Rightarrow> string"

text \<open>\<open>m[k]\<close> on a \<open>map[string]interface{}\<close>: a missing key reads as nil.\<close>

definition jget :: "json_map \<Rightarrow> string \<Rightarrow> json" where
  "jget m k = (case fmlookup m k of None \<Rightarrow> JNull | Some v \<Rightarrow> v)"

definition jput :: "string \<Rightarrow> json \<Rightarrow> json_map \<Rightarrow> json_map" where
  "jput k v m = fmupd k v m"

fun as_str :: "json \<Rightarrow> string option" where
  "as_str (JStr s) = Some s"
| "as_str _ = None"

fun as_num :: "json \<Rightarrow> rat option" where
  "as_num (JNum x) = Some x"
| "as_num _ = None"

fun as_arr :: "json \<Rightarrow> json list option" where
  "as_arr (JArr xs) = Some xs"
| "as_arr _ = None"

fun as_obj :: "json \<Rightarrow> json_map option" where
  "as_obj (JObj m) = Some m"
| "as_obj _ = None"

text \<open>The assertions \<open>x, _ := v.(T)\<close> that ignore the failure read the zero value of \<open>T\<close>: a nil map, a
  nil slice.\<close>

definition obj_of :: "json \<Rightarrow> json_map" where
  "obj_of v = (case as_obj v of None \<Rightarrow> fmempty | Some m \<Rightarrow> m)"

definition arr_of :: "json \<Rightarrow> json list" where
  "arr_of v = (case as_arr v of None \<Rightarrow> [] | Some xs \<Rightarrow> xs)"

text \<open>A loop over an array that skips what is no object.\<close>

definition objects :: "json list \<Rightarrow> json_map list" where
  "objects xs = List.map_filter as_obj xs"

text \<open>A slice declared with \<open>var\<close> and appended to is nil, printed as \<open>null\<close>, while it has no element.\<close>

definition nil_slice :: "json list \<Rightarrow> json" where
  "nil_slice xs = (if xs = [] then JNull else JArr xs)"

section \<open>Helpers of the conversions\<close>

definition get_string :: "json_map \<Rightarrow> string \<Rightarrow> string" where
  "get_string m k = (case as_str (jget m k) of Some s \<Rightarrow> s | None \<Rightarrow> [])"

definition copy_if_present :: "json_map \<Rightarrow> string \<Rightarrow> json_map \<Rightarrow> json_map" where
  "copy_if_present src k dst = (case fmlookup src k of Some v \<Rightarrow> jput k v dst | None \<Rightarrow> dst)"

text \<open>The same with another name in the result: \<open>if v, ok := src[k]; ok { dst[k'] = v }\<close>.\<close>

definition copy_as :: "json_map \<Rightarrow> string \<Rightarrow> string \<Rightarrow> json_map \<Rightarrow> json_map" where
  "copy_as src k k' dst = (case fmlookup src k of Some v \<Rightarrow> jput k' v dst | None \<Rightarrow> dst)"

definition to_json_string :: "json_codec \<Rightarrow> json \<Rightarrow> string" where
  "to_json_string codec v = (case as_str v of Some s \<Rightarrow> s | None \<Rightarrow> jc_marshal codec v)"

text \<open>The arguments of a tool call: a string that is JSON is replaced by its value.\<close>

definition parse_arguments :: "json_codec \<Rightarrow> json \<Rightarrow> json" where
  "parse_arguments codec v =
     (case as_str v of
        None \<Rightarrow> v
      | Some s \<Rightarrow> (case jc_unmarshal codec s of Inr p \<Rightarrow> p | Inl _ \<Rightarrow> v))"

definition extract_gemini_text :: "json_map \<Rightarrow> string" where
  "extract_gemini_text m =
     (case as_arr (jget m ''parts'') of
        None \<Rightarrow> []
      | Some parts \<Rightarrow> concat (map (\<lambda>p. get_string p ''text'') (objects parts)))"

section \<open>Decoding an object\<close>

fun json_kind :: "json \<Rightarrow> string" where
  "json_kind JNull = ''null''"
| "json_kind (JBool _) = ''bool''"
| "json_kind (JNum _) = ''number''"
| "json_kind (JStr _) = ''string''"
| "json_kind (JArr _) = ''array''"
| "json_kind (JObj _) = ''object''"

text \<open>\<open>json.Unmarshal\<close> into a \<open>map[string]interface{}\<close>. The text \<open>null\<close> is no error: it leaves the map
  nil, the \<open>None\<close> inside.\<close>

definition unmarshal_map :: "json_codec \<Rightarrow> string \<Rightarrow> string + json_map option" where
  "unmarshal_map codec data =
     (case jc_unmarshal codec data of
        Inl err \<Rightarrow> Inl err
      | Inr JNull \<Rightarrow> Inr None
      | Inr (JObj m) \<Rightarrow> Inr (Some m)
      | Inr v \<Rightarrow> Inl (''json: cannot unmarshal '' @ json_kind v @ '' into Go value of type map[string]interface {}''))"

text \<open>A map that is only read: a nil map reads as an empty one.\<close>

definition unmarshal_object :: "json_codec \<Rightarrow> string \<Rightarrow> string + json_map" where
  "unmarshal_object codec data =
     (case unmarshal_map codec data of
        Inl err \<Rightarrow> Inl err
      | Inr None \<Rightarrow> Inr fmempty
      | Inr (Some m) \<Rightarrow> Inr m)"

section \<open>Floats\<close>

text \<open>Addition of two \<open>float64\<close>: the exact sum rounded to the nearest of the form \<open>m * 2 ^ e\<close> with
  \<open>m\<close> below \<open>2 ^ 53\<close>, ties to even; \<open>None\<close> when it overflows.\<close>

definition pow2 :: "int \<Rightarrow> rat" where
  "pow2 e = (if 0 \<le> e then 2 ^ nat e else 1 / 2 ^ nat (- e))"

definition round_even :: "rat \<Rightarrow> int" where
  "round_even x =
     (let n = \<lfloor>x\<rfloor>; d = x - of_int n in
      if d < 1 / 2 then n else if 1 / 2 < d then n + 1 else if even n then n else n + 1)"

definition float_exponent :: "rat \<Rightarrow> int" where
  "float_exponent x =
     (let (p, q) = quotient_of \<bar>x\<bar>;
          e = int (floorlog 2 (nat p)) - int (floorlog 2 (nat q)) - 53;
          e = (if pow2 (e + 53) \<le> \<bar>x\<bar> then e + 1 else e)
      in max e (- 1074))"

definition round_float :: "rat \<Rightarrow> rat option" where
  "round_float x =
     (if x = 0 then Some 0
      else (let e = float_exponent x; m = round_even (\<bar>x\<bar> / pow2 e); y = of_int m * pow2 e in
            if pow2 1024 \<le> y then None else Some (sgn x * y)))"

definition float_add :: "rat \<Rightarrow> rat \<Rightarrow> rat option" where
  "float_add x y = round_float (x + y)"

text \<open>\<open>int(x)\<close> truncates; the code applies it to small indices only.\<close>

definition trunc_int :: "rat \<Rightarrow> int" where
  "trunc_int x = (if 0 \<le> x then \<lfloor>x\<rfloor> else \<lceil>x\<rceil>)"

section \<open>Reading back\<close>

lemma jget_simps [simp]:
  "jget fmempty k = JNull"
  "jget (fmupd k' v m) k = (if k' = k then v else jget m k)"
  by (simp_all add: jget_def)

declare jput_def [simp]

lemma get_string_simps [simp]:
  "get_string fmempty k = []"
  "get_string (fmupd k' v m) k = (if k' = k then (case as_str v of Some s \<Rightarrow> s | None \<Rightarrow> []) else get_string m k)"
  by (simp_all add: get_string_def)

lemma jget_list [simp]: "jget (jmap kvs) k = (case map_of kvs k of None \<Rightarrow> JNull | Some v \<Rightarrow> v)"
  by (simp add: jget_def fmlookup_of_list)

lemma of_simps [simp]:
  "obj_of (JObj m) = m" "arr_of (JArr xs) = xs" "obj_of JNull = fmempty" "arr_of JNull = []"
  by (simp_all add: obj_of_def arr_of_def)

lemma objects_simps [simp]:
  "objects [] = []"
  "objects (v # vs) = (case as_obj v of None \<Rightarrow> objects vs | Some m \<Rightarrow> m # objects vs)"
  by (simp_all add: objects_def List.map_filter_def split: option.split)

lemma objects_append [simp]: "objects (us @ vs) = objects us @ objects vs"
  by (induction us) (simp_all split: option.split)

lemma objects_map_obj [simp]: "objects (map JObj ms) = ms"
  by (induction ms) simp_all

end
