(* ===== verification/ConvRequest.thy ===== *)
theory ConvRequest
  imports Json ApiFormat
begin

text \<open>
  Conversion of request bodies, \<open>internal/apiformat/convert_request.go\<close>. The OpenAI format is the
  intermediate one. A body is a string of bytes; each function decodes it with the \<open>json_codec\<close>,
  builds the map \<open>dst\<close> and prints it; an error is an \<open>Inl\<close> with its text.
\<close>

section \<open>Replacing the model\<close>

text \<open>\<open>json.Unmarshal\<close> of \<open>null\<close> leaves the map nil, and the assignment to a nil map panics.\<close>

datatype 'a outcome_or_panic = Returned 'a | Panicked

definition replace_model_field :: "json_codec \<Rightarrow> string \<Rightarrow> string \<Rightarrow> string outcome_or_panic" where
  "replace_model_field codec body new_model =
     (if new_model = [] then Returned body
      else case unmarshal_map codec body of
        Inl _ \<Rightarrow> Returned body
      | Inr None \<Rightarrow> Panicked
      | Inr (Some m) \<Rightarrow> Returned (jc_marshal codec (JObj (jput ''model'' (JStr new_model) m))))"

section \<open>Anthropic to OpenAI\<close>

definition concat_texts :: "json list \<Rightarrow> string" where
  "concat_texts blocks = concat (map (\<lambda>b. get_string b ''text'') (objects blocks))"

definition system_text :: "json \<Rightarrow> string" where
  "system_text system = (case system of JStr s \<Rightarrow> s | JArr blocks \<Rightarrow> concat_texts blocks | _ \<Rightarrow> [])"

definition convert_anthropic_image_to_openai :: "json_map \<Rightarrow> json_map option" where
  "convert_anthropic_image_to_openai block =
     (case as_obj (jget block ''source'') of
        None \<Rightarrow> None
      | Some source \<Rightarrow>
          let type = get_string source ''type'' in
          if type = ''base64'' then
            (let media_type = get_string source ''media_type'';
                 media_type = (if media_type = [] then ''image/png'' else media_type)
             in Some (jmap [(''type'', JStr ''image_url''),
                      (''image_url'', obj [(''url'',
                         JStr (''data:'' @ media_type @ '';base64,'' @ get_string source ''data''))])]))
          else if type = ''url'' then
            Some (jmap [(''type'', JStr ''image_url''), (''image_url'', obj [(''url'', JStr (get_string source ''url''))])])
          else None)"

text \<open>The blocks of a message, sorted by type.\<close>

definition blocks_of_type :: "string \<Rightarrow> json list \<Rightarrow> json_map list" where
  "blocks_of_type ty blocks = filter (\<lambda>b. jget b ''type'' = JStr ty) (objects blocks)"

definition text_parts :: "json list \<Rightarrow> string list" where
  "text_parts blocks = List.map_filter (\<lambda>b. as_str (jget b ''text'')) (blocks_of_type ''text'' blocks)"

definition image_parts :: "json list \<Rightarrow> json list" where
  "image_parts blocks =
     map JObj (List.map_filter convert_anthropic_image_to_openai (blocks_of_type ''image'' blocks))"

definition tool_use_call :: "json_codec \<Rightarrow> json_map \<Rightarrow> json" where
  "tool_use_call codec block =
     obj [(''id'', JStr (get_string block ''id'')), (''type'', JStr ''function''),
           (''function'', obj [(''name'', JStr (get_string block ''name'')),
                                (''arguments'', JStr (to_json_string codec (jget block ''input'')))])]"

definition tool_result_message :: "json_map \<Rightarrow> json" where
  "tool_result_message result =
     obj [(''role'', JStr ''tool''), (''tool_call_id'', JStr (get_string result ''tool_use_id'')),
           (''content'', JStr (case jget result ''content'' of
                                 JStr c \<Rightarrow> c | JArr c \<Rightarrow> concat_texts c | _ \<Rightarrow> []))]"

definition anthropic_message :: "json_codec \<Rightarrow> json_map \<Rightarrow> json list" where
  "anthropic_message codec msg =
     (let role = JStr (get_string msg ''role'') in
      case jget msg ''content'' of
        JStr content \<Rightarrow> [obj [(''role'', role), (''content'', JStr content)]]
      | JArr blocks \<Rightarrow>
          let texts = text_parts blocks; images = image_parts blocks;
              tool_calls = map (tool_use_call codec) (blocks_of_type ''tool_use'' blocks);
              tool_results = blocks_of_type ''tool_result'' blocks
          in if tool_results \<noteq> [] then map tool_result_message tool_results
             else
               (let content =
                      (if images \<noteq> []
                       then JArr ((if texts = [] then []
                                   else [obj [(''type'', JStr ''text''), (''text'', JStr (concat texts))]]) @ images)
                       else JStr (concat texts));
                    out = jmap [(''role'', role), (''content'', content)];
                    out = (if tool_calls = [] then out
                           else (let out = jput ''tool_calls'' (JArr tool_calls) out
                                 in if content = JStr [] then jput ''content'' JNull out else out))
                in [JObj out])
      | _ \<Rightarrow> [obj [(''role'', role)]])"

definition anthropic_tool :: "json_map \<Rightarrow> json" where
  "anthropic_tool tool =
     obj [(''type'', JStr ''function''),
           (''function'', obj [(''name'', JStr (get_string tool ''name'')),
                                (''description'', JStr (get_string tool ''description'')),
                                (''parameters'', jget tool ''input_schema'')])]"

definition convert_anthropic_tool_choice_to_openai :: "json_map \<Rightarrow> json" where
  "convert_anthropic_tool_choice_to_openai tc =
     (let type = get_string tc ''type'' in
      if type = ''auto'' then JStr ''auto''
      else if type = ''any'' then JStr ''required''
      else if type = ''tool'' then
        obj [(''type'', JStr ''function''), (''function'', obj [(''name'', JStr (get_string tc ''name''))])]
      else if type = ''none'' then JStr ''none''
      else JStr ''auto'')"

definition anthropic_to_openai_map :: "json_codec \<Rightarrow> json_map \<Rightarrow> json_map" where
  "anthropic_to_openai_map codec src =
     (let dst = jmap [(''model'', JStr (get_string src ''model''))];
          system = system_text (jget src ''system'');
          messages =
            (if system = [] then []
             else [obj [(''role'', JStr ''system''), (''content'', JStr system)]])
            @ concat (map (anthropic_message codec) (objects (arr_of (jget src ''messages''))));
          dst = jput ''messages'' (JArr messages) dst;
          dst = copy_if_present src ''stream'' dst;
          dst = copy_if_present src ''temperature'' dst;
          dst = copy_if_present src ''top_p'' dst;
          dst = copy_if_present src ''max_tokens'' dst;
          dst = copy_as src ''stop_sequences'' ''stop'' dst;
          tools = map anthropic_tool (objects (arr_of (jget src ''tools'')));
          dst = (if tools = [] then dst else jput ''tools'' (JArr tools) dst)
      in case as_obj (jget src ''tool_choice'') of
           None \<Rightarrow> dst
         | Some tc \<Rightarrow> jput ''tool_choice'' (convert_anthropic_tool_choice_to_openai tc) dst)"

definition anthropic_to_openai_request :: "json_codec \<Rightarrow> string \<Rightarrow> string + string" where
  "anthropic_to_openai_request codec body =
     (case unmarshal_object codec body of
        Inl err \<Rightarrow> Inl err
      | Inr src \<Rightarrow> Inr (jc_marshal codec (JObj (anthropic_to_openai_map codec src))))"

section \<open>Gemini to OpenAI\<close>

definition gemini_message :: "json_map \<Rightarrow> json" where
  "gemini_message content =
     (let role = get_string content ''role'';
          role = (if role = ''model'' then ''assistant'' else role)
      in obj [(''role'', JStr role), (''content'', JStr (extract_gemini_text content))])"

definition gemini_tool :: "json_map \<Rightarrow> json" where
  "gemini_tool fn =
     obj [(''type'', JStr ''function''),
           (''function'', obj [(''name'', JStr (get_string fn ''name'')),
                                (''description'', JStr (get_string fn ''description'')),
                                (''parameters'', jget fn ''parameters'')])]"

definition convert_gemini_tool_config_to_openai :: "json_map \<Rightarrow> json" where
  "convert_gemini_tool_config_to_openai fcc =
     (let mode = get_string fcc ''mode'' in
      if mode = ''AUTO'' then JStr ''auto''
      else if mode = ''ANY'' then
        (case jget fcc ''allowedFunctionNames'' of
           JArr [JStr name] \<Rightarrow>
             obj [(''type'', JStr ''function''), (''function'', obj [(''name'', JStr name)])]
         | _ \<Rightarrow> JStr ''required'')
      else if mode = ''NONE'' then JStr ''none''
      else JStr ''auto'')"

definition gemini_to_openai_map :: "json_map \<Rightarrow> json_map" where
  "gemini_to_openai_map src =
     (let system = (case as_obj (jget src ''systemInstruction'') of
                      None \<Rightarrow> [] | Some si \<Rightarrow> extract_gemini_text si);
          messages =
            (if system = [] then []
             else [obj [(''role'', JStr ''system''), (''content'', JStr system)]])
            @ map gemini_message (objects (arr_of (jget src ''contents'')));
          dst = jmap [(''messages'', JArr messages)];
          gc = obj_of (jget src ''generationConfig'');
          dst = copy_as gc ''temperature'' ''temperature'' dst;
          dst = copy_as gc ''topP'' ''top_p'' dst;
          dst = copy_as gc ''maxOutputTokens'' ''max_tokens'' dst;
          dst = copy_as src ''_stream'' ''stream'' dst;
          tools = concat (map (\<lambda>tool. map gemini_tool (objects (arr_of (jget tool ''functionDeclarations''))))
                            (objects (arr_of (jget src ''tools''))));
          dst = (if tools = [] then dst else jput ''tools'' (JArr tools) dst)
      in case as_obj (jget src ''toolConfig'') of
           None \<Rightarrow> dst
         | Some tc \<Rightarrow>
             (case as_obj (jget tc ''functionCallingConfig'') of
                None \<Rightarrow> dst
              | Some fcc \<Rightarrow> jput ''tool_choice'' (convert_gemini_tool_config_to_openai fcc) dst))"

definition gemini_to_openai_request :: "json_codec \<Rightarrow> string \<Rightarrow> string + string" where
  "gemini_to_openai_request codec body =
     (case unmarshal_object codec body of
        Inl err \<Rightarrow> Inl err
      | Inr src \<Rightarrow> Inr (jc_marshal codec (JObj (gemini_to_openai_map src))))"

section \<open>OpenAI to Anthropic\<close>

definition text_block :: "string \<Rightarrow> json" where
  "text_block t = obj [(''type'', JStr ''text''), (''text'', JStr t)]"

definition parse_data_url :: "string \<Rightarrow> string \<times> string" where
  "parse_data_url url =
     (let rest = trim_prefix url ''data:'' in
      case str_index rest '';base64,'' of
        None \<Rightarrow> (''image/png'', rest)
      | Some i \<Rightarrow> (take i rest, drop (i + 8) rest))"

definition openai_part_to_anthropic :: "json_map \<Rightarrow> json list" where
  "openai_part_to_anthropic part =
     (let type = get_string part ''type'' in
      if type = ''text'' then [text_block (get_string part ''text'')]
      else if type = ''image_url'' then
        (let url = get_string (obj_of (jget part ''image_url'')) ''url'' in
         if has_prefix url ''data:'' then
           (let (media_type, data) = parse_data_url url in
            [obj [(''type'', JStr ''image''),
                   (''source'', obj [(''type'', JStr ''base64''), (''media_type'', JStr media_type),
                                      (''data'', JStr data)])]])
         else if url \<noteq> [] then
           [obj [(''type'', JStr ''image''),
                  (''source'', obj [(''type'', JStr ''url''), (''url'', JStr url)])]]
         else [])
      else [])"

definition convert_openai_content_array_to_anthropic :: "json list \<Rightarrow> json list" where
  "convert_openai_content_array_to_anthropic arr =
     (let blocks = concat (map openai_part_to_anthropic (objects arr))
      in if blocks = [] then [text_block []] else blocks)"

definition anthropic_content :: "json_map \<Rightarrow> json" where
  "anthropic_content msg =
     (case jget msg ''content'' of
        JStr content \<Rightarrow> JArr [text_block content]
      | JArr arr \<Rightarrow> JArr (convert_openai_content_array_to_anthropic arr)
      | JNull \<Rightarrow> JArr [text_block []]
      | raw \<Rightarrow> raw)"

definition tool_use_block :: "json_codec \<Rightarrow> json_map \<Rightarrow> json" where
  "tool_use_block codec call =
     (let fn = obj_of (jget call ''function'') in
      obj [(''type'', JStr ''tool_use''), (''id'', JStr (get_string call ''id'')),
            (''name'', JStr (get_string fn ''name'')),
            (''input'', parse_arguments codec (jget fn ''arguments''))])"

definition openai_message_to_anthropic :: "json_codec \<Rightarrow> json_map \<Rightarrow> json" where
  "openai_message_to_anthropic codec msg =
     (let role = get_string msg ''role'' in
      if role = ''tool'' then
        obj [(''role'', JStr ''user''),
              (''content'', JArr [obj [(''type'', JStr ''tool_result''),
                                        (''tool_use_id'', JStr (get_string msg ''tool_call_id'')),
                                        (''content'', jget msg ''content'')]])]
      else
        (let content = anthropic_content msg;
             content =
               (case as_arr (jget msg ''tool_calls'') of
                  None \<Rightarrow> content
                | Some tool_calls \<Rightarrow>
                    JArr (map JObj (filter (\<lambda>b. get_string b ''text'' \<noteq> []) (objects (arr_of content)))
                          @ map (tool_use_block codec) (objects tool_calls)))
         in obj [(''role'', JStr role), (''content'', content)]))"

text \<open>One turn of the loop over the messages: \<open>dst\<close> and the messages so far.\<close>

definition anthropic_step :: "json_codec \<Rightarrow> json_map \<Rightarrow> json_map \<times> json list \<Rightarrow> json_map \<times> json list" where
  "anthropic_step codec msg acc =
     (let (dst, messages) = acc in
      if get_string msg ''role'' = ''system''
      then (jput ''system'' (jget msg ''content'') dst, messages)
      else (dst, messages @ [openai_message_to_anthropic codec msg]))"

definition openai_tool_to_anthropic :: "json_map \<Rightarrow> json" where
  "openai_tool_to_anthropic tool =
     (let fn = obj_of (jget tool ''function'') in
      obj [(''name'', JStr (get_string fn ''name'')), (''description'', JStr (get_string fn ''description'')),
            (''input_schema'', jget fn ''parameters'')])"

definition convert_openai_tool_choice_to_anthropic :: "json \<Rightarrow> json_map" where
  "convert_openai_tool_choice_to_anthropic tc =
     (case tc of
        JStr v \<Rightarrow>
          jmap [(''type'', JStr (if v = ''auto'' then ''auto'' else if v = ''required'' then ''any''
                            else if v = ''none'' then ''none'' else ''auto''))]
      | JObj v \<Rightarrow>
          (case as_obj (jget v ''function'') of
             Some fn \<Rightarrow> jmap [(''type'', JStr ''tool''), (''name'', JStr (get_string fn ''name''))]
           | None \<Rightarrow> jmap [(''type'', JStr ''auto'')])
      | _ \<Rightarrow> jmap [(''type'', JStr ''auto'')])"

definition openai_to_anthropic_map :: "json_codec \<Rightarrow> string \<Rightarrow> json_map \<Rightarrow> json_map" where
  "openai_to_anthropic_map codec model src =
     (let dst = jmap [(''model'', JStr model)];
          (dst, messages) = fold (anthropic_step codec) (objects (arr_of (jget src ''messages''))) (dst, []);
          dst = jput ''messages'' (nil_slice messages) dst;
          dst = (case fmlookup src ''max_tokens'' of
                   Some v \<Rightarrow> jput ''max_tokens'' v dst
                 | None \<Rightarrow> jput ''max_tokens'' (JNum 32768) dst);
          dst = copy_if_present src ''stream'' dst;
          dst = copy_if_present src ''temperature'' dst;
          dst = copy_if_present src ''top_p'' dst;
          dst = copy_as src ''stop'' ''stop_sequences'' dst;
          tools = map openai_tool_to_anthropic (objects (arr_of (jget src ''tools'')));
          dst = (if tools = [] then dst else jput ''tools'' (JArr tools) dst)
      in case fmlookup src ''tool_choice'' of
           None \<Rightarrow> dst
         | Some tc \<Rightarrow> jput ''tool_choice'' (JObj (convert_openai_tool_choice_to_anthropic tc)) dst)"

definition openai_to_anthropic_request :: "json_codec \<Rightarrow> string \<Rightarrow> string \<Rightarrow> string + string" where
  "openai_to_anthropic_request codec body model =
     (case unmarshal_object codec body of
        Inl err \<Rightarrow> Inl err
      | Inr src \<Rightarrow> Inr (jc_marshal codec (JObj (openai_to_anthropic_map codec model src))))"

section \<open>OpenAI to Gemini\<close>

text \<open>\<open>toolCallNames\<close>: from the id of a call to the name of its function.\<close>

definition note_call :: "json_map \<Rightarrow> (string \<times> string) list \<Rightarrow> (string \<times> string) list" where
  "note_call call names =
     (let id = get_string call ''id''; name = get_string (obj_of (jget call ''function'')) ''name''
      in if id = [] then names else AList.update id name names)"

definition tool_call_names :: "json_map list \<Rightarrow> (string \<times> string) list" where
  "tool_call_names msgs =
     fold (\<lambda>msg names.
             if get_string msg ''role'' \<noteq> ''assistant'' then names
             else fold note_call (objects (arr_of (jget msg ''tool_calls''))) names) msgs []"

definition tool_result_name :: "(string \<times> string) list \<Rightarrow> json_map \<Rightarrow> string" where
  "tool_result_name names msg =
     (let id = get_string msg ''tool_call_id'';
          name = (if id = [] then [] else case map_of names id of Some n \<Rightarrow> n | None \<Rightarrow> []);
          name = (if name = [] then get_string msg ''name'' else name)
      in if name = [] then ''unknown'' else name)"

definition tool_response :: "json_codec \<Rightarrow> json \<Rightarrow> json" where
  "tool_response codec content =
     (case as_str content of
        None \<Rightarrow> content
      | Some s \<Rightarrow> (case jc_unmarshal codec s of Inr p \<Rightarrow> p | Inl _ \<Rightarrow> obj [(''result'', JStr s)]))"

definition openai_part_to_gemini :: "json_map \<Rightarrow> json list" where
  "openai_part_to_gemini part =
     (let type = get_string part ''type'' in
      if type = ''text'' then [obj [(''text'', JStr (get_string part ''text''))]]
      else if type = ''image_url'' then
        (let url = get_string (obj_of (jget part ''image_url'')) ''url'' in
         if has_prefix url ''data:'' then
           (let (media_type, data) = parse_data_url url in
            [obj [(''inlineData'', obj [(''mimeType'', JStr media_type), (''data'', JStr data)])]])
         else [])
      else [])"

definition function_call_part :: "json_codec \<Rightarrow> json_map \<Rightarrow> json" where
  "function_call_part codec call =
     (let fn = obj_of (jget call ''function'') in
      obj [(''functionCall'', obj [(''name'', JStr (get_string fn ''name'')),
                                     (''args'', parse_arguments codec (jget fn ''arguments''))])])"

definition gemini_parts :: "json_codec \<Rightarrow> json_map \<Rightarrow> json list" where
  "gemini_parts codec msg =
     (case jget msg ''content'' of
        JStr content \<Rightarrow> if content = [] then [] else [obj [(''text'', JStr content)]]
      | JArr arr \<Rightarrow> concat (map openai_part_to_gemini (objects arr))
      | _ \<Rightarrow> [])
     @ map (function_call_part codec) (objects (arr_of (jget msg ''tool_calls'')))"

definition gemini_step :: "json_codec \<Rightarrow> (string \<times> string) list \<Rightarrow> json_map \<Rightarrow> json_map \<times> json list
    \<Rightarrow> json_map \<times> json list" where
  "gemini_step codec names msg acc =
     (let (dst, contents) = acc; role = get_string msg ''role'' in
      if role = ''system''
      then (jput ''systemInstruction'' (obj [(''parts'', JArr [obj [(''text'', jget msg ''content'')]])]) dst, contents)
      else if role = ''tool''
      then (dst, contents @
              [obj [(''role'', JStr ''user''),
                     (''parts'', JArr [obj [(''functionResponse'',
                        obj [(''name'', JStr (tool_result_name names msg)),
                              (''response'', tool_response codec (jget msg ''content''))])]])]])
      else (let parts = gemini_parts codec msg
            in (dst, if parts = [] then contents
                     else contents @ [obj [(''role'', JStr (if role = ''assistant'' then ''model'' else role)),
                                            (''parts'', JArr parts)]])))"

definition openai_tool_to_gemini :: "json_map \<Rightarrow> json" where
  "openai_tool_to_gemini tool =
     (let fn = obj_of (jget tool ''function'') in
      obj [(''name'', JStr (get_string fn ''name'')), (''description'', JStr (get_string fn ''description'')),
            (''parameters'', jget fn ''parameters'')])"

definition calling_config :: "json_map \<Rightarrow> json_map" where
  "calling_config m = jmap [(''functionCallingConfig'', JObj m)]"

definition convert_openai_tool_choice_to_gemini :: "json \<Rightarrow> json_map" where
  "convert_openai_tool_choice_to_gemini tc =
     (case tc of
        JStr v \<Rightarrow>
          calling_config (jmap [(''mode'', JStr (if v = ''auto'' then ''AUTO'' else if v = ''required'' then ''ANY''
                                           else if v = ''none'' then ''NONE'' else ''AUTO''))])
      | JObj v \<Rightarrow>
          (case as_obj (jget v ''function'') of
             Some fn \<Rightarrow> calling_config (jmap [(''mode'', JStr ''ANY''),
                          (''allowedFunctionNames'', JArr [JStr (get_string fn ''name'')])])
           | None \<Rightarrow> calling_config (jmap [(''mode'', JStr ''AUTO'')]))
      | _ \<Rightarrow> calling_config (jmap [(''mode'', JStr ''AUTO'')]))"

definition openai_to_gemini_map :: "json_codec \<Rightarrow> json_map \<Rightarrow> json_map" where
  "openai_to_gemini_map codec src =
     (let msgs = objects (arr_of (jget src ''messages''));
          (dst, contents) = fold (gemini_step codec (tool_call_names msgs)) msgs (fmempty, []);
          dst = jput ''contents'' (nil_slice contents) dst;
          config = copy_as src ''temperature'' ''temperature'' fmempty;
          config = copy_as src ''top_p'' ''topP'' config;
          config = copy_as src ''max_tokens'' ''maxOutputTokens'' config;
          config = copy_as src ''stop'' ''stopSequences'' config;
          dst = (if config = fmempty then dst else jput ''generationConfig'' (JObj config) dst);
          decls = map openai_tool_to_gemini (objects (arr_of (jget src ''tools'')));
          dst = (if decls = [] then dst
                 else jput ''tools'' (JArr [obj [(''functionDeclarations'', JArr decls)]]) dst)
      in case fmlookup src ''tool_choice'' of
           None \<Rightarrow> dst
         | Some tc \<Rightarrow> jput ''toolConfig'' (JObj (convert_openai_tool_choice_to_gemini tc)) dst)"

definition openai_to_gemini_request :: "json_codec \<Rightarrow> string \<Rightarrow> string + string" where
  "openai_to_gemini_request codec body =
     (case unmarshal_object codec body of
        Inl err \<Rightarrow> Inl err
      | Inr src \<Rightarrow> Inr (jc_marshal codec (JObj (openai_to_gemini_map codec src))))"

section \<open>From one format to another\<close>

definition to_canonical_request :: "json_codec \<Rightarrow> string \<Rightarrow> api_format \<Rightarrow> string + string" where
  "to_canonical_request codec body from =
     (if from = FormatAnthropic then anthropic_to_openai_request codec body
      else if from = FormatGemini then gemini_to_openai_request codec body
      else Inr body)"

definition from_canonical_request :: "json_codec \<Rightarrow> string \<Rightarrow> api_format \<Rightarrow> string \<Rightarrow> string + string" where
  "from_canonical_request codec body to model =
     (if to = FormatAnthropic then openai_to_anthropic_request codec body model
      else if to = FormatGemini then openai_to_gemini_request codec body
      else Inr body)"

definition convert_request :: "json_codec \<Rightarrow> string \<Rightarrow> api_format \<Rightarrow> api_format \<Rightarrow> string
    \<Rightarrow> (string + string) outcome_or_panic" where
  "convert_request codec body from to model =
     (case (if from = FormatOpenAI then Inr body else to_canonical_request codec body from) of
        Inl err \<Rightarrow> Returned (Inl (''parse '' @ from @ '' request: '' @ err))
      | Inr canonical \<Rightarrow>
          (case replace_model_field codec canonical model of
             Panicked \<Rightarrow> Panicked
           | Returned canonical \<Rightarrow>
               Returned (if to = FormatOpenAI then Inr canonical
                         else from_canonical_request codec canonical to model)))"

end
