(* ===== verification/Upstream.thy ===== *)
theory Upstream
  imports KeyPool ConvRequest
begin

text \<open>
  One upstream request of the gateway, \<open>internal/gateway/gateway.go\<close>: the format and the address it
  goes to (\<open>pickTargetFormat\<close>, \<open>resolveUpstreamURL\<close>), the headers \<open>doUpstreamRequest\<close> sends, and what
  is read from the answer: the token usage (\<open>extractTokenUsage\<close>, \<open>extractUsageDetail\<close>) and the
  bounded copy of the body kept for the log (\<open>limitedWriter\<close>, \<open>firstFrameRecorder\<close>).

  Parameters: \<open>up_hostname\<close> is \<open>url.Parse\<close> with \<open>Hostname\<close>; \<open>up_headers\<close> decodes the JSON list of custom
  headers; \<open>up_object\<close> and \<open>up_number\<close> are \<open>json.Unmarshal\<close> into a \<open>map[string]json.RawMessage\<close>, whose
  values stay text, and into a \<open>float64\<close> (the text \<open>null\<close> gives the empty map and 0).
\<close>

record upstream_env = gw_env +
  up_hostname :: "string \<Rightarrow> string option"
  up_headers :: "string \<Rightarrow> (string \<times> string) list option"
  up_object :: "string \<Rightarrow> (string \<rightharpoonup> string) option"
  up_number :: "string \<Rightarrow> rat option"
  up_codec :: json_codec

section \<open>Format and address\<close>

definition pick_target_format :: "runtime \<Rightarrow> rapi \<Rightarrow> string \<Rightarrow> string" where
  "pick_target_format rt r client_format =
     (if supports_api_format rt r client_format then client_format
      else case find (supports_api_format rt r) [''openai'', ''anthropic'', ''gemini''] of
        Some f \<Rightarrow> f
      | None \<Rightarrow> ''openai'')"

definition resolve_upstream_url :: "runtime \<Rightarrow> rapi \<Rightarrow> string \<Rightarrow> string" where
  "resolve_upstream_url rt r target_format =
     (let recorded =
            (if ra_platform_format_endpoints r \<noteq> '''' \<and> ra_platform_format_endpoints r \<noteq> ''{}''
             then (case rt_string_map rt (ra_platform_format_endpoints r) of
                     None \<Rightarrow> None
                   | Some endpoints \<Rightarrow> map_of endpoints target_format)
             else None)
      in case recorded of
           None \<Rightarrow> build_url (ra_base_url r) (ra_model r) target_format
         | Some u \<Rightarrow> if u \<noteq> [] then u else build_url (ra_base_url r) (ra_model r) target_format)"

definition is_google_native_base_url :: "upstream_env \<Rightarrow> string \<Rightarrow> bool" where
  "is_google_native_base_url env base_url =
     (if base_url = [] then False
      else case up_hostname env (trim_space base_url) of
        None \<Rightarrow> False
      | Some name \<Rightarrow>
          (let host = to_lower (rt_lower (ge_rt env)) name in
           has_suffix host ''googleapis.com'' \<and>
             (str_contains host ''generativelanguage'' \<or> str_contains host ''aiplatform'')))"

section \<open>Headers\<close>

text \<open>\<open>http.Header.Set\<close> stores under the canonical form of the key: the first letter and each letter
  after a hyphen in upper case, the others in lower case; a key with a byte that may not occur in a
  header name is left as it is.\<close>

definition header_char :: "char \<Rightarrow> bool" where
  "header_char c \<longleftrightarrow>
     (CHR ''a'' \<le> c \<and> c \<le> CHR ''z'') \<or> (CHR ''A'' \<le> c \<and> c \<le> CHR ''Z'') \<or> (CHR ''0'' \<le> c \<and> c \<le> CHR ''9'') \<or>
     c \<in> set ''!#$%&*+-.^_`|~'' \<or> c = CHR 0x27"

definition ascii_upper :: "char \<Rightarrow> char" where
  "ascii_upper c = (if CHR ''a'' \<le> c \<and> c \<le> CHR ''z'' then char_of (of_char c - 32 :: nat) else c)"

fun canonical_letters :: "bool \<Rightarrow> string \<Rightarrow> string" where
  "canonical_letters upper [] = []"
| "canonical_letters upper (c # s) =
     (if upper then ascii_upper c else ascii_lower c) # canonical_letters (c = CHR ''-'') s"

definition canonical_header_key :: "string \<Rightarrow> string" where
  "canonical_header_key s = (if \<forall>c \<in> set s. header_char c then canonical_letters True s else s)"

type_synonym header_map = "(string \<times> string) list"

definition set_header :: "string \<Rightarrow> string \<Rightarrow> header_map \<Rightarrow> header_map" where
  "set_header k v hm = AList.update (canonical_header_key k) v hm"

definition auth_headers :: "upstream_env \<Rightarrow> rapi \<Rightarrow> string \<Rightarrow> string \<Rightarrow> header_map \<Rightarrow> header_map" where
  "auth_headers env r target_format token hm =
     (if target_format = ''anthropic''
      then set_header ''anthropic-version'' ''2023-06-01'' (set_header ''x-api-key'' token hm)
      else if target_format = ''gemini'' \<and> is_google_native_base_url env (ra_base_url r)
      then set_header ''x-goog-api-key'' token hm
      else set_header ''Authorization'' (''Bearer '' @ token) hm)"

text \<open>\<open>strings.ReplaceAll\<close> with a pattern that is not empty.\<close>

function replace_all :: "string \<Rightarrow> string \<Rightarrow> string \<Rightarrow> string" where
  "replace_all old new s =
     (if s = [] \<or> old = [] then s
      else if take (length old) s = old then new @ replace_all old new (drop (length old) s)
      else hd s # replace_all old new (tl s))"
  by pat_completeness auto
termination by (relation "measure (\<lambda>(old, new, s). length s)") auto

text \<open>What one expansion reads: the Unix seconds of the clock and a new UUID.\<close>

definition expand_header_value :: "int \<Rightarrow> string \<Rightarrow> string \<Rightarrow> string" where
  "expand_header_value unix uuid v =
     (let v = (if str_contains v ''{{timestamp}}'' then replace_all ''{{timestamp}}'' (int_str unix) v else v)
      in if str_contains v ''{{uuid}}'' then replace_all ''{{uuid}}'' uuid v else v)"

definition custom_headers :: "upstream_env \<Rightarrow> string \<Rightarrow> (string \<times> string) list" where
  "custom_headers env src =
     (if src = [] then []
      else case up_headers env src of
        None \<Rightarrow> []
      | Some hs \<Rightarrow> filter (\<lambda>(k, v). trim_space k \<noteq> []) hs)"

fun set_custom :: "(nat \<Rightarrow> int \<times> string) \<Rightarrow> nat \<Rightarrow> (string \<times> string) list \<Rightarrow> header_map \<Rightarrow> header_map" where
  "set_custom stamps n [] hm = hm"
| "set_custom stamps n ((k, v) # hs) hm =
     set_custom stamps (n + 1) hs
       (set_header k (expand_header_value (fst (stamps n)) (snd (stamps n)) v) hm)"

definition upstream_headers :: "upstream_env \<Rightarrow> rapi \<Rightarrow> string \<Rightarrow> string \<Rightarrow> (nat \<Rightarrow> int \<times> string) \<Rightarrow> header_map" where
  "upstream_headers env r target_format token stamps =
     (let hm = set_header ''Accept-Encoding'' ''identity'' (set_header ''Content-Type'' ''application/json'' []);
          hm = auth_headers env r target_format token hm
      in set_custom stamps 0
           (concat (map (custom_headers env) [ra_platform_custom_headers r, ra_custom_headers r])) hm)"

section \<open>Token usage\<close>

definition extract_token_usage :: "(string \<Rightarrow> string) \<Rightarrow> int" where
  "extract_token_usage header =
     (case (if header ''Openai-Usage'' \<noteq> [] then atoi (header ''Openai-Usage'') else None) of
        Some tokens \<Rightarrow> tokens
      | None \<Rightarrow>
          (case (if header ''X-Token-Usage'' \<noteq> [] then atoi (header ''X-Token-Usage'') else None) of
             Some n \<Rightarrow> n
           | None \<Rightarrow> 0))"

text \<open>\<open>int(f)\<close> of a \<open>float64\<close>: out of the range of an \<open>int\<close> Go leaves the result to the machine; amd64
  gives the least \<open>int\<close>.\<close>

definition float_to_int :: "rat \<Rightarrow> int" where
  "float_to_int f =
     (let i = trunc_int f in if - (2 ^ 63) \<le> i \<and> i < 2 ^ 63 then i else - (2 ^ 63))"

definition raw_int :: "upstream_env \<Rightarrow> string \<Rightarrow> int" where
  "raw_int env raw =
     (if raw = [] then 0 else case up_number env raw of None \<Rightarrow> 0 | Some f \<Rightarrow> float_to_int f)"

text \<open>A missing key of the map reads as an empty \<open>RawMessage\<close>.\<close>

definition raw_field :: "upstream_env \<Rightarrow> (string \<rightharpoonup> string) \<Rightarrow> string \<Rightarrow> int" where
  "raw_field env m k = raw_int env (case m k of None \<Rightarrow> [] | Some raw \<Rightarrow> raw)"

type_synonym usage = "int \<times> int \<times> int"

definition usage_of_usage :: "upstream_env \<Rightarrow> (string \<rightharpoonup> string) \<Rightarrow> usage" where
  "usage_of_usage env um =
     (let cached = (case um ''prompt_tokens_details'' of
              None \<Rightarrow> 0
            | Some d \<Rightarrow> (case up_object env d of None \<Rightarrow> 0 | Some dm \<Rightarrow> raw_field env dm ''cached_tokens''));
          t_in = raw_field env um ''prompt_tokens'';
          t_out = raw_field env um ''completion_tokens''
      in (if t_in = 0 then raw_field env um ''input_tokens'' else t_in,
          if t_out = 0 then raw_field env um ''output_tokens'' else t_out,
          if cached = 0
          then wrap64 (raw_field env um ''cache_read_input_tokens'' + raw_field env um ''cache_creation_input_tokens'')
          else cached))"

definition fill_gemini :: "upstream_env \<Rightarrow> (string \<rightharpoonup> string) \<Rightarrow> usage \<Rightarrow> usage" where
  "fill_gemini env gm u =
     (let (t_in, t_out, cached) = u
      in (if t_in = 0 then raw_field env gm ''promptTokenCount'' else t_in,
          if t_out = 0 then raw_field env gm ''candidatesTokenCount'' else t_out,
          if cached = 0 then raw_field env gm ''cachedContentTokenCount'' else cached))"

definition usage_from_object :: "upstream_env \<Rightarrow> (string \<rightharpoonup> string) \<Rightarrow> usage" where
  "usage_from_object env m =
     (let u = (case m ''usage'' of
             None \<Rightarrow> (0, 0, 0)
           | Some raw \<Rightarrow> (case up_object env raw of None \<Rightarrow> (0, 0, 0) | Some um \<Rightarrow> usage_of_usage env um))
      in case m ''usageMetadata'' of
           None \<Rightarrow> u
         | Some raw \<Rightarrow> (case up_object env raw of None \<Rightarrow> u | Some gm \<Rightarrow> fill_gemini env gm u))"

definition reports :: "usage \<Rightarrow> bool" where
  "reports u \<longleftrightarrow> (case u of (t_in, t_out, cached) \<Rightarrow> t_in > 0 \<or> t_out > 0 \<or> cached > 0)"

definition frame_payload :: "string \<Rightarrow> string option" where
  "frame_payload line =
     (let line = trim_space line in
      if \<not> has_prefix line ''data:'' then None
      else (let payload = trim_space (trim_prefix line ''data:'')
            in if payload = [] \<or> payload = ''[DONE]'' then None else Some payload))"

definition frame_step :: "upstream_env \<Rightarrow> string \<Rightarrow> usage \<Rightarrow> usage" where
  "frame_step env line u =
     (case frame_payload line of
        None \<Rightarrow> u
      | Some payload \<Rightarrow>
          (case up_object env payload of
             None \<Rightarrow> u
           | Some probe \<Rightarrow> (let v = usage_from_object env probe in if reports v then v else u)))"

definition extract_usage_detail :: "upstream_env \<Rightarrow> string \<Rightarrow> usage" where
  "extract_usage_detail env body =
     (if body = [] then (0, 0, 0)
      else
        (let u = (if str_contains body ''data:''
                  then fold (frame_step env) (split_on (CHR 0x0A) body) (0, 0, 0) else (0, 0, 0))
         in if reports u then u
            else case up_object env body of
              None \<Rightarrow> (0, 0, 0)
            | Some probe \<Rightarrow> usage_from_object env probe))"

section \<open>The copy kept for the log\<close>

text \<open>\<open>limitedWriter.Write\<close>: the buffer after it and the number of bytes it says it wrote.\<close>

definition limited_write :: "nat \<Rightarrow> string \<Rightarrow> string \<Rightarrow> string \<times> nat" where
  "limited_write limit p buf =
     (if limit \<le> length buf then (buf, length p)
      else let p = take (limit - length buf) p in (buf @ p, length p))"

definition first_frame_write :: "instant \<Rightarrow> string \<Rightarrow> instant \<Rightarrow> instant" where
  "first_frame_write now p first_seen = (if p \<noteq> [] \<and> first_seen = zero_time then now else first_seen)"

definition stream_log_cap :: nat where
  "stream_log_cap = 32 * 1024"

text \<open>The tee over the chunks read: the captured text and the time of the first frame.\<close>

definition tee_chunk :: "instant \<times> string \<Rightarrow> string \<times> instant \<Rightarrow> string \<times> instant" where
  "tee_chunk c s =
     (let (now, p) = c; (buf, first_seen) = s
      in (fst (limited_write stream_log_cap p buf), first_frame_write now p first_seen))"

definition captured :: "(instant \<times> string) list \<Rightarrow> string \<times> instant" where
  "captured chunks = fold tee_chunk chunks ([], zero_time)"
section \<open>What the headers carry\<close>

lemma set_header_lookup [simp]:
  "map_of (set_header k v hm) key = (if key = canonical_header_key k then Some v else map_of hm key)"
  by (simp add: set_header_def update_conv')

lemma set_custom_append:
  "set_custom stamps n (hs @ [(k, v)]) hm =
     set_header k (expand_header_value (fst (stamps (n + length hs))) (snd (stamps (n + length hs))) v)
       (set_custom stamps n hs hm)"
  by (induction hs arbitrary: n hm) (auto split: prod.split)

lemma set_custom_other:
  "key \<notin> canonical_header_key ` fst ` set hs \<Longrightarrow> map_of (set_custom stamps n hs hm) key = map_of hm key"
  by (induction hs arbitrary: n hm) auto

lemma set_custom_last:
  assumes "key \<notin> canonical_header_key ` fst ` set hs'" and "canonical_header_key k = key"
  shows "map_of (set_custom stamps n (hs @ (k, v) # hs') hm) key =
    Some (expand_header_value (fst (stamps (n + length hs))) (snd (stamps (n + length hs))) v)"
  using assms by (induction hs arbitrary: n hm) (auto simp: set_custom_other)

text \<open>The headers of an upstream request: a custom header of the endpoint wins over the platform's and
  over the ones the gateway sets, the credential included, whatever the case it is written in; of
  several with one name the last wins, with its placeholders expanded. A request with no custom header of
  a name keeps the gateway's.\<close>

lemma custom_header_wins:
  assumes "custom_headers env (ra_custom_headers r) = hs @ (k, v) # hs'"
    and "canonical_header_key k \<notin> canonical_header_key ` fst ` set hs'"
  defines "n \<equiv> length (custom_headers env (ra_platform_custom_headers r)) + length hs"
  shows "map_of (upstream_headers env r fmt token stamps) (canonical_header_key k) =
      Some (expand_header_value (fst (stamps n)) (snd (stamps n)) v)"
  using set_custom_last [OF assms(2) refl, of stamps 0 "custom_headers env (ra_platform_custom_headers r) @ hs"]
  by (simp add: upstream_headers_def Let_def assms(1) n_def)

section \<open>What the log keeps\<close>

lemma captured_fold:
  "length buf \<le> stream_log_cap \<Longrightarrow>
   fst (fold tee_chunk cs (buf, t)) = take stream_log_cap (buf @ concat (map snd cs))"
proof (induction cs arbitrary: buf t)
  case (Cons c cs)
  obtain now p where c: "c = (now, p)" by fastforce
  define b where "b = fst (limited_write stream_log_cap p buf)"
  have b: "b = take stream_log_cap (buf @ p)"
    using Cons.prems by (auto simp: b_def limited_write_def Let_def)
  then have "length b \<le> stream_log_cap" by simp
  from Cons.IH [OF this] show ?case
    by (simp add: c tee_chunk_def b_def [symmetric] b min_def append_assoc [symmetric] take_append
        del: append_assoc)
qed simp

lemma captured_prefix: "fst (captured cs) = take stream_log_cap (concat (map snd cs))"
  using captured_fold [of "[]" cs] by (simp add: captured_def)

abbreviation usages_of :: "upstream_env \<Rightarrow> string list \<Rightarrow> usage list" where
  "usages_of env ls \<equiv> filter reports (map (usage_from_object env)
     (List.map_filter (up_object env) (List.map_filter frame_payload ls)))"

definition frame_usages :: "upstream_env \<Rightarrow> string \<Rightarrow> usage list" where
  "frame_usages env body = usages_of env (split_on (CHR 0x0A) body)"

lemma frame_step_usages:
  "frame_step env l u = (if usages_of env [l] = [] then u else last (usages_of env [l]))"
  "usages_of env (l # ls) = usages_of env [l] @ usages_of env ls"
  by (simp_all add: frame_step_def Let_def List.map_filter_simps split: option.split)

lemma frame_fold:
  "fold (frame_step env) ls u = (if usages_of env ls = [] then u else last (usages_of env ls))"
proof (induction ls arbitrary: u)
  case (Cons l ls)
  show ?case
    unfolding frame_step_usages(2) [of env l ls] fold_simps Cons.IH frame_step_usages(1) [of env l]
    by (simp add: last_append)
qed (simp add: List.map_filter_simps)

text \<open>The token usage of a streamed answer is the one of the last frame that reports any, taken as it
  stands: nothing of the earlier frames is added or kept, and nothing after the first 32 KB of the
  stream is seen. An Anthropic stream reports its input tokens in \<open>message_start\<close> and its output tokens in
  the final \<open>message_delta\<close>, so the input is recorded as 0.\<close>

lemma stream_usage_last_frame:
  fixes chunks :: "(instant \<times> string) list"
  defines "body \<equiv> take stream_log_cap (concat (map snd chunks))"
  assumes "str_contains body ''data:''" and "frame_usages env body \<noteq> []"
  shows "extract_usage_detail env (fst (captured chunks)) = last (frame_usages env body)"
proof -
  have "reports (last (frame_usages env body))"
    using last_in_set [OF assms(3)] by (simp add: frame_usages_def)
  moreover have "body \<noteq> []"
  proof
    assume "body = []"
    with assms(2) show False by simp
  qed
  ultimately show ?thesis
    using assms by (simp add: extract_usage_detail_def captured_prefix frame_fold frame_usages_def Let_def
        del: concat_eq_Nil_conv take_eq_Nil take_eq_Nil2)
qed
section \<open>Concrete requests\<close>

definition sample_upstream :: upstream_env where
  "sample_upstream =
     \<lparr>ge_rt = \<lparr>rt_string_list = (\<lambda>_. None), rt_string_map = (\<lambda>_. None), rt_time_rules = (\<lambda>_. None),
        rt_lower = (\<lambda>s. s), rt_hhmm = (\<lambda>_. []), rt_day_start = (\<lambda>t. t)\<rparr>,
      ge_parse_time = (\<lambda>_. None),
      up_hostname = (\<lambda>_. None),
      up_headers = (\<lambda>s. if s = ''[own]'' then Some [(''authorization'', ''Bearer {{uuid}}'')] else None),
      up_object = [''{start}'' \<mapsto> [''message'' \<mapsto> ''{message}''], ''{message}'' \<mapsto> [''usage'' \<mapsto> ''{in}''],
        ''{in}'' \<mapsto> [''input_tokens'' \<mapsto> ''25''], ''{delta}'' \<mapsto> [''usage'' \<mapsto> ''{out}''],
        ''{out}'' \<mapsto> [''output_tokens'' \<mapsto> ''15'']],
      up_number = [''25'' \<mapsto> 25, ''15'' \<mapsto> 15],
      up_codec = \<lparr>jc_unmarshal = (\<lambda>_. Inl ''syntax error''), jc_marshal = (\<lambda>_. [])\<rparr>\<rparr>"

lemma custom_header_wins_witness:
  "map_of (upstream_headers sample_upstream (zero_rapi\<lparr>ra_custom_headers := ''[own]''\<rparr>) ''openai'' ''token''
      (\<lambda>_. (7, ''1-2''))) ''Authorization'' = Some ''Bearer 1-2''"
proof -
  let ?r = "zero_rapi\<lparr>ra_custom_headers := ''[own]''\<rparr>"
  have k: "canonical_header_key ''authorization'' = ''Authorization''" by code_simp
  have e: "expand_header_value 7 ''1-2'' ''Bearer {{uuid}}'' = ''Bearer 1-2''" by code_simp
  have "trim_space ''authorization'' \<noteq> []" by code_simp
  then have "custom_headers sample_upstream (ra_custom_headers ?r) = [] @ (''authorization'', ''Bearer {{uuid}}'') # []"
    by (simp add: custom_headers_def sample_upstream_def)
  from custom_header_wins [OF this, of "''openai''" "''token''" "\<lambda>_. (7, ''1-2'')"] show ?thesis
    by (simp add: k e)
qed

lemma trims:
  "trim_space ''data: {start}'' = ''data: {start}''" "trim_space ''data: {delta}'' = ''data: {delta}''"
  "trim_space '' {start}'' = ''{start}''" "trim_space '' {delta}'' = ''{delta}''" "trim_space [] = []"
proof -
  have n: "rune_at space_runes '' {start}'' = 1" "rune_at space_runes '' {delta}'' = 1" by code_simp+
  have p: "trim_space ''{start}'' = ''{start}''" "trim_space ''{delta}'' = ''{delta}''"
    by (rule trim_space_plain; use solid_chars in simp)+
  show "trim_space ''data: {start}'' = ''data: {start}''" "trim_space ''data: {delta}'' = ''data: {delta}''"
    by (rule trim_space_plain; use solid_chars in simp)+
  show "trim_space '' {start}'' = ''{start}''" "trim_space '' {delta}'' = ''{delta}''"
    using p trim_front_drop [OF n(1)] trim_front_drop [OF n(2)] by (simp_all add: trim_space_def)
  show "trim_space [] = []" by (simp add: trim_space_def trim_front.simps)
qed

lemma stream_usage_last_frame_witness:
  "extract_usage_detail sample_upstream (fst (captured
      [(1, ''data: {start}'' @ [CHR 0x0A, CHR 0x0A]), (2, ''data: {delta}'' @ [CHR 0x0A, CHR 0x0A])])) = (0, 15, 0)"
proof -
  let ?cs = "[(1, ''data: {start}'' @ [CHR 0x0A, CHR 0x0A]), (2, ''data: {delta}'' @ [CHR 0x0A, CHR 0x0A])] :: (instant \<times> string) list"
  let ?b = "''data: {start}'' @ [CHR 0x0A, CHR 0x0A] @ ''data: {delta}'' @ [CHR 0x0A, CHR 0x0A]"
  have b: "take stream_log_cap (concat (map snd ?cs)) = ?b" by (simp add: stream_log_cap_def)
  have d: "str_contains ?b ''data:''" by code_simp
  have l: "split_on (CHR 0x0A) ?b = [''data: {start}'', [], ''data: {delta}'', [], []]" by simp
  have f: "frame_payload ''data: {start}'' = Some ''{start}''" "frame_payload ''data: {delta}'' = Some ''{delta}''"
    "frame_payload [] = None" by (simp_all add: frame_payload_def Let_def trims has_prefix_def trim_prefix_def)
  have ps: "List.map_filter frame_payload (split_on (CHR 0x0A) ?b) = [''{start}'', ''{delta}'']"
    unfolding l by (simp add: List.map_filter_simps f)
  have u: "frame_usages sample_upstream ?b = [(0, 15, 0)]"
    unfolding frame_usages_def ps
    by (simp add: sample_upstream_def List.map_filter_simps usage_from_object_def
        usage_of_usage_def raw_field_def raw_int_def float_to_int_def trunc_int_def reports_def Let_def wrap64_def)
  from stream_usage_last_frame [of ?cs sample_upstream] show ?thesis unfolding b using d u by simp
qed

end
