(* ===== verification/Probe.thy ===== *)
theory Probe
  imports Upstream
begin

text \<open>
  Probing an upstream, \<open>internal/apiformat/detect.go\<close> and \<open>gemini_native.go\<close>: which formats it speaks and at
  which address, and its list of models. The HTTP exchange is a parameter, what the request to one
  address gives; the three formats are probed concurrently and their results listed in the order in
  which they end, an argument.
\<close>

section \<open>One format\<close>

record detect_result =
  dr_format :: api_format
  dr_supported :: bool
  dr_reason :: string
  dr_url :: string

text \<open>What a request gives: it could not be built, it failed (with whether the time of the format was
  over), or a status.\<close>

datatype probe_outcome = BuildFailed string | RequestFailed string bool | Answered int

definition refused :: "api_format \<Rightarrow> string \<Rightarrow> detect_result" where
  "refused f reason = \<lparr>dr_format = f, dr_supported = False, dr_reason = reason, dr_url = []\<rparr>"

definition accepted :: "api_format \<Rightarrow> string \<Rightarrow> string \<Rightarrow> detect_result" where
  "accepted f url reason = \<lparr>dr_format = f, dr_supported = True, dr_reason = reason, dr_url = url\<rparr>"

fun probe_candidates :: "api_format \<Rightarrow> (string \<Rightarrow> probe_outcome) \<Rightarrow> string list \<Rightarrow> string \<Rightarrow> detect_result" where
  "probe_candidates f exchange [] last_reason = refused f last_reason"
| "probe_candidates f exchange (url # urls) last_reason =
     (case exchange url of
        BuildFailed err \<Rightarrow> probe_candidates f exchange urls (''build request: '' @ err)
      | RequestFailed err timed_out \<Rightarrow>
          if timed_out then refused f ''timeout''
          else probe_candidates f exchange urls (''request error: '' @ err)
      | Answered status \<Rightarrow>
          if status \<ge> 200 \<and> status < 300 then accepted f url []
          else if status = 401 \<or> status = 403
          then accepted f url (''auth error '' @ int_str status @ '' (endpoint exists)'')
          else if status = 404 then probe_candidates f exchange urls ''endpoint not found (404)''
          else if status = 405 then probe_candidates f exchange urls ''method not allowed (405)''
          else if status = 400 then probe_candidates f exchange urls ''bad request (format not supported)''
          else if status \<ge> 500 \<and> status < 600
          then accepted f url (''server error '' @ int_str status @ '' (endpoint exists)'')
          else accepted f url (''error '' @ int_str status @ '' (endpoint exists)''))"

definition probe_format :: "(api_format \<Rightarrow> string \<Rightarrow> probe_outcome) \<Rightarrow> string \<Rightarrow> string \<Rightarrow> api_format \<Rightarrow> detect_result" where
  "probe_format exchange base_url model f = probe_candidates f (exchange f) (build_urls base_url model f) []"

section \<open>The request\<close>

definition probe_message :: json where
  "probe_message = obj [(''role'', JStr ''user''), (''content'', JStr ''hi'')]"

definition probe_body :: "api_format \<Rightarrow> string \<Rightarrow> json" where
  "probe_body f model =
     (if f = FormatGemini
      then obj [(''contents'', JArr [obj [(''parts'', JArr [obj [(''text'', JStr ''hi'')]])]]),
                (''generationConfig'', obj [(''maxOutputTokens'', JNum 5)])]
      else obj [(''model'', JStr model), (''max_tokens'', JNum 5), (''messages'', JArr [probe_message])])"

text \<open>The headers of a probe: those of the format, then the credential unless it is empty.\<close>

definition probe_headers :: "upstream_env \<Rightarrow> string \<Rightarrow> string \<Rightarrow> api_format \<Rightarrow> header_map" where
  "probe_headers env base_url token f =
     (let hm = set_header ''Content-Type'' ''application/json'' [];
          hm = (if f = FormatAnthropic
                then set_header ''anthropic-version'' ''2023-06-01'' (set_header ''x-api-key'' [] hm) else hm)
      in if token = [] then hm
         else if f = FormatAnthropic then set_header ''x-api-key'' token hm
         else if f = FormatGemini \<and> is_google_native_base_url env base_url
         then set_header ''x-goog-api-key'' token hm
         else set_header ''Authorization'' (''Bearer '' @ token) hm)"

section \<open>All formats\<close>

definition detect_formats :: "(api_format \<Rightarrow> string \<Rightarrow> probe_outcome) \<Rightarrow> api_format list \<Rightarrow> string \<Rightarrow> string
    \<Rightarrow> detect_result list" where
  "detect_formats exchange order base_url model = map (probe_format exchange base_url model) order"

definition supported_formats :: "detect_result list \<Rightarrow> api_format list" where
  "supported_formats results = map dr_format (filter dr_supported results)"

text \<open>\<open>FormatsToJSON\<close>, over the printer of a list of strings.\<close>

definition default_formats_text :: string where
  "default_formats_text = ''[\"openai\"]''"

definition formats_to_json :: "json_codec \<Rightarrow> api_format list \<Rightarrow> string" where
  "formats_to_json codec formats =
     (if formats = [] then default_formats_text else jc_marshal codec (JArr (map JStr formats)))"

definition detect_formats_json :: "json_codec \<Rightarrow> detect_result list \<Rightarrow> string" where
  "detect_formats_json codec results =
     (if supported_formats results = [] then default_formats_text
      else formats_to_json codec (supported_formats results))"

definition detected_endpoints :: "detect_result list \<Rightarrow> json_map" where
  "detected_endpoints results =
     fold (\<lambda>r m. if dr_supported r \<and> dr_url r \<noteq> [] then jput (dr_format r) (JStr (dr_url r)) m else m) results fmempty"

definition detect_formats_endpoints :: "json_codec \<Rightarrow> detect_result list \<Rightarrow> string" where
  "detect_formats_endpoints codec results =
     (if detected_endpoints results = fmempty then [] else jc_marshal codec (JObj (detected_endpoints results)))"

section \<open>Google's list of models\<close>

text \<open>\<open>url.QueryEscape\<close>: letters, digits and four marks stay, a space is a plus, any other byte is a
  percent sign with two hexadecimal digits.\<close>

definition query_safe :: "char \<Rightarrow> bool" where
  "query_safe c \<longleftrightarrow>
     (CHR ''a'' \<le> c \<and> c \<le> CHR ''z'') \<or> (CHR ''A'' \<le> c \<and> c \<le> CHR ''Z'') \<or> (CHR ''0'' \<le> c \<and> c \<le> CHR ''9'') \<or>
     c \<in> set ''-_.~''"

definition hex_digit :: "nat \<Rightarrow> char" where
  "hex_digit n = (if n < 10 then char_of (48 + n) else char_of (55 + n))"

definition query_escape :: "string \<Rightarrow> string" where
  "query_escape s =
     concat (map (\<lambda>c. if query_safe c then [c] else if c = CHR '' '' then ''+''
        else [CHR 0x25, hex_digit (of_char c div 16), hex_digit (of_char c mod 16)]) s)"

definition google_suffixes :: "string list" where
  "google_suffixes =
     [''/v1/chat/completions'', ''/v1/messages'', ''/v1beta/models'', ''/v1beta'', ''/v1/chat'', ''/v1'']"

definition build_google_list_models_url :: "string \<Rightarrow> string \<Rightarrow> string" where
  "build_google_list_models_url base_url api_key =
     (let u = strip_first_suffix google_suffixes (trim_right_char CHR ''/'' base_url) @ ''/v1beta/models''
      in if api_key = [] then u else u @ ''?key='' @ query_escape api_key)"

definition supports_content_generation :: "string list \<Rightarrow> bool" where
  "supports_content_generation methods \<longleftrightarrow>
     methods = [] \<or> (\<exists>m \<in> set methods. m = ''generateContent'' \<or> m = ''streamGenerateContent'')"

text \<open>\<open>decode\<close> is \<open>json.Unmarshal\<close> into the names and methods of the list.\<close>

definition parse_google_list_models :: "(string \<Rightarrow> (string \<times> string list) list option) \<Rightarrow> string \<Rightarrow> string list" where
  "parse_google_list_models decode raw =
     (case decode raw of
        None \<Rightarrow> []
      | Some models \<Rightarrow>
          List.map_filter (\<lambda>(name, methods).
            let name = trim_prefix name ''models/'' in
            if name = [] \<or> \<not> supports_content_generation methods then None else Some name) models)"

section \<open>What a probe finds\<close>

definition proves_endpoint :: "probe_outcome \<Rightarrow> bool" where
  "proves_endpoint out \<longleftrightarrow> (case out of Answered status \<Rightarrow> status \<notin> {400, 404, 405} | _ \<Rightarrow> False)"

definition gives_up :: "probe_outcome \<Rightarrow> bool" where
  "gives_up out \<longleftrightarrow> (case out of RequestFailed _ timed_out \<Rightarrow> timed_out | _ \<Rightarrow> False)"

lemma outcome_simps [simp]:
  "proves_endpoint (BuildFailed err) = False" "proves_endpoint (RequestFailed err t) = False"
  "proves_endpoint (Answered status) \<longleftrightarrow> status \<notin> {400, 404, 405}"
  "gives_up (BuildFailed err) = False" "gives_up (RequestFailed err t) = t" "gives_up (Answered status) = False"
  by (simp_all add: proves_endpoint_def gives_up_def)

lemma result_simps [simp]:
  "dr_format (refused f reason) = f" "\<not> dr_supported (refused f reason)" "dr_url (refused f reason) = []"
  "dr_format (accepted f u reason) = f" "dr_supported (accepted f u reason)" "dr_url (accepted f u reason) = u"
  by (simp_all add: refused_def accepted_def)

lemma probe_candidates_spec:
  "dr_format (probe_candidates f ex urls reason) = f \<and>
   (case find (\<lambda>u. proves_endpoint (ex u) \<or> gives_up (ex u)) urls of
      None \<Rightarrow> \<not> dr_supported (probe_candidates f ex urls reason) \<and> dr_url (probe_candidates f ex urls reason) = []
    | Some u \<Rightarrow> dr_supported (probe_candidates f ex urls reason) = proves_endpoint (ex u) \<and>
        dr_url (probe_candidates f ex urls reason) = (if proves_endpoint (ex u) then u else []))"
proof (induction urls arbitrary: reason)
  case (Cons u urls)
  then show ?case by (cases "ex u") (auto split: option.splits)
qed simp

text \<open>The recorded address of a format is the first candidate that any answer but 400, 404 and 405 proves.\<close>

lemma probe_format_url:
  "dr_supported (probe_format ex base model f) \<Longrightarrow>
   dr_url (probe_format ex base model f) \<in> set (build_urls base model f) \<and>
   proves_endpoint (ex f (dr_url (probe_format ex base model f)))"
  using probe_candidates_spec [of f "ex f" "build_urls base model f" "[]"]
  by (auto simp: probe_format_def find_Some_iff split: option.splits if_splits)

text \<open>The formats recorded do not depend on the order in which the probes end.\<close>

lemma endpoints_lookup:
  "fmlookup (fold (\<lambda>r m. if dr_supported r \<and> dr_url r \<noteq> [] then jput (dr_format r) (JStr (dr_url r)) m else m) rs m) f =
   (case find (\<lambda>r. dr_supported r \<and> dr_url r \<noteq> [] \<and> dr_format r = f) (rev rs) of
      None \<Rightarrow> fmlookup m f | Some r \<Rightarrow> Some (JStr (dr_url r)))"
  by (induction rs arbitrary: m rule: rev_induct) (auto split: option.split)

end
