(* ===== verification/ConvResponse.thy ===== *)
theory ConvResponse
  imports ConvRequest
begin

text \<open>
  Conversion of response bodies, \<open>internal/apiformat/convert_response.go\<close>. The clock is read for an
  id the upstream did not give and for \<open>created\<close>; \<open>t_id\<close> and \<open>t_created\<close> are the two readings.
\<close>

section \<open>Clock\<close>

definition unix_epoch :: instant where
  "unix_epoch = 62135596800 * nsec_second"

definition unix_nano :: "instant \<Rightarrow> int" where
  "unix_nano t = wrap64 (t - unix_epoch)"

definition unix_seconds :: "instant \<Rightarrow> int" where
  "unix_seconds t = (t - unix_epoch) div nsec_second"

definition fresh_chat_id :: "instant \<Rightarrow> string" where
  "fresh_chat_id t = ''chatcmpl-'' @ int_str (unix_nano t)"

section \<open>To OpenAI\<close>

definition finish_of_anthropic :: "string \<Rightarrow> string" where
  "finish_of_anthropic stop_reason =
     (if stop_reason = ''max_tokens'' then ''length''
      else if stop_reason = ''stop_sequence'' then ''stop''
      else if stop_reason = ''tool_use'' then ''tool_calls''
      else if stop_reason = ''end_turn'' then ''stop''
      else if stop_reason = ''refusal'' then ''content_filter''
      else ''stop'')"

text \<open>The sum of two counts, when both are numbers: no total, a total, or an overflow to infinity that
  \<open>json.Marshal\<close> refuses.\<close>

definition add_total :: "json \<Rightarrow> json \<Rightarrow> json_map \<Rightarrow> json_map option" where
  "add_total prompt completion usage =
     (case (as_num prompt, as_num completion) of
        (Some pt, Some ct) \<Rightarrow> map_option (\<lambda>t. jput ''total_tokens'' (JNum t) usage) (float_add pt ct)
      | _ \<Rightarrow> Some usage)"

definition canonical_usage :: "string \<Rightarrow> string \<Rightarrow> json \<Rightarrow> json_map option" where
  "canonical_usage prompt_key completion_key u =
     (case as_obj u of
        None \<Rightarrow> Some fmempty
      | Some u \<Rightarrow>
          add_total (jget u prompt_key) (jget u completion_key)
            (copy_as u completion_key ''completion_tokens'' (copy_as u prompt_key ''prompt_tokens'' fmempty)))"

text \<open>\<open>json.Marshal\<close> of the result: the only value it refuses is an infinite total.\<close>

definition infinite_total :: string where
  "infinite_total = ''json: unsupported value: +Inf''"

definition anthropic_to_openai_response_map :: "json_codec \<Rightarrow> string \<Rightarrow> instant \<Rightarrow> instant \<Rightarrow> json_map
    \<Rightarrow> json_map option" where
  "anthropic_to_openai_response_map codec model t_id t_created src =
     (let blocks = objects (arr_of (jget src ''content''));
          content_text = concat (map (\<lambda>b. if jget b ''type'' = JStr ''text'' then get_string b ''text'' else []) blocks);
          tool_calls = map (tool_use_call codec) (filter (\<lambda>b. jget b ''type'' = JStr ''tool_use'') blocks);
          message = jmap [(''role'', JStr ''assistant''),
                          (''content'', if content_text \<noteq> [] then JStr content_text else JNull)];
          message = (if tool_calls = [] then message else jput ''tool_calls'' (JArr tool_calls) message);
          finish_reason = finish_of_anthropic (get_string src ''stop_reason'');
          id = get_string src ''id'';
          id = (if id = [] then fresh_chat_id t_id else id)
      in map_option
           (\<lambda>usage. jmap [(''id'', JStr id), (''object'', JStr ''chat.completion''),
              (''created'', JNum (of_int (unix_seconds t_created))), (''model'', JStr model),
              (''choices'', JArr [obj [(''index'', JNum 0), (''message'', JObj message),
                                       (''finish_reason'', JStr finish_reason)]]),
              (''usage'', JObj usage)])
           (canonical_usage ''input_tokens'' ''output_tokens'' (jget src ''usage'')))"

definition finish_of_gemini :: "string \<Rightarrow> string" where
  "finish_of_gemini reason =
     (if reason = ''MAX_TOKENS'' then ''length''
      else if reason = ''SAFETY'' then ''content_filter''
      else if reason = ''RECITATION'' then ''content_filter''
      else if reason = ''STOP'' then ''stop''
      else if reason = ''OTHER'' then ''stop''
      else ''stop'')"

definition function_call_of :: "json_map \<Rightarrow> json_map option" where
  "function_call_of part = as_obj (jget part ''functionCall'')"

definition gemini_tool_call :: "json_codec \<Rightarrow> int \<Rightarrow> json_map \<Rightarrow> json" where
  "gemini_tool_call codec i fn_call =
     obj [(''id'', JStr (''call_'' @ int_str i @ ''_'' @ get_string fn_call ''name'')),
          (''type'', JStr ''function''),
          (''function'', obj [(''name'', JStr (get_string fn_call ''name'')),
                              (''arguments'', JStr (to_json_string codec (jget fn_call ''args'')))])]"

definition gemini_choice :: "json_codec \<Rightarrow> int \<Rightarrow> json_map \<Rightarrow> json" where
  "gemini_choice codec i cand =
     (let content = obj_of (jget cand ''content'');
          message = jmap [(''role'', JStr ''assistant''), (''content'', JStr (extract_gemini_text content))];
          tool_calls = map (gemini_tool_call codec i)
                         (List.map_filter function_call_of (objects (arr_of (jget content ''parts''))));
          message = (if tool_calls = [] then message
                     else jput ''content'' JNull (jput ''tool_calls'' (JArr tool_calls) message))
      in obj [(''index'', JNum (of_int i)), (''message'', JObj message),
              (''finish_reason'', JStr (finish_of_gemini (get_string cand ''finishReason'')))])"

text \<open>The loop over the candidates; the index counts the ones that are no object too.\<close>

fun gemini_choices :: "json_codec \<Rightarrow> int \<Rightarrow> json list \<Rightarrow> json list" where
  "gemini_choices codec i [] = []"
| "gemini_choices codec i (c # cs) =
     (case as_obj c of None \<Rightarrow> [] | Some cand \<Rightarrow> [gemini_choice codec i cand]) @ gemini_choices codec (i + 1) cs"

definition gemini_to_openai_response_map :: "json_codec \<Rightarrow> string \<Rightarrow> instant \<Rightarrow> instant \<Rightarrow> json_map
    \<Rightarrow> json_map option" where
  "gemini_to_openai_response_map codec model t_id t_created src =
     map_option
       (\<lambda>usage. jmap [(''id'', JStr (fresh_chat_id t_id)), (''object'', JStr ''chat.completion''),
          (''created'', JNum (of_int (unix_seconds t_created))), (''model'', JStr model),
          (''choices'', nil_slice (gemini_choices codec 0 (arr_of (jget src ''candidates'')))),
          (''usage'', JObj usage)])
       (canonical_usage ''promptTokenCount'' ''candidatesTokenCount'' (jget src ''usageMetadata''))"

definition marshal_result :: "json_codec \<Rightarrow> json_map option \<Rightarrow> string + string" where
  "marshal_result codec dst =
     (case dst of None \<Rightarrow> Inl infinite_total | Some m \<Rightarrow> Inr (jc_marshal codec (JObj m)))"

definition to_canonical_response :: "json_codec \<Rightarrow> instant \<Rightarrow> instant \<Rightarrow> string \<Rightarrow> api_format \<Rightarrow> string
    \<Rightarrow> string + string" where
  "to_canonical_response codec t_id t_created body from model =
     (let convert = (\<lambda>f. case unmarshal_object codec body of
                           Inl err \<Rightarrow> Inl err
                         | Inr src \<Rightarrow> marshal_result codec (f codec model t_id t_created src)) in
      if from = FormatAnthropic then convert anthropic_to_openai_response_map
      else if from = FormatGemini then convert gemini_to_openai_response_map
      else Inr body)"

section \<open>From OpenAI\<close>

definition stop_of_openai :: "string \<Rightarrow> string" where
  "stop_of_openai finish_reason =
     (if finish_reason = ''stop'' then ''end_turn''
      else if finish_reason = ''length'' then ''max_tokens''
      else if finish_reason = ''tool_calls'' then ''tool_use''
      else if finish_reason = ''content_filter'' then ''end_turn''
      else ''end_turn'')"

definition anthropic_content_blocks :: "json_codec \<Rightarrow> json_map \<Rightarrow> json list" where
  "anthropic_content_blocks codec msg =
     (case jget msg ''content'' of JStr content \<Rightarrow> if content = [] then [] else [text_block content] | _ \<Rightarrow> [])
     @ map (tool_use_block codec) (objects (arr_of (jget msg ''tool_calls'')))"

definition openai_to_anthropic_response_map :: "json_codec \<Rightarrow> string \<Rightarrow> json_map \<Rightarrow> json_map" where
  "openai_to_anthropic_response_map codec model src =
     (let (blocks, stop_reason) =
            (case jget src ''choices'' of
               JArr (c # _) \<Rightarrow>
                 let choice = obj_of c in
                 (anthropic_content_blocks codec (obj_of (jget choice ''message'')),
                  stop_of_openai (get_string choice ''finish_reason''))
             | _ \<Rightarrow> ([], []));
          blocks = (if blocks = [] then [text_block []] else blocks);
          dst = jmap [(''id'', JStr (get_string src ''id'')), (''type'', JStr ''message''),
                      (''role'', JStr ''assistant''), (''model'', JStr model),
                      (''content'', JArr blocks), (''stop_reason'', JStr stop_reason),
                      (''stop_sequence'', JNull)]
      in case as_obj (jget src ''usage'') of
           None \<Rightarrow> dst
         | Some usage \<Rightarrow>
             jput ''usage'' (obj [(''input_tokens'', jget usage ''prompt_tokens''),
                                  (''output_tokens'', jget usage ''completion_tokens'')]) dst)"

definition gemini_finish_of_openai :: "string \<Rightarrow> string" where
  "gemini_finish_of_openai finish_reason =
     (if finish_reason = ''stop'' then ''STOP''
      else if finish_reason = ''length'' then ''MAX_TOKENS''
      else if finish_reason = ''content_filter'' then ''SAFETY''
      else if finish_reason = ''tool_calls'' then ''STOP''
      else ''STOP'')"

definition gemini_candidate :: "json_codec \<Rightarrow> json \<Rightarrow> json" where
  "gemini_candidate codec c =
     (let choice = obj_of c; msg = obj_of (jget choice ''message'');
          parts =
            (case jget msg ''content'' of
               JStr content \<Rightarrow> if content = [] then [] else [obj [(''text'', JStr content)]]
             | _ \<Rightarrow> [])
            @ map (function_call_part codec) (objects (arr_of (jget msg ''tool_calls'')))
      in obj [(''content'', obj [(''parts'', JArr parts), (''role'', JStr ''model'')]),
              (''finishReason'', JStr (gemini_finish_of_openai (get_string choice ''finish_reason''))),
              (''index'', jget choice ''index'')])"

definition openai_to_gemini_response_map :: "json_codec \<Rightarrow> json_map \<Rightarrow> json_map" where
  "openai_to_gemini_response_map codec src =
     (let dst = jmap [(''candidates'', nil_slice (map (gemini_candidate codec) (arr_of (jget src ''choices''))))]
      in case as_obj (jget src ''usage'') of
           None \<Rightarrow> dst
         | Some usage \<Rightarrow>
             jput ''usageMetadata''
               (JObj (copy_as usage ''total_tokens'' ''totalTokenCount''
                  (jmap [(''promptTokenCount'', jget usage ''prompt_tokens''),
                         (''candidatesTokenCount'', jget usage ''completion_tokens'')]))) dst)"

definition from_canonical_response :: "json_codec \<Rightarrow> string \<Rightarrow> api_format \<Rightarrow> string \<Rightarrow> string + string" where
  "from_canonical_response codec body to model =
     (let convert = (\<lambda>f. case unmarshal_object codec body of
                           Inl err \<Rightarrow> Inl err
                         | Inr src \<Rightarrow> Inr (jc_marshal codec (JObj (f src)))) in
      if to = FormatAnthropic then convert (openai_to_anthropic_response_map codec model)
      else if to = FormatGemini then convert (openai_to_gemini_response_map codec)
      else Inr body)"

definition convert_response :: "json_codec \<Rightarrow> instant \<Rightarrow> instant \<Rightarrow> string \<Rightarrow> api_format \<Rightarrow> api_format
    \<Rightarrow> string \<Rightarrow> (string + string) outcome_or_panic" where
  "convert_response codec t_id t_created body from to model =
     (case (if from = FormatOpenAI then Inr body
            else to_canonical_response codec t_id t_created body from model) of
        Inl err \<Rightarrow> Returned (Inl (''parse '' @ from @ '' response: '' @ err))
      | Inr canonical \<Rightarrow>
          if to = FormatOpenAI
          then (case replace_model_field codec canonical model of
                  Panicked \<Rightarrow> Panicked
                | Returned canonical \<Rightarrow> Returned (Inr canonical))
          else Returned (from_canonical_response codec canonical to model))"

end
