(* ===== verification/ConvStream.thy ===== *)
theory ConvStream
  imports ConvResponse
begin

text \<open>
  Conversion of streamed responses, \<open>internal/apiformat/convert_stream.go\<close>. \<open>stream_conv\<close> is the
  struct \<open>StreamConverter\<close>; the writer is the list of the SSE frames written so far (the code ignores
  write errors, and flushing shows nothing). The reader is the text of the upstream with the way it
  ends. The clock readings of one event are \<open>t_id\<close> and \<open>t_created\<close>.
\<close>

section \<open>State\<close>

record stream_conv =
  sc_from :: api_format
  sc_to :: api_format
  sc_model :: string
  sc_out :: "string list"
  sc_written_frames :: int
  sc_msg_started :: bool
  sc_block_started :: bool
  sc_block_index :: int
  sc_tool_open :: bool
  sc_tool_idx :: "(int \<times> int) list"
  sc_gemini_first_sent :: bool

definition new_stream_converter :: "api_format \<Rightarrow> api_format \<Rightarrow> string \<Rightarrow> stream_conv" where
  "new_stream_converter from to model =
     \<lparr>sc_from = from, sc_to = to, sc_model = model, sc_out = [], sc_written_frames = 0,
      sc_msg_started = False, sc_block_started = False, sc_block_index = 0, sc_tool_open = False,
      sc_tool_idx = [], sc_gemini_first_sent = False\<rparr>"

definition write_sse :: "string \<Rightarrow> stream_conv \<Rightarrow> stream_conv" where
  "write_sse data sc =
     sc\<lparr>sc_out := sc_out sc @ [''data: '' @ data @ [CHR 0x0A, CHR 0x0A]],
        sc_written_frames := sc_written_frames sc + 1\<rparr>"

text \<open>A Go map of ints reads 0 at a missing key.\<close>

definition int_at :: "(int \<times> int) list \<Rightarrow> int \<Rightarrow> int" where
  "int_at m k = (case map_of m k of None \<Rightarrow> 0 | Some i \<Rightarrow> i)"

definition index_field :: "json_map \<Rightarrow> int" where
  "index_field m = (case as_num (jget m ''index'') of None \<Rightarrow> 0 | Some x \<Rightarrow> trunc_int x)"

definition jint :: "int \<Rightarrow> json" where
  "jint i = JNum (of_int i)"

section \<open>Anthropic to OpenAI\<close>

text \<open>A converter gives nothing to write, the end marker, or a chunk.\<close>

datatype converted = Nothing | DoneMarker | Chunk json

definition openai_choice :: "json_map \<Rightarrow> json \<Rightarrow> json" where
  "openai_choice delta finish =
     JArr [obj [(''index'', JNum 0), (''delta'', JObj delta), (''finish_reason'', finish)]]"

definition event_id :: "json_map \<Rightarrow> instant \<Rightarrow> string" where
  "event_id event t_id =
     (let id = get_string event ''message_id'';
          id = (if id = [] then get_string (obj_of (jget event ''message'')) ''id'' else id)
      in if id = [] then fresh_chat_id t_id else id)"

text \<open>The index of the OpenAI tool call a block belongs to: the order of the tool blocks.\<close>

definition tool_call_index :: "int \<Rightarrow> (int \<times> int) list \<Rightarrow> int \<times> (int \<times> int) list" where
  "tool_call_index block m =
     (case map_of m block of
        Some i \<Rightarrow> (i, m)
      | None \<Rightarrow> (int (length m), AList.update block (int (length m)) m))"

definition stream_finish_of_anthropic :: "string \<Rightarrow> string" where
  "stream_finish_of_anthropic stop_reason =
     (if stop_reason = ''max_tokens'' then ''length''
      else if stop_reason = ''tool_use'' then ''tool_calls''
      else if stop_reason = ''end_turn'' then ''stop''
      else if stop_reason = ''refusal'' then ''content_filter''
      else ''stop'')"

definition anthropic_event_to_openai :: "instant \<Rightarrow> instant \<Rightarrow> json_map \<Rightarrow> stream_conv
    \<Rightarrow> stream_conv \<times> converted" where
  "anthropic_event_to_openai t_id t_created event sc =
     (let type = get_string event ''type'';
          chunk = jmap [(''id'', JStr (event_id event t_id)), (''object'', JStr ''chat.completion.chunk''),
                        (''created'', jint (unix_seconds t_created)), (''model'', JStr (sc_model sc))];
          with_delta = (\<lambda>delta. Chunk (JObj (jput ''choices'' (openai_choice (jmap delta) JNull) chunk))) in
      if type = ''message_start'' then (sc, with_delta [(''role'', JStr ''assistant'')])
      else if type = ''content_block_start'' then
        (case as_obj (jget event ''content_block'') of
           None \<Rightarrow> (sc, Nothing)
         | Some cb \<Rightarrow>
             if get_string cb ''type'' = ''tool_use'' then
               (let (i, m) = tool_call_index (index_field event) (sc_tool_idx sc) in
                (sc\<lparr>sc_tool_idx := m\<rparr>,
                 with_delta [(''tool_calls'', JArr [obj [(''index'', jint i), (''id'', JStr (get_string cb ''id'')),
                    (''type'', JStr ''function''),
                    (''function'', obj [(''name'', JStr (get_string cb ''name'')), (''arguments'', JStr [])])]])]))
             else (sc, Nothing))
      else if type = ''content_block_delta'' then
        (let delta = obj_of (jget event ''delta''); delta_type = get_string delta ''type'' in
         if delta_type = ''text_delta'' then (sc, with_delta [(''content'', JStr (get_string delta ''text''))])
         else if delta_type = ''input_json_delta'' then
           (sc, with_delta [(''tool_calls'', JArr [obj [
                  (''index'', jint (int_at (sc_tool_idx sc) (index_field event))),
                  (''function'', obj [(''arguments'', JStr (get_string delta ''partial_json''))])]])])
         else (sc, Nothing))
      else if type = ''message_delta'' then
        (let finish = stream_finish_of_anthropic (get_string (obj_of (jget event ''delta'')) ''stop_reason'');
             chunk = jput ''choices'' (openai_choice fmempty (JStr finish)) chunk;
             chunk = (case as_obj (jget event ''usage'') of
                        None \<Rightarrow> chunk
                      | Some usage \<Rightarrow>
                          jput ''usage'' (obj [(''completion_tokens'', jget usage ''output_tokens'')]) chunk)
         in (sc, Chunk (JObj chunk)))
      else if type = ''message_stop'' then (sc, DoneMarker)
      else (sc, Nothing))"

definition converted_text :: "json_codec \<Rightarrow> converted \<Rightarrow> string" where
  "converted_text codec c =
     (case c of Nothing \<Rightarrow> [] | DoneMarker \<Rightarrow> ''[DONE]'' | Chunk v \<Rightarrow> jc_marshal codec v)"

definition anthropic_chunk_to_openai :: "json_codec \<Rightarrow> instant \<Rightarrow> instant \<Rightarrow> string \<Rightarrow> stream_conv
    \<Rightarrow> stream_conv \<times> (string + string)" where
  "anthropic_chunk_to_openai codec t_id t_created data sc =
     (case unmarshal_object codec data of
        Inl err \<Rightarrow> (sc, Inl err)
      | Inr event \<Rightarrow>
          (let (sc', c) = anthropic_event_to_openai t_id t_created event sc in (sc', Inr (converted_text codec c))))"

section \<open>Gemini to OpenAI\<close>

definition stream_tool_call :: "json_codec \<Rightarrow> json_map \<Rightarrow> json" where
  "stream_tool_call codec fn_call =
     obj [(''index'', JNum 0), (''type'', JStr ''function''),
          (''function'', obj [(''name'', JStr (get_string fn_call ''name'')),
                              (''arguments'', JStr (to_json_string codec (jget fn_call ''args'')))])]"

definition gemini_finish :: "json_map \<Rightarrow> json" where
  "gemini_finish cand =
     (let fr = get_string cand ''finishReason'' in
      if fr \<noteq> [] \<and> fr \<noteq> ''STOP'' then
        JStr (if fr = ''MAX_TOKENS'' then ''length'' else if fr = ''SAFETY'' then ''content_filter'' else ''stop'')
      else (case fmlookup cand ''finishReason'' of Some _ \<Rightarrow> JStr ''stop'' | None \<Rightarrow> JNull))"

definition gemini_event_to_openai :: "json_codec \<Rightarrow> instant \<Rightarrow> instant \<Rightarrow> json_map \<Rightarrow> stream_conv
    \<Rightarrow> stream_conv \<times> json_map \<times> bool" where
  "gemini_event_to_openai codec t_id t_created event sc =
     (let (text, tool_calls, finish) =
            (case jget event ''candidates'' of
               JArr (c # _) \<Rightarrow>
                 (let cand = obj_of c; content = obj_of (jget cand ''content'') in
                  (extract_gemini_text content,
                   map (stream_tool_call codec) (List.map_filter function_call_of (objects (arr_of (jget content ''parts'')))),
                   gemini_finish cand))
             | _ \<Rightarrow> ([], [], JNull));
          delta = (if sc_gemini_first_sent sc then fmempty else jmap [(''role'', JStr ''assistant'')]);
          delta = (if text = [] then delta else jput ''content'' (JStr text) delta);
          delta = (if tool_calls = [] then delta else jput ''tool_calls'' (JArr tool_calls) delta);
          chunk = jmap [(''id'', JStr (fresh_chat_id t_id)), (''object'', JStr ''chat.completion.chunk''),
                        (''created'', jint (unix_seconds t_created)), (''model'', JStr (sc_model sc)),
                        (''choices'', openai_choice delta finish)];
          chunk = (case as_obj (jget event ''usageMetadata'') of
                     None \<Rightarrow> chunk
                   | Some um \<Rightarrow>
                       jput ''usage'' (obj [(''prompt_tokens'', jget um ''promptTokenCount''),
                                            (''completion_tokens'', jget um ''candidatesTokenCount'')]) chunk)
      in (sc\<lparr>sc_gemini_first_sent := True\<rparr>, chunk, finish \<noteq> JNull))"

definition gemini_chunk_to_openai :: "json_codec \<Rightarrow> instant \<Rightarrow> instant \<Rightarrow> string \<Rightarrow> stream_conv
    \<Rightarrow> stream_conv \<times> (string + string)" where
  "gemini_chunk_to_openai codec t_id t_created data sc =
     (case unmarshal_object codec data of
        Inl err \<Rightarrow> (sc, Inl err)
      | Inr event \<Rightarrow>
          (let (sc', chunk, ended) = gemini_event_to_openai codec t_id t_created event sc;
               out = jc_marshal codec (JObj chunk)
           in (sc', Inr (if ended then out @ [CHR 0x00] @ ''[DONE]'' else out))))"

section \<open>OpenAI to Anthropic\<close>

definition anthropic_message_start :: "string \<Rightarrow> string \<Rightarrow> json" where
  "anthropic_message_start model msg_id =
     obj [(''type'', JStr ''message_start''),
          (''message'', obj [(''id'', JStr msg_id), (''type'', JStr ''message''), (''role'', JStr ''assistant''),
             (''model'', JStr model), (''content'', JArr []),
             (''usage'', obj [(''input_tokens'', JNum 0), (''output_tokens'', JNum 0)])])]"

definition block_start_event :: "int \<Rightarrow> json \<Rightarrow> json" where
  "block_start_event i block =
     obj [(''type'', JStr ''content_block_start''), (''index'', jint i), (''content_block'', block)]"

definition block_delta_event :: "int \<Rightarrow> json \<Rightarrow> json" where
  "block_delta_event i delta =
     obj [(''type'', JStr ''content_block_delta''), (''index'', jint i), (''delta'', delta)]"

definition block_stop_event :: "int \<Rightarrow> json" where
  "block_stop_event i = obj [(''type'', JStr ''content_block_stop''), (''index'', jint i)]"

definition text_delta :: "string \<Rightarrow> json" where
  "text_delta t = obj [(''type'', JStr ''text_delta''), (''text'', JStr t)]"

definition input_json_delta :: "string \<Rightarrow> json" where
  "input_json_delta s = obj [(''type'', JStr ''input_json_delta''), (''partial_json'', JStr s)]"

definition tool_use_start :: "string \<Rightarrow> string \<Rightarrow> json" where
  "tool_use_start tool_id name =
     obj [(''type'', JStr ''tool_use''), (''id'', JStr tool_id), (''name'', JStr name), (''input'', JObj fmempty)]"

definition message_delta_event :: "string \<Rightarrow> json" where
  "message_delta_event stop_reason =
     obj [(''type'', JStr ''message_delta''),
          (''delta'', obj [(''stop_reason'', JStr stop_reason), (''stop_sequence'', JNull)]),
          (''usage'', obj [(''output_tokens'', JNum 0)])]"

definition message_stop_event :: json where
  "message_stop_event = obj [(''type'', JStr ''message_stop'')]"

text \<open>The steps of the converter: each appends its events to \<open>parts\<close>.\<close>

type_synonym conv_acc = "stream_conv \<times> json list"

definition start_message :: "string \<Rightarrow> conv_acc \<Rightarrow> conv_acc" where
  "start_message msg_id acc =
     (let (sc, parts) = acc in
      if sc_msg_started sc then acc
      else (sc\<lparr>sc_msg_started := True\<rparr>, parts @ [anthropic_message_start (sc_model sc) msg_id]))"

definition emit_text :: "string \<Rightarrow> string \<Rightarrow> conv_acc \<Rightarrow> conv_acc" where
  "emit_text msg_id content acc =
     (let (sc, parts) = start_message msg_id acc;
          (sc, parts) =
            (if sc_block_started sc then (sc, parts)
             else (sc\<lparr>sc_block_started := True\<rparr>,
                   parts @ [block_start_event (sc_block_index sc) (text_block [])]))
      in (sc, parts @ [block_delta_event (sc_block_index sc) (text_delta content)]))"

definition open_tool :: "int \<Rightarrow> string \<Rightarrow> string \<Rightarrow> conv_acc \<Rightarrow> conv_acc" where
  "open_tool call_idx tool_id tool_name acc =
     (let (sc, parts) = acc;
          (sc, parts) =
            (if sc_block_started sc
             then (sc\<lparr>sc_block_index := sc_block_index sc + 1, sc_block_started := False\<rparr>,
                   parts @ [block_stop_event (sc_block_index sc)])
             else (sc, parts));
          (sc, parts) =
            (if sc_tool_open sc
             then (sc\<lparr>sc_tool_open := False\<rparr>,
                   parts @ [block_stop_event
                     (case map_of (sc_tool_idx sc) call_idx of
                        Some prev \<Rightarrow> if prev \<noteq> sc_block_index sc then prev else sc_block_index sc
                      | None \<Rightarrow> sc_block_index sc)])
             else (sc, parts));
          block_idx = sc_block_index sc
      in (sc\<lparr>sc_tool_idx := AList.update call_idx block_idx (sc_tool_idx sc),
             sc_block_index := block_idx + 1, sc_tool_open := True\<rparr>,
          parts @ [block_start_event block_idx (tool_use_start tool_id tool_name)]))"

definition emit_tool_call :: "json_map \<Rightarrow> conv_acc \<Rightarrow> conv_acc" where
  "emit_tool_call call acc =
     (let call_idx = index_field call; fn = obj_of (jget call ''function'');
          tool_id = get_string call ''id''; tool_name = get_string fn ''name'';
          (sc, parts) = (if tool_id \<noteq> [] \<and> tool_name \<noteq> [] then open_tool call_idx tool_id tool_name acc else acc);
          args = get_string fn ''arguments''
      in if args = [] then (sc, parts)
         else (sc, parts @ [block_delta_event (int_at (sc_tool_idx sc) call_idx) (input_json_delta args)]))"

definition finish_message :: "string \<Rightarrow> conv_acc \<Rightarrow> conv_acc" where
  "finish_message finish_reason acc =
     (let (sc, parts) = acc;
          (sc, parts) =
            (if sc_block_started sc
             then (sc\<lparr>sc_block_started := False\<rparr>, parts @ [block_stop_event (sc_block_index sc)])
             else (sc, parts));
          (sc, parts) =
            (if sc_tool_open sc
             then (sc\<lparr>sc_tool_open := False\<rparr>, parts @ [block_stop_event (max 0 (sc_block_index sc - 1))])
             else (sc, parts))
      in (sc, parts @ [message_delta_event (stop_of_openai finish_reason), message_stop_event]))"

definition openai_event_to_anthropic :: "json_map \<Rightarrow> stream_conv \<Rightarrow> stream_conv \<times> json list" where
  "openai_event_to_anthropic chunk sc =
     (case jget chunk ''choices'' of
        JArr (c # _) \<Rightarrow>
          (let choice = obj_of c; delta = obj_of (jget choice ''delta'');
               finish_reason = get_string choice ''finish_reason''; id = get_string chunk ''id'';
               acc = (sc, []);
               acc = (if get_string delta ''role'' \<noteq> [] then start_message id acc else acc);
               content = get_string delta ''content'';
               acc = (if content \<noteq> [] then emit_text id content acc else acc);
               tool_calls = arr_of (jget delta ''tool_calls'');
               acc = (if tool_calls \<noteq> []
                      then fold emit_tool_call (objects tool_calls) (start_message id acc) else acc)
           in if finish_reason \<noteq> [] then finish_message finish_reason acc else acc)
      | _ \<Rightarrow> (sc, []))"

definition openai_chunk_to_anthropic :: "json_codec \<Rightarrow> string \<Rightarrow> stream_conv
    \<Rightarrow> stream_conv \<times> (string + string)" where
  "openai_chunk_to_anthropic codec data sc =
     (case unmarshal_object codec data of
        Inl err \<Rightarrow> (sc, Inl err)
      | Inr chunk \<Rightarrow>
          (let (sc', parts) = openai_event_to_anthropic chunk sc
           in (sc', Inr (join_with [CHR 0x00] (map (jc_marshal codec) parts)))))"

section \<open>OpenAI to Gemini\<close>

definition openai_event_to_gemini :: "json_map \<Rightarrow> json_map option" where
  "openai_event_to_gemini chunk =
     (case jget chunk ''choices'' of
        JArr (c # _) \<Rightarrow>
          (let choice = obj_of c; delta = obj_of (jget choice ''delta'');
               finish_reason = get_string choice ''finish_reason'';
               content = get_string delta ''content'';
               parts = (if content = [] then [] else [obj [(''text'', JStr content)]]);
               cand = jmap [(''content'', obj [(''parts'', JArr parts), (''role'', JStr ''model'')])];
               cand = (if finish_reason = [] then cand
                       else jput ''finishReason''
                              (JStr (if finish_reason = ''stop'' then ''STOP''
                                     else if finish_reason = ''length'' then ''MAX_TOKENS''
                                     else if finish_reason = ''content_filter'' then ''SAFETY''
                                     else ''STOP'')) cand)
           in Some (jmap [(''candidates'', JArr [JObj cand])]))
      | _ \<Rightarrow> None)"

definition openai_chunk_to_gemini :: "json_codec \<Rightarrow> string \<Rightarrow> string + string" where
  "openai_chunk_to_gemini codec data =
     (case unmarshal_object codec data of
        Inl err \<Rightarrow> Inl err
      | Inr chunk \<Rightarrow>
          Inr (case openai_event_to_gemini chunk of None \<Rightarrow> [] | Some c \<Rightarrow> jc_marshal codec (JObj c)))"

section \<open>The stream\<close>

definition event_data :: "string list \<Rightarrow> string" where
  "event_data lines =
     fold (\<lambda>line data. if has_prefix line ''data: '' then trim_prefix line ''data: ''
                       else if has_prefix line ''data:'' then trim_prefix line ''data:'' else data) lines []"

definition convert_chunk :: "json_codec \<Rightarrow> instant \<Rightarrow> instant \<Rightarrow> string \<Rightarrow> stream_conv
    \<Rightarrow> stream_conv \<times> (string + string)" where
  "convert_chunk codec t_id t_created data sc =
     (if sc_from sc = FormatAnthropic \<and> sc_to sc = FormatOpenAI
      then anthropic_chunk_to_openai codec t_id t_created data sc
      else if sc_from sc = FormatGemini \<and> sc_to sc = FormatOpenAI
      then gemini_chunk_to_openai codec t_id t_created data sc
      else if sc_from sc = FormatOpenAI \<and> sc_to sc = FormatAnthropic
      then openai_chunk_to_anthropic codec data sc
      else if sc_from sc = FormatOpenAI \<and> sc_to sc = FormatGemini
      then (sc, openai_chunk_to_gemini codec data)
      else (sc, Inr data))"

definition write_converted :: "string \<Rightarrow> stream_conv \<Rightarrow> stream_conv" where
  "write_converted text sc =
     (if text = [] then sc
      else if text = ''[DONE]'' then write_sse ''[DONE]'' sc
      else if CHR 0x00 \<in> set text
      then fold (\<lambda>part sc. if part = [] then sc else write_sse part sc) (split_on (CHR 0x00) text) sc
      else write_sse text sc)"

definition process_event_block :: "json_codec \<Rightarrow> instant \<Rightarrow> instant \<Rightarrow> string list \<Rightarrow> stream_conv \<Rightarrow> stream_conv" where
  "process_event_block codec t_id t_created lines sc =
     (let data = event_data lines in
      if data = [] then sc
      else if data = ''[DONE]'' then
        (if sc_from sc = FormatOpenAI \<and> sc_to sc = FormatAnthropic then sc else write_sse ''[DONE]'' sc)
      else (case convert_chunk codec t_id t_created data sc of
              (sc', Inl _) \<Rightarrow> sc'
            | (sc', Inr text) \<Rightarrow> write_converted text sc'))"

text \<open>\<open>bufio.Scanner\<close> over lines with a buffer of 1 MB: the lines before the first that does not fit,
  and whether there was one. A carriage return before the newline is dropped.\<close>

definition max_line :: nat where
  "max_line = 1024 * 1024"

definition drop_cr :: "string \<Rightarrow> string" where
  "drop_cr line = (if line \<noteq> [] \<and> last line = CHR 0x0D then butlast line else line)"

fun take_lines :: "string list \<Rightarrow> string list \<times> bool" where
  "take_lines [] = ([], False)"
| "take_lines (l # ls) =
     (if length l \<ge> max_line then ([], True)
      else if ls = [] \<and> l = [] then ([], False)
      else (let (rest, long) = take_lines ls in (drop_cr l # rest, long)))"

definition scan_lines :: "string \<Rightarrow> string list \<times> bool" where
  "scan_lines text = take_lines (split_on (CHR 0x0A) text)"

text \<open>The loop over the lines; event \<open>n\<close> reads the clock at \<open>clock (2 * n)\<close> and \<open>clock (2 * n + 1)\<close>.\<close>

definition run_line :: "json_codec \<Rightarrow> (nat \<Rightarrow> instant) \<Rightarrow> string \<Rightarrow> nat \<times> string list \<times> stream_conv
    \<Rightarrow> nat \<times> string list \<times> stream_conv" where
  "run_line codec clock line st =
     (let (n, event_lines, sc) = st in
      if line = [] then
        (if event_lines = [] then st
         else (n + 1, [], process_event_block codec (clock (2 * n)) (clock (2 * n + 1)) event_lines sc))
      else (n, event_lines @ [line], sc))"

text \<open>\<open>Run\<close>: the final state and whether the scanner ended with an error, its own or the reader's.\<close>

definition run_stream :: "json_codec \<Rightarrow> (nat \<Rightarrow> instant) \<Rightarrow> string \<Rightarrow> bool \<Rightarrow> stream_conv
    \<Rightarrow> stream_conv \<times> bool" where
  "run_stream codec clock input read_failed sc =
     (let (lines, too_long) = scan_lines input;
          (n, event_lines, sc) = fold (run_line codec clock) lines (0, [], sc)
      in (if event_lines = [] then sc
          else process_event_block codec (clock (2 * n)) (clock (2 * n + 1)) event_lines sc,
          too_long \<or> read_failed))"

end
