(* ===== verification/GatewayRequest.thy ===== *)
theory GatewayRequest
  imports Upstream SchedWait ConvStream
begin

text \<open>
  One client request of the gateway, \<open>internal/gateway/gateway.go\<close>: \<open>HandleChatCompletions\<close> (routing) and
  the loops \<open>handleNonStreamingRequest\<close> and \<open>handleStreamingRequest\<close> over the endpoints. The state is the
  gateway (scheduler, blacklist, notifications) with the response written so far, the requests sent
  upstream, the rows recorded in the database and the routes announced.

  What the code does not decide is an input of a pass of the loop, the record \<open>turn\<close>: the clock
  readings, how \<open>Wait\<close> is woken and what other callers do meanwhile, what the upstream answers to each
  key, the chunks a streamed body is read in. A loop has no bound in the code: it is a partial
  function, \<open>None\<close> when it does not return. Log entries are no part of the state.
\<close>

section \<open>The response writer\<close>

record writer =
  wr_header :: header_map
  wr_status :: "int option"
  wr_sent_header :: header_map
  wr_body :: string

definition new_writer :: writer where
  "new_writer = \<lparr>wr_header = [], wr_status = None, wr_sent_header = [], wr_body = []\<rparr>"

text \<open>\<open>WriteHeader\<close> counts once; \<open>Write\<close> before it sends a 200.\<close>

definition write_header :: "int \<Rightarrow> writer \<Rightarrow> writer" where
  "write_header status w =
     (case wr_status w of
        None \<Rightarrow> w\<lparr>wr_status := Some status, wr_sent_header := wr_header w\<rparr>
      | Some _ \<Rightarrow> w)"

definition write_body :: "string \<Rightarrow> writer \<Rightarrow> writer" where
  "write_body data w = (let w = write_header 200 w in w\<lparr>wr_body := wr_body w @ data\<rparr>)"

definition put_header :: "string \<Rightarrow> string \<Rightarrow> writer \<Rightarrow> writer" where
  "put_header k v w = w\<lparr>wr_header := set_header k v (wr_header w)\<rparr>"

definition http_error :: "string \<Rightarrow> int \<Rightarrow> writer \<Rightarrow> writer" where
  "http_error text code w =
     write_body (text @ [CHR 0x0A])
       (write_header code
          (put_header ''X-Content-Type-Options'' ''nosniff''
             (put_header ''Content-Type'' ''text/plain; charset=utf-8'' w)))"

definition error_object :: "(string \<times> string) list \<Rightarrow> json" where
  "error_object kvs = obj [(''error'', obj (map (\<lambda>(k, v). (k, JStr v)) kvs))]"

definition write_gateway_json_error :: "json_codec \<Rightarrow> int \<Rightarrow> string \<Rightarrow> string \<Rightarrow> writer \<Rightarrow> writer" where
  "write_gateway_json_error codec status msg error_type w =
     write_body (jc_marshal codec (error_object [(''message'', msg), (''type'', error_type)]) @ [CHR 0x0A])
       (write_header status (put_header ''Content-Type'' ''application/json'' w))"

definition send_error_stream :: "json_codec \<Rightarrow> string \<Rightarrow> writer \<Rightarrow> writer" where
  "send_error_stream codec msg w =
     write_body (''data: '' @ jc_marshal codec (error_object
         [(''message'', msg), (''type'', ''proxy_error''), (''code'', ''failover_exhausted'')])
       @ [CHR 0x0A, CHR 0x0A]) w"

section \<open>Requests\<close>

record proxy_request =
  pr_model :: string
  pr_messages :: "string list"
  pr_stream :: bool

record request =
  cq_lapi :: int
  cq_rapis :: "rapi list"
  cq_format :: string
  cq_original :: string
  cq_canonical :: string
  cq_request :: proxy_request
  cq_session :: string

record metric =
  mt_rapi :: int
  mt_lapi :: int
  mt_status :: int
  mt_latency :: int
  mt_tokens :: int

record sent =
  st_rapi :: int
  st_url :: string
  st_format :: string
  st_body :: string

record request_state =
  rq_gw :: gateway
  rq_writer :: writer
  rq_fallback :: bool
  rq_retries :: int
  rq_sent :: "sent list"
  rq_metrics :: "metric list"
  rq_routes :: "string list"

definition new_request_state :: "gateway \<Rightarrow> writer \<Rightarrow> request_state" where
  "new_request_state gw w =
     \<lparr>rq_gw = gw, rq_writer = w, rq_fallback = False, rq_retries = 0, rq_sent = [], rq_metrics = [],
      rq_routes = []\<rparr>"

definition on_gw :: "(gateway \<Rightarrow> gateway) \<Rightarrow> request_state \<Rightarrow> request_state" where
  "on_gw f st = st\<lparr>rq_gw := f (rq_gw st)\<rparr>"

definition on_sched :: "(manager \<Rightarrow> manager) \<Rightarrow> request_state \<Rightarrow> request_state" where
  "on_sched f st = on_gw (\<lambda>gw. gw\<lparr>gw_sched := f (gw_sched gw)\<rparr>) st"

definition on_writer :: "(writer \<Rightarrow> writer) \<Rightarrow> request_state \<Rightarrow> request_state" where
  "on_writer f st = st\<lparr>rq_writer := f (rq_writer st)\<rparr>"

text \<open>What happens while a caller waits: other requests use the scheduler and its queues.\<close>

datatype side_op =
    SideSched sched_op
  | SideEnter int instant
  | SideCheck waiter ctx_state instant

fun side_step :: "runtime \<Rightarrow> side_op \<Rightarrow> manager \<Rightarrow> manager" where
  "side_step rt (SideSched op) m = sched_step rt op m"
| "side_step rt (SideEnter i until) m = fst (wait_enter i until m)"
| "side_step rt (SideCheck w ctx now) m = fst (wait_check w ctx now m)"

record wake =
  wk_ctx :: ctx_state
  wk_now :: instant
  wk_others :: "side_op list"

record turn =
  tn_pick :: instant
  tn_wakes :: "nat \<Rightarrow> wake"
  tn_attempts :: "nat \<Rightarrow> attempt"
  tn_pool :: instant
  tn_record :: instant
  tn_mark :: instant
  tn_latency :: int
  tn_response :: "instant \<times> instant"
  tn_events :: "nat \<Rightarrow> instant"
  tn_chunks :: "(instant \<times> string) list"
  tn_gone :: "nat \<Rightarrow> bool"
  tn_read_failed :: bool

datatype turn_end = Again | Done int | Crashed

section \<open>Waiting\<close>

partial_function (option) wait_loop :: "runtime \<Rightarrow> (nat \<Rightarrow> wake) \<Rightarrow> nat \<Rightarrow> waiter \<Rightarrow> manager
    \<Rightarrow> (manager \<times> wait_result) option" where
  "wait_loop rt wakes n w m =
     (case wait_check w (wk_ctx (wakes n)) (wk_now (wakes n)) m of
        (m', Some res) \<Rightarrow> Some (m', res)
      | (m', None) \<Rightarrow> wait_loop rt wakes (n + 1) w (fold (side_step rt) (wk_others (wakes n)) m'))"

definition wait_call :: "runtime \<Rightarrow> (nat \<Rightarrow> wake) \<Rightarrow> int \<Rightarrow> instant \<Rightarrow> manager \<Rightarrow> (manager \<times> wait_result) option" where
  "wait_call rt wakes i until m =
     (case wait_enter i until m of
        (m', Inl err) \<Rightarrow> Some (m', WaitErr err)
      | (m', Inr w) \<Rightarrow> wait_loop rt wakes 0 w m')"

fun sched_error_text :: "sched_error \<Rightarrow> string" where
  "sched_error_text ErrAllRAPIUnavailable = ''all rapi unavailable''"
| "sched_error_text ErrAllKeysUnavailable = ''all platform keys unavailable''"
| "sched_error_text ErrQueueFull = ''lapi wait queue full''"
| "sched_error_text ErrQueueCleared = ''lapi wait queue cleared''"
| "sched_error_text ErrWaitTimeout = ''no backend available within wait timeout, all RAPIs are cooling down''"

text \<open>The errors of \<open>context\<close> have the texts of its documentation.\<close>

fun wait_error_text :: "wait_result \<Rightarrow> string option" where
  "wait_error_text WaitOk = None"
| "wait_error_text (WaitErr err) = Some (sched_error_text err)"
| "wait_error_text (WaitCtxErr CtxDeadline) = Some ''context deadline exceeded''"
| "wait_error_text (WaitCtxErr _) = Some ''context canceled''"
section \<open>One pass of the loop\<close>

definition select_backend :: "upstream_env \<Rightarrow> request \<Rightarrow> turn \<Rightarrow> (string \<Rightarrow> writer \<Rightarrow> writer) \<Rightarrow> request_state
    \<Rightarrow> (request_state \<times> (turn_end + rapi)) option" where
  "select_backend env rq tn fail st =
     (case pick_available (ge_rt env) (cq_rapis rq) (cq_format rq) (tn_pick tn) (gw_sched (rq_gw st)) of
        (m, Inr r) \<Rightarrow> Some (on_sched (\<lambda>_. m) st, Inr r)
      | (m, Inl (err, wait_until)) \<Rightarrow>
          (let st = on_sched (\<lambda>_. m) st in
           if err \<noteq> ErrAllRAPIUnavailable
           then Some (on_writer (fail (sched_error_text err)) st, Inl (Done 503))
           else if wait_until = zero_time
           then Some (on_writer (fail ''all RAPIs are disabled or unavailable'') st, Inl (Done 503))
           else case wait_call (ge_rt env) (tn_wakes tn) (cq_lapi rq) wait_until m of
             None \<Rightarrow> None
           | Some (m, res) \<Rightarrow>
               (let st = on_sched (\<lambda>_. m) st in
                case wait_error_text res of
                  None \<Rightarrow> Some (st, Inl Again)
                | Some msg \<Rightarrow> Some (on_writer (fail msg) st, Inl (Done 503)))))"

definition endpoint_failure :: "rapi \<Rightarrow> string \<Rightarrow> turn \<Rightarrow> request_state \<Rightarrow> request_state" where
  "endpoint_failure r reason tn st =
     on_sched (\<lambda>m. fst (mark_failure (ra_id r) zero_time reason False (tn_mark tn) m)) st"

definition upstream_body :: "json_codec \<Rightarrow> request \<Rightarrow> rapi \<Rightarrow> string \<Rightarrow> (string + string) outcome_or_panic" where
  "upstream_body codec rq r target_format =
     (if target_format = cq_format rq
      then (case replace_model_field codec (cq_original rq) (ra_model r) of
              Panicked \<Rightarrow> Panicked
            | Returned body \<Rightarrow> Returned (Inr body))
      else convert_request codec (cq_canonical rq) FormatOpenAI target_format (ra_model r))"

text \<open>The part the two loops share. \<open>tryKeyForRAPI\<close> returns no error but \<open>ErrAllKeysUnavailable\<close>, so the
  branch that marks the endpoint after any other error is never taken. A streamed request for a native
  Gemini endpoint gets the address of its streaming method.\<close>

definition forward :: "upstream_env \<Rightarrow> request \<Rightarrow> turn \<Rightarrow> bool \<Rightarrow> rapi \<Rightarrow> request_state
    \<Rightarrow> (request_state \<times> (turn_end + string \<times> response)) option" where
  "forward env rq tn streaming r st =
     (let target_format = pick_target_format (ge_rt env) r (cq_format rq);
          url = resolve_upstream_url (ge_rt env) r target_format
      in if url = [] then Some (endpoint_failure r ''invalid url'' tn st, Inl Again)
         else
           (let st = (if ra_id r \<noteq> ra_id (hd (cq_rapis rq)) then st\<lparr>rq_fallback := True\<rparr> else st);
                url = (if streaming \<and> target_format = FormatGemini \<and> is_google_native_base_url env (ra_base_url r)
                       then ensure_gemini_stream_sse url else url)
            in case upstream_body (up_codec env) rq r target_format of
                 Panicked \<Rightarrow> Some (st, Inl Crashed)
               | Returned (Inl err) \<Rightarrow> Some (endpoint_failure r (''convert error: '' @ err) tn st, Inl Again)
               | Returned (Inr body) \<Rightarrow>
                   (let st = st\<lparr>rq_sent := rq_sent st @
                          [\<lparr>st_rapi = ra_id r, st_url = url, st_format = target_format, st_body = body\<rparr>]\<rparr>
                    in case try_key_for_rapi (gw_env.truncate env) r (cq_session rq) (tn_attempts tn) (rq_gw st) of
                         None \<Rightarrow> None
                       | Some (gw, n, PoolUnavailable) \<Rightarrow>
                           Some (st\<lparr>rq_gw := handle_all_keys_unavailable r (tn_pool tn) gw,
                                    rq_retries := rq_retries st + 1\<rparr>, Inl Again)
                       | Some (gw, n, Served key resp) \<Rightarrow>
                           Some (st\<lparr>rq_gw := gw\<rparr>, Inr (target_format, resp)))))"

definition tokens_used :: "request \<Rightarrow> response \<Rightarrow> int" where
  "tokens_used rq resp =
     (let n = extract_token_usage (rs_header resp)
      in if n \<le> 0 then estimate_cost (pr_messages (cq_request rq)) else n)"

definition record_metric :: "request \<Rightarrow> turn \<Rightarrow> rapi \<Rightarrow> response \<Rightarrow> request_state \<Rightarrow> request_state" where
  "record_metric rq tn r resp st =
     st\<lparr>rq_metrics := rq_metrics st @
       [\<lparr>mt_rapi = ra_id r, mt_lapi = cq_lapi rq, mt_status = rs_status resp, mt_latency = tn_latency tn,
         mt_tokens = tokens_used rq resp\<rparr>]\<rparr>"

definition count_load :: "upstream_env \<Rightarrow> request \<Rightarrow> turn \<Rightarrow> rapi \<Rightarrow> response \<Rightarrow> request_state \<Rightarrow> request_state" where
  "count_load env rq tn r resp st =
     on_sched (record_request (ge_rt env) (ra_id r) (tokens_used rq resp) (tn_record tn)) st"

section \<open>Non-streaming requests\<close>

definition client_body :: "upstream_env \<Rightarrow> request \<Rightarrow> turn \<Rightarrow> string \<Rightarrow> string \<Rightarrow> string outcome_or_panic" where
  "client_body env rq tn target_format body =
     (if target_format = cq_format rq then Returned body
      else case convert_response (up_codec env) (fst (tn_response tn)) (snd (tn_response tn)) body
                  target_format (cq_format rq) (pr_model (cq_request rq)) of
        Panicked \<Rightarrow> Panicked
      | Returned (Inl err) \<Rightarrow> Returned body
      | Returned (Inr converted) \<Rightarrow> Returned converted)"

definition serve_response :: "upstream_env \<Rightarrow> request \<Rightarrow> turn \<Rightarrow> rapi \<Rightarrow> string \<Rightarrow> response \<Rightarrow> request_state
    \<Rightarrow> request_state \<times> turn_end" where
  "serve_response env rq tn r target_format resp st =
     (let st = count_load env rq tn r resp st;
          st = on_sched (mark_success (ra_id r) (tn_mark tn)) st;
          st = record_metric rq tn r resp st
      in case client_body env rq tn target_format (rs_body resp) of
           Panicked \<Rightarrow> (st, Crashed)
         | Returned body \<Rightarrow>
             (on_writer (\<lambda>w. write_body body (put_header ''Content-Type'' ''application/json'' w)) st,
              Done (rs_status resp)))"

definition plain_turn :: "upstream_env \<Rightarrow> request \<Rightarrow> turn \<Rightarrow> request_state \<Rightarrow> (request_state \<times> turn_end) option" where
  "plain_turn env rq tn st =
     (case select_backend env rq tn
             (\<lambda>msg. write_gateway_json_error (up_codec env) 503 msg ''service_unavailable'') st of
        None \<Rightarrow> None
      | Some (st, Inl e) \<Rightarrow> Some (st, e)
      | Some (st, Inr r) \<Rightarrow>
          (case forward env rq tn False r st of
             None \<Rightarrow> None
           | Some (st, Inl e) \<Rightarrow> Some (st, e)
           | Some (st, Inr (target_format, resp)) \<Rightarrow>
               Some (serve_response env rq tn r target_format resp st)))"

partial_function (option) request_loop :: "(turn \<Rightarrow> request_state \<Rightarrow> (request_state \<times> turn_end) option)
    \<Rightarrow> (nat \<Rightarrow> turn) \<Rightarrow> nat \<Rightarrow> request_state \<Rightarrow> (request_state \<times> turn_end) option" where
  "request_loop step turns n st =
     (case step (turns n) st of
        None \<Rightarrow> None
      | Some (st', e) \<Rightarrow> if e = Again then request_loop step turns (n + 1) st' else Some (st', e))"

definition handle_non_streaming_request :: "upstream_env \<Rightarrow> request \<Rightarrow> (nat \<Rightarrow> turn) \<Rightarrow> request_state
    \<Rightarrow> (request_state \<times> turn_end) option" where
  "handle_non_streaming_request env rq turns st = request_loop (plain_turn env rq) turns 0 st"

section \<open>Streaming requests\<close>

text \<open>The copy of a stream in the client's own format: the writer, whether anything was written, whether
  the client was found gone.\<close>

fun copy_chunks :: "(nat \<Rightarrow> bool) \<Rightarrow> nat \<Rightarrow> (instant \<times> string) list \<Rightarrow> writer \<Rightarrow> bool \<Rightarrow> writer \<times> bool \<times> bool" where
  "copy_chunks gone n [] w committed = (w, committed, False)"
| "copy_chunks gone n ((t, p) # cs) w committed =
     (if p = [] then copy_chunks gone (n + 1) cs w committed
      else if gone n then (w, committed, True)
      else copy_chunks gone (n + 1) cs (write_body p w) True)"

definition stream_answer :: "upstream_env \<Rightarrow> request \<Rightarrow> turn \<Rightarrow> string \<Rightarrow> writer \<Rightarrow> writer \<times> bool \<times> bool" where
  "stream_answer env rq tn target_format w =
     (if target_format = cq_format rq then copy_chunks (tn_gone tn) 0 (tn_chunks tn) w False
      else
        (let (sc, failed) = run_stream (up_codec env) (tn_events tn) (concat (map snd (tn_chunks tn)))
               (tn_read_failed tn) (new_stream_converter target_format (cq_format rq) (pr_model (cq_request rq)))
         in (fold write_body (sc_out sc) w, sc_written_frames sc > 0, False)))"

definition serve_stream :: "upstream_env \<Rightarrow> request \<Rightarrow> turn \<Rightarrow> rapi \<Rightarrow> string \<Rightarrow> response \<Rightarrow> request_state
    \<Rightarrow> request_state \<times> turn_end" where
  "serve_stream env rq tn r target_format resp st =
     (let st = count_load env rq tn r resp st;
          st = record_metric rq tn r resp st;
          st = (if gw_notify (rq_gw st) then st\<lparr>rq_routes := rq_routes st @ [ra_alias r]\<rparr> else st);
          (w, committed, gone) = stream_answer env rq tn target_format (rq_writer st);
          st = on_writer (\<lambda>_. w) st
      in if gone then (st, Done 200)
         else if committed then (on_sched (mark_success (ra_id r) (tn_mark tn)) st, Done 200)
         else ((endpoint_failure r ''empty stream'' tn st)\<lparr>rq_retries := rq_retries st + 1\<rparr>, Again))"

definition stream_turn :: "upstream_env \<Rightarrow> request \<Rightarrow> turn \<Rightarrow> request_state \<Rightarrow> (request_state \<times> turn_end) option" where
  "stream_turn env rq tn st =
     (case select_backend env rq tn (send_error_stream (up_codec env)) st of
        None \<Rightarrow> None
      | Some (st, Inl e) \<Rightarrow> Some (st, e)
      | Some (st, Inr r) \<Rightarrow>
          (case forward env rq tn True r st of
             None \<Rightarrow> None
           | Some (st, Inl e) \<Rightarrow> Some (st, e)
           | Some (st, Inr (target_format, resp)) \<Rightarrow>
               Some (serve_stream env rq tn r target_format resp st)))"

definition stream_headers :: "writer \<Rightarrow> writer" where
  "stream_headers w =
     put_header ''Transfer-Encoding'' ''chunked'' (put_header ''Connection'' ''keep-alive''
       (put_header ''Cache-Control'' ''no-cache'' (put_header ''Content-Type'' ''text/event-stream'' w)))"

definition handle_streaming_request :: "upstream_env \<Rightarrow> request \<Rightarrow> bool \<Rightarrow> (nat \<Rightarrow> turn) \<Rightarrow> request_state
    \<Rightarrow> (request_state \<times> turn_end) option" where
  "handle_streaming_request env rq can_flush turns st =
     (if \<not> can_flush then Some (on_writer (http_error ''Streaming not supported'' 500) st, Done 500)
      else request_loop (stream_turn env rq) turns 0 (on_writer stream_headers st))"
section \<open>Decoding a request\<close>

text \<open>The decoder of \<open>encoding/json\<close> for \<open>ProxyRequest\<close>, as far as it is not the code's own: the fields
  of the request, with the text of each message's content (empty when it has none); a string; a list of
  parts, each with its type and text. \<open>message_content\<close> is \<open>Message.UnmarshalJSON\<close>.\<close>

record request_decoder =
  rd_request :: "string \<Rightarrow> string + (string \<times> string list \<times> bool)"
  rd_string :: "string \<Rightarrow> string option"
  rd_parts :: "string \<Rightarrow> string + (string \<times> string) list"

definition join_texts :: "(string \<times> string) list \<Rightarrow> string" where
  "join_texts parts =
     fold (\<lambda>(ty, t) text. if ty = ''text'' then (if text \<noteq> [] then text @ [CHR 0x0A] else text) @ t else text) parts []"

definition message_content :: "request_decoder \<Rightarrow> string \<Rightarrow> string + string" where
  "message_content dec raw =
     (if raw = [] then Inr []
      else case rd_string dec raw of
        Some s \<Rightarrow> Inr s
      | None \<Rightarrow> (case rd_parts dec raw of Inl err \<Rightarrow> Inl err | Inr parts \<Rightarrow> Inr (join_texts parts)))"

fun message_contents :: "request_decoder \<Rightarrow> string list \<Rightarrow> string + string list" where
  "message_contents dec [] = Inr []"
| "message_contents dec (raw # raws) =
     (case message_content dec raw of
        Inl err \<Rightarrow> Inl err
      | Inr c \<Rightarrow> (case message_contents dec raws of Inl err \<Rightarrow> Inl err | Inr cs \<Rightarrow> Inr (c # cs)))"

definition decode_proxy_request :: "request_decoder \<Rightarrow> string \<Rightarrow> string + proxy_request" where
  "decode_proxy_request dec data =
     (case rd_request dec data of
        Inl err \<Rightarrow> Inl err
      | Inr (model, raws, stream) \<Rightarrow>
          (case message_contents dec raws of
             Inl err \<Rightarrow> Inl err
           | Inr cs \<Rightarrow> Inr \<lparr>pr_model = model, pr_messages = cs, pr_stream = stream\<rparr>))"

section \<open>The handler\<close>

text \<open>The queries of the handler; an error is \<open>None\<close>.\<close>

record gateway_db =
  gd_lapi :: "string \<Rightarrow> lapi option"
  gd_rapis :: "int \<Rightarrow> rapi list option"
  gd_keys :: "int \<Rightarrow> platform_key list option"

text \<open>A request: \<open>in_body\<close> is what reading it under the limit of 64 MB gives, its error telling whether the
  limit was exceeded; \<open>in_session\<close> is the session of a connection, empty when it is not stable.\<close>

record incoming =
  in_method :: string
  in_path :: string
  in_body :: "bool + string"
  in_session :: string

definition gemini_url_model :: "incoming \<Rightarrow> string" where
  "gemini_url_model inc =
     (if detect_format_from_path (in_path inc) = FormatGemini then extract_gemini_model (in_path inc) else [])"

text \<open>The model of the URL and the streaming flag are put into the canonical body.\<close>

definition inject_model :: "json_codec \<Rightarrow> incoming \<Rightarrow> string \<times> proxy_request \<Rightarrow> (string \<times> proxy_request) outcome_or_panic" where
  "inject_model codec inc c =
     (let (canonical, req) = c; model = gemini_url_model inc in
      if detect_format_from_path (in_path inc) = FormatGemini \<and> pr_model req = [] \<and> model \<noteq> []
      then (case replace_model_field codec canonical model of
              Panicked \<Rightarrow> Panicked
            | Returned canonical \<Rightarrow> Returned (canonical, req\<lparr>pr_model := model\<rparr>))
      else Returned (canonical, req))"

definition inject_stream :: "json_codec \<Rightarrow> incoming \<Rightarrow> string \<times> proxy_request
    \<Rightarrow> (string \<times> proxy_request \<times> bool) outcome_or_panic" where
  "inject_stream codec inc c =
     (let (canonical, req) = c in
      if detect_format_from_path (in_path inc) = FormatGemini \<and> has_suffix (in_path inc) '':streamGenerateContent''
      then
        (if pr_stream req then Returned (canonical, req, True)
         else case unmarshal_map codec canonical of
           Inl _ \<Rightarrow> Returned (canonical, req, True)
         | Inr None \<Rightarrow> Panicked
         | Inr (Some m) \<Rightarrow>
             Returned (jc_marshal codec (JObj (jput ''stream'' (JBool True) m)), req\<lparr>pr_stream := True\<rparr>, True))
      else Returned (canonical, req, pr_stream req))"

definition invalid_json_text :: string where
  "invalid_json_text = ''{\"error\":{\"message\":\"Invalid JSON\",\"type\":\"invalid_request\"}}''"

definition no_backends_text :: string where
  "no_backends_text =
     ''{\"error\":{\"message\":\"No backends available for this model\",\"type\":\"configuration_error\"}}''"

text \<open>What goes on to routing, or the reply that ends the request.\<close>

definition parse_incoming :: "upstream_env \<Rightarrow> request_decoder \<Rightarrow> incoming \<Rightarrow> string
    \<Rightarrow> (int \<times> (writer \<Rightarrow> writer) + string \<times> proxy_request \<times> bool) outcome_or_panic" where
  "parse_incoming env dec inc body =
     (let fmt = detect_format_from_path (in_path inc); codec = up_codec env in
      case (if fmt = FormatOpenAI then Returned (Inr body)
            else convert_request codec body fmt FormatOpenAI (gemini_url_model inc)) of
        Panicked \<Rightarrow> Panicked
      | Returned (Inl err) \<Rightarrow>
          Returned (Inl (400, write_gateway_json_error codec 400
            (''Failed to parse '' @ fmt @ '' request: '' @ err) ''invalid_request''))
      | Returned (Inr canonical) \<Rightarrow>
          (case decode_proxy_request dec canonical of
             Inl err \<Rightarrow> Returned (Inl (400, http_error invalid_json_text 400))
           | Inr req \<Rightarrow>
               (case inject_model codec inc (canonical, req) of
                  Panicked \<Rightarrow> Panicked
                | Returned c \<Rightarrow>
                    (case inject_stream codec inc c of
                       Panicked \<Rightarrow> Panicked
                     | Returned res \<Rightarrow> Returned (Inr res)))))"

text \<open>The rows the request is routed to, with their key pools, or the reply that ends it.\<close>

definition route :: "upstream_env \<Rightarrow> gateway_db \<Rightarrow> string \<Rightarrow> int \<times> (writer \<Rightarrow> writer) + lapi \<times> rapi list" where
  "route env db model_name =
     (let codec = up_codec env in
      case gd_lapi db (to_lower (rt_lower (ge_rt env)) model_name) of
        None \<Rightarrow> Inl (401, write_gateway_json_error codec 401 (''Unknown model: '' @ model_name) ''invalid_request'')
      | Some l \<Rightarrow>
          if \<not> la_enabled l
          then Inl (503, write_gateway_json_error codec 503 (''Model '' @ model_name @ '' is disabled'') ''service_unavailable'')
          else case gd_rapis db (la_id l) of
            None \<Rightarrow> Inl (503, http_error no_backends_text 503)
          | Some rapis \<Rightarrow>
              if rapis = [] then Inl (503, http_error no_backends_text 503)
              else Inr (l, load_keys_for_rapis (gd_keys db) rapis))"

text \<open>The result of a request: the state, the models whose trend is counted, how it ended (with the status
  that is logged).\<close>

definition handle_chat_completions :: "upstream_env \<Rightarrow> request_decoder \<Rightarrow> gateway_db \<Rightarrow> incoming \<Rightarrow> bool
    \<Rightarrow> (nat \<Rightarrow> turn) \<Rightarrow> gateway \<Rightarrow> (request_state \<times> int list \<times> turn_end) option" where
  "handle_chat_completions env dec db inc can_flush turns gw =
     (let codec = up_codec env; st = new_request_state gw new_writer;
          reply = (\<lambda>status answer. Some (on_writer answer st, [], Done status))
      in if in_method inc \<noteq> ''POST'' then reply 405 (http_error ''Method not allowed'' 405)
         else case in_body inc of
           Inl too_large \<Rightarrow>
             if too_large
             then reply 413 (write_gateway_json_error codec 413 ''Request body too large'' ''invalid_request'')
             else reply 400 (http_error ''Failed to read request'' 400)
         | Inr body \<Rightarrow>
             (case parse_incoming env dec inc body of
                Panicked \<Rightarrow> Some (st, [], Crashed)
              | Returned (Inl (status, answer)) \<Rightarrow> reply status answer
              | Returned (Inr (canonical, req, is_stream)) \<Rightarrow>
                  (case route env db (pr_model req) of
                     Inl (status, answer) \<Rightarrow> reply status answer
                   | Inr (l, rapis) \<Rightarrow>
                       (let rq = \<lparr>cq_lapi = la_id l, cq_rapis = rapis,
                              cq_format = detect_format_from_path (in_path inc), cq_original = body,
                              cq_canonical = canonical, cq_request = req, cq_session = in_session inc\<rparr>;
                            res = (if is_stream then handle_streaming_request env rq can_flush turns st
                                   else handle_non_streaming_request env rq turns st)
                        in case res of
                             None \<Rightarrow> None
                           | Some (st, e) \<Rightarrow> Some (st, if e = Crashed then [] else [la_id l], e)))))"

end
