(* ===== verification/KeyPoolProps.thy ===== *)
theory KeyPoolProps
  imports KeyPool
begin

text \<open>
  What \<open>tryKeyForRAPI\<close> promises: who is served, that the loop over a pool ends, what an exhausted
  pool leaves behind.
\<close>

section \<open>Invariants of the scheduler inside the gateway\<close>

lemma manager_inv_step: "manager_inv m \<Longrightarrow> manager_inv (sched_step rt op m)"
proof -
  assume "manager_inv m"
  then have h: "sched_safe.holds (mg_ecfg m) (mg_has_store m) (sched_step rt op m)"
    unfolding manager_inv_def by (rule sched_safe.step_holds) simp
  from sched_safe.holdsD(5,6) [OF this] h show ?thesis unfolding manager_inv_def by (simp only:)
qed

lemma manager_inv_run: "manager_inv m \<Longrightarrow> manager_inv (sched_run rt ops m)"
  unfolding sched_run_def by (induction ops arbitrary: m) (simp_all add: manager_inv_step)

lemma manager_inv_ops:
  assumes "manager_inv m"
  shows "manager_inv (fst (pick_available_key ks s now m))"
    and "manager_inv (fst (mark_key_failure i at r b now m))"
    and "manager_inv (fst (mark_key_temporary_failure i at r b now m))"
    and "manager_inv (fst (mark_key_billing_failure i r now m))"
    and "manager_inv (fst (mark_key_platform_failure i r now m))"
    and "manager_inv (mark_key_success i now m)"
    and "manager_inv (fst (mark_pool_exhausted i is at r now m))"
    and "manager_inv (fst (mark_all_keys_unavailable i h r now m))"
  using manager_inv_step [OF assms, of undefined "SPickKey ks s now"]
    manager_inv_step [OF assms, of undefined "SKeyFailure i at r b now"]
    manager_inv_step [OF assms, of undefined "SKeyTemporary i at r b now"]
    manager_inv_step [OF assms, of undefined "SKeyBilling i r now"]
    manager_inv_step [OF assms, of undefined "SKeyPlatform i r now"]
    manager_inv_step [OF assms, of undefined "SKeySuccess i now"]
    manager_inv_step [OF assms, of undefined "SPoolExhausted i is at r now"]
    manager_inv_step [OF assms, of undefined "SAllKeys i h r now"]
  by simp_all

definition gateway_inv :: "gateway \<Rightarrow> bool" where
  "gateway_inv gw \<longleftrightarrow> manager_inv (gw_sched gw)"

lemma publish_if_simps [simp]:
  "gw_sched (publish_if c menu kind e gw) = gw_sched gw" "gw_blocks (publish_if c menu kind e gw) = gw_blocks gw"
  "gw_notify (publish_if c menu kind e gw) = gw_notify gw"
  by (simp_all add: publish_if_def)

lemma mark_key_simps [simp]:
  "gw_sched (mark_key mark w kind e gw) = fst (mark (gw_sched gw))"
  "gw_blocks (mark_key mark w kind e gw) = gw_blocks gw"
  by (simp_all add: mark_key_def split_beta)

lemma block_pair_simps [simp]:
  "gw_sched (block_pair k r reason now gw) = gw_sched gw"
  "gw_blocks (block_pair k r reason now gw) = fst (block_key_for_model k r reason now (gw_blocks gw))"
  by (simp_all add: block_pair_def split_beta)

text \<open>Every failed answer marks the key in the scheduler or blocks the pair.\<close>

lemma on_failed_cases:
  obtains (platform) reason where
      "gw_sched (on_failed_response env r key resp now gw) = fst (mark_key_platform_failure (pk_id key) reason now (gw_sched gw))"
      "gw_blocks (on_failed_response env r key resp now gw) = gw_blocks gw"
  | (billing) reason where
      "gw_sched (on_failed_response env r key resp now gw) = fst (mark_key_billing_failure (pk_id key) reason now (gw_sched gw))"
      "gw_blocks (on_failed_response env r key resp now gw) = gw_blocks gw"
  | (temporary) reason where
      "gw_sched (on_failed_response env r key resp now gw) = fst (mark_key_temporary_failure (pk_id key)
         (retry_at (ge_parse_time env) (Some (rs_header resp)) zero_time now) reason False now (gw_sched gw))"
      "gw_blocks (on_failed_response env r key resp now gw) = gw_blocks gw"
  | (block) reason where
      "gw_sched (on_failed_response env r key resp now gw) = gw_sched gw"
      "gw_blocks (on_failed_response env r key resp now gw) =
         fst (block_key_for_model (pk_id key) (ra_id r) reason now (gw_blocks gw))"
proof (cases "classify_failure (rs_status resp)")
  case ScopeSystem
  then show thesis using platform by (simp add: on_failed_response_def on_system_failure_def Let_def)
next
  case ScopePlatform
  let ?ulow = "rt_lower (ge_rt env)" and ?body = "take 4096 (rs_body resp)"
  consider "is_recoverable_billing_error ?ulow ?body"
    | "\<not> is_recoverable_billing_error ?ulow ?body" "rs_status resp = 403 \<and> is_capability_mismatch ?ulow ?body"
    | "\<not> is_recoverable_billing_error ?ulow ?body" "\<not> (rs_status resp = 403 \<and> is_capability_mismatch ?ulow ?body)"
    by blast
  then show thesis
  proof cases
    case 1
    with ScopePlatform show thesis using billing
      by (simp add: on_failed_response_def on_platform_failure_def Let_def)
  next
    case 2
    with ScopePlatform show thesis using block
      by (simp add: on_failed_response_def on_platform_failure_def Let_def)
  next
    case 3
    have "on_failed_response env r key resp now gw = mark_key (mark_key_platform_failure (pk_id key)
        (platform_level_text @ '' '' @ upstream_text (rs_status resp) ?body) now) (\<lambda>c. c) NoteFailure (pk_id key) gw"
      unfolding on_failed_response_def Let_def ScopePlatform failure_scope.case on_platform_failure_def
        if_not_P [OF 3(1)] if_not_P [OF 3(2)] ..
    then show thesis using platform by simp
  qed
next
  case ScopeSession
  let ?b = "(rs_status resp = 400 \<or> rs_status resp = 404 \<or> rs_status resp = 422) \<and>
    is_capability_mismatch (rt_lower (ge_rt env)) (take 4096 (rs_body resp))"
  show thesis
  proof (cases ?b)
    case True
    with ScopeSession show thesis using block
      by (simp add: on_failed_response_def on_session_failure_def Let_def)
  next
    case False
    with ScopeSession show thesis using temporary
      by (simp add: on_failed_response_def on_session_failure_def Let_def del: de_Morgan_conj)
  qed
qed

lemma on_failed_inv: "manager_inv (gw_sched gw) \<Longrightarrow> manager_inv (gw_sched (on_failed_response env r key resp now gw))"
  by (rule on_failed_cases [of env r key resp now gw]) (simp_all add: manager_inv_ops)

lemma handle_all_inv: "manager_inv (gw_sched gw) \<Longrightarrow> manager_inv (gw_sched (handle_all_keys_unavailable r now gw))"
  by (simp add: handle_all_keys_unavailable_def Let_def split_beta manager_inv_ops)

lemma try_pass_inv:
  assumes "gateway_inv gw"
  shows "gateway_inv (fst (try_pass env r s at ks gw))"
  using assms
  by (simp add: gateway_inv_def try_pass_def Let_def split_beta pool_exhausted_def on_served_def
      manager_inv_ops manager_inv_run on_failed_inv handle_all_inv split: sum.split outcome.split)

section \<open>Keys that stay out\<close>

text \<open>A key is refused over a span of time when no selection at an instant of the span can return it.\<close>

definition refused :: "instant \<Rightarrow> instant \<Rightarrow> platform_key \<Rightarrow> manager \<Rightarrow> bool" where
  "refused lo hi k m \<longleftrightarrow> (\<forall>t. lo \<le> t \<and> t \<le> hi \<longrightarrow> \<not> fst (key_verdict t m k))"

lemma refused_later: "refused lo hi k m \<Longrightarrow> lo \<le> lo' \<Longrightarrow> refused lo' hi k m"
  by (simp add: refused_def)

lemma row_unusable_later: "\<not> key_row_usable k now \<Longrightarrow> now \<le> t \<Longrightarrow> \<not> key_row_usable k t"
  by (auto simp: key_row_usable_def past_expiry_def split: option.splits if_splits)

lemma refused_unusable:
  "manager_inv m \<Longrightarrow> \<not> key_row_usable k lo \<Longrightarrow> refused lo hi k m"
  unfolding refused_def using key_verdict_usable [of m _ k] row_unusable_later [of k lo] by blast

lemma key_sync_usable:
  "key_row_usable k now \<Longrightarrow> key_sync k now (m, d, w) =
     (if m_state m \<in> dead_states then fst (key_fire now EvEnable None (m, d, w)) else (m, d, w))"
  by (simp add: key_sync_simps key_row_usable_def split: if_splits)

lemma key_refused_same:
  assumes "manager_inv m" and "key_row_usable k now" and "\<not> fst (key_verdict now m k)"
  obtains e where "map_of (mg_keys m) (pk_id k) = Some e"
    and "fst (key_pickable now (key_sync k now (key_st_of (pk_id k) now m))) = (fst e, snd e, mg_world m)"
proof (cases "map_of (mg_keys m) (pk_id k)")
  case None
  then have "key_st_of (pk_id k) now m = (fst (new_key (pk_id k) (mg_ecfg m) (mg_has_store m) now),
      snd (new_key (pk_id k) (mg_ecfg m) (mg_has_store m) now), mg_world m)"
    by (simp add: key_st_of_def key_entity_locked_def Let_def)
  with assms(3) show thesis
    by (simp add: new_key_def key_sync_usable [OF assms(2)] key_pickable_def)
next
  case (Some e)
  then have st: "key_st_of (pk_id k) now m = (fst e, snd e, mg_world m)"
    by (simp add: key_st_of_def key_entity_locked_def)
  have "fst (key_pickable now (key_sync k now (fst e, snd e, mg_world m))) = (fst e, snd e, mg_world m)"
    using assms(3) key_locked_inv [OF assms(1), of "pk_id k" now] unfolding st
    by (auto simp: key_sync_usable [OF assms(2)] op_simps key_pickable_def Let_def key_advance_def
        advance_def split: if_splits)
  with Some st show thesis using that by simp
qed

lemma put_key_same:
  "map_of (mg_keys m) i = Some e \<Longrightarrow> key_st_of j t (put_key i (fst e, snd e, mg_world m) m) = key_st_of j t m"
  by (simp add: key_st_of_def key_entity_locked_def put_key_def split: option.split)

lemma put_key_inv:
  assumes "manager_inv m"
  shows "manager_inv (put_key i (fst (key_pickable now (key_sync k now (key_st_of i t m)))) m)"
  using sched_safe.key_pick_step [OF assms [unfolded manager_inv_def], of i now k t]
  by (simp add: manager_inv_def put_key_def)

lemma refused_pick_step:
  assumes "manager_inv m" and "refused now hi k m" and "now \<le> hi" and "pk_id a = pk_id k \<Longrightarrow> a = k"
  shows "refused now hi k (put_key (pk_id a) (fst (key_pickable now (key_sync a now (key_st_of (pk_id a) now m)))) m)"
proof (cases "pk_id a = pk_id k")
  case False
  then have ne: "pk_id k \<noteq> pk_id a" by simp
  show ?thesis using assms(2) unfolding refused_def key_verdict_put_key [OF ne] .
next
  case True
  then have a: "a = k" by (rule assms(4))
  show ?thesis
  proof (cases "key_row_usable k now")
    case False
    then show ?thesis unfolding a by (intro refused_unusable put_key_inv assms(1))
  next
    case True
    have "\<not> fst (key_verdict now m k)" using assms(2,3) by (simp add: refused_def)
    from key_refused_same [OF assms(1) True this] obtain e where
      e: "map_of (mg_keys m) (pk_id k) = Some e"
        "fst (key_pickable now (key_sync k now (key_st_of (pk_id k) now m))) = (fst e, snd e, mg_world m)" .
    show ?thesis using assms(2) unfolding a e(2) refused_def put_key_same [OF e(1)] .
  qed
qed

lemma refused_pick_loop:
  assumes "manager_inv m" and "refused now hi k m" and "now \<le> hi"
    and "\<And>a. a \<in> set ks \<Longrightarrow> pk_id a = pk_id k \<Longrightarrow> a = k"
  shows "refused now hi k (fst (pick_key_loop now ks next m))"
  using assms
proof (induction ks arbitrary: m "next")
  case (Cons a ks)
  let ?m = "put_key (pk_id a) (fst (key_pickable now (key_sync a now (key_st_of (pk_id a) now m)))) m"
  have "refused now hi k ?m" using Cons.prems by (intro refused_pick_step) auto
  moreover have "manager_inv ?m" using Cons.prems(1) by (rule put_key_inv)
  ultimately show ?case using Cons.IH [of ?m] Cons.prems
    unfolding pick_key_loop_Cons Let_def by simp
qed simp

lemma pick_loop_healthy:
  "snd (pick_key_loop now ks next m) = Inr k \<Longrightarrow>
   \<exists>c d. map_of (mg_keys (fst (pick_key_loop now ks next m))) (pk_id k) = Some (c, d) \<and> m_state c = Healthy"
proof (induction ks arbitrary: m "next")
  case (Cons a ks)
  let ?st = "key_sync a now (key_st_of (pk_id a) now m)"
  have "m_state (fst (fst (key_pickable now ?st))) = Healthy" if "fst (snd (key_pickable now ?st))"
    using that by (auto simp: key_pickable_def Let_def split: if_splits)
  with Cons show ?case
    unfolding pick_key_loop_Cons Let_def by (auto simp: put_key_def split: if_splits)
qed simp

lemma key_st_cursors [simp]: "key_st_of i t (m\<lparr>mg_cursors := c\<rparr>) = key_st_of i t m"
  by (simp add: key_st_of_def key_entity_locked_def split: option.split)

lemma manager_inv_cursors: "manager_inv (m\<lparr>mg_cursors := c\<rparr>) = manager_inv m"
  unfolding manager_inv_def using sched_safe.holds_frame(2) by simp

lemma find_SomeD:
  assumes "find P xs = Some x"
  shows "x \<in> set xs" and "P x"
  using assms by (induction xs) (auto split: if_splits)

lemma pick_key_state:
  assumes "manager_inv m" and "distinct (map pk_id ks)" and "set ks \<subseteq> pool" and "inj_on pk_id pool"
  shows "k \<in> pool \<Longrightarrow> refused now hi k m \<Longrightarrow> now \<le> hi \<Longrightarrow> refused now hi k (fst (pick_available_key ks s now m))"
    and "snd (pick_available_key ks s now m) = Inr k' \<Longrightarrow> k' \<in> set ks \<and> fst (key_verdict now m k') \<and>
      (\<exists>c d. map_of (mg_keys (fst (pick_available_key ks s now m))) (pk_id k') = Some (c, d) \<and> m_state c = Healthy)"
proof -
  obtain rot cs where p: "pick_available_key ks s now m =
      pick_key_loop now (drop rot (sort_keys ks) @ take rot (sort_keys ks)) zero_time (m\<lparr>mg_cursors := cs\<rparr>)"
  proof (cases "sort_keys ks")
    case Nil
    then show thesis using that [of 0 "mg_cursors m"] by (simp add: pick_available_key_def)
  next
    case (Cons k0 rest)
    then show thesis using that by (simp add: pick_available_key_def Let_def split_beta)
  qed
  let ?ks = "drop rot (sort_keys ks) @ take rot (sort_keys ks)" and ?m = "m\<lparr>mg_cursors := cs\<rparr>"
  have set: "set ?ks = set ks" by (metis append_take_drop_id set_append sup_commute set_sort_keys(1))
  show "refused now hi k (fst (pick_available_key ks s now m))" if "k \<in> pool" "refused now hi k m" "now \<le> hi"
    unfolding p
  proof (rule refused_pick_loop)
    show "manager_inv ?m" using assms(1) by (simp add: manager_inv_cursors)
    show "refused now hi k ?m" using that(2) by (simp add: refused_def)
    show "a = k" if "a \<in> set ?ks" "pk_id a = pk_id k" for a
      using that \<open>k \<in> pool\<close> assms(3,4) unfolding set by (auto dest: inj_onD)
  qed fact
  show "k' \<in> set ks \<and> fst (key_verdict now m k') \<and>
      (\<exists>c d. map_of (mg_keys (fst (pick_available_key ks s now m))) (pk_id k') = Some (c, d) \<and> m_state c = Healthy)"
    if r: "snd (pick_available_key ks s now m) = Inr k'"
  proof -
    have "mset ?ks = mset (sort_keys ks)" by (metis append_take_drop_id mset_append union_commute)
    then have d: "distinct (map pk_id ?ks)"
      using assms(2) by (metis mset_eq_imp_distinct_iff mset_map set_sort_keys(3))
    from pick_key_loop_result [OF this, of now zero_time ?m] r
    have "find (\<lambda>k. fst (key_verdict now m k)) ?ks = Some k'" by (simp add: p split: option.splits)
    then have "k' \<in> set ?ks" "fst (key_verdict now m k')"
      by (rule find_SomeD)+
    with set pick_loop_healthy [OF r [unfolded p]] show ?thesis unfolding p by blast
  qed
qed

lemma put_key_refused:
  assumes "m_state (fst st) = Cooling \<and> hi < m_wake_at (fst st) \<or> m_state (fst st) = PlatformFailed \<and> m_wake_at (fst st) = zero_time"
  shows "refused lo hi k (put_key (pk_id k) st m)"
  unfolding refused_def
proof (intro allI impI)
  fix t assume t: "lo \<le> t \<and> t \<le> hi"
  obtain c d w where st: "st = (c, d, w)" by (cases st) auto
  have "key_st_of (pk_id k) t (put_key (pk_id k) st m) = st"
    by (simp add: st key_st_of_def key_entity_locked_def put_key_def)
  moreover have "\<not> fst (snd (key_pickable t (key_sync k t st)))"
  proof (cases "key_row_usable k t")
    case True
    with assms t show ?thesis
      by (auto simp: st key_sync_usable key_pickable_def Let_def key_advance_def advance_def)
  next
    case False
    have "key_inv st" using assms by (auto simp: st)
    then have "m_state (fst (key_sync k t st)) \<in> dead_states" using False key_sync_dead_iff by blast
    from key_pickable_dead [OF this, of t] show ?thesis by simp
  qed
  ultimately show "\<not> fst (key_verdict t (put_key (pk_id k) st m) k)" by simp
qed

text \<open>The shortest time for which a failure takes a key out, of this scheduler and blacklist.\<close>

definition shortest_cooldown :: "cooldown_config \<Rightarrow> duration \<Rightarrow> duration \<Rightarrow> bool" where
  "shortest_cooldown cfg ttl d \<longleftrightarrow>
     0 < d \<and> d \<le> cc_default cfg \<and> (cc_timeout cfg > 0 \<longrightarrow> d \<le> cc_timeout cfg) \<and>
     (cc_billing cfg > 0 \<longrightarrow> d \<le> cc_billing cfg) \<and> d \<le> ttl"

lemma cooldown_shortest: "shortest_cooldown cfg ttl d \<Longrightarrow> d \<le> key_cooldown cfg p"
  by (simp add: shortest_cooldown_def key_cooldown_def)

lemma until_shortest:
  assumes "shortest_cooldown cfg ttl d" and "hi < now + d"
    and "sf_retry_at p \<le> now \<or> hi < sf_retry_at p"
  shows "hi < key_until cfg p now"
  using assms cooldown_shortest [OF assms(1), of p] by (auto simp: key_until_def Let_def)

lemma marks_refuse:
  assumes inv: "manager_inv m" and e: "map_of (mg_keys m) (pk_id k) = Some (c, d)" "m_state c = Healthy"
    and short: "shortest_cooldown (mg_ecfg m) ttl len" "hi < now + len"
  shows "retry \<le> now \<or> hi < retry \<Longrightarrow> refused lo hi k (fst (mark_key_failure (pk_id k) retry reason b now m))"
    and "retry \<le> now \<or> hi < retry \<Longrightarrow> refused lo hi k (fst (mark_key_temporary_failure (pk_id k) retry reason b now m))"
    and "0 \<le> now \<Longrightarrow> refused lo hi k (fst (mark_key_billing_failure (pk_id k) reason now m))"
    and "refused lo hi k (fst (mark_key_platform_failure (pk_id k) reason now m))"
proof -
  have cfg: "k_cfg d = mg_ecfg m" and wake: "m_wake_at c = zero_time"
    using manager_invD(2) [OF inv e(1), of "mg_world m"] e(2) by auto
  have st: "key_st_of (pk_id k) now m = (c, d, mg_world m)" using e(1) by (simp add: key_st_of_def key_entity_locked_def)
  have sess: "m_state (fst (fst (key_fire_session_failure p now (c, d, mg_world m)))) = Cooling \<and>
      hi < m_wake_at (fst (fst (key_fire_session_failure p now (c, d, mg_world m))))"
    if "sf_retry_at p \<le> now \<or> hi < sf_retry_at p" for p
    using until_shortest [OF short that] e(2) by (simp add: key_session_simps cfg)
  show "refused lo hi k (fst (mark_key_failure (pk_id k) retry reason b now m))" if "retry \<le> now \<or> hi < retry"
    unfolding mark_key_failure_def key_session_failure_def st
    by (simp add: Let_def split_beta) (rule put_key_refused, rule disjI1, rule sess, use that in simp)
  show "refused lo hi k (fst (mark_key_temporary_failure (pk_id k) retry reason b now m))" if "retry \<le> now \<or> hi < retry"
    unfolding mark_key_temporary_failure_def key_temporary_failure_def st
    by (simp add: Let_def split_beta) (rule put_key_refused, rule disjI1, rule sess, use that in simp)
  show "refused lo hi k (fst (mark_key_billing_failure (pk_id k) reason now m))" if "0 \<le> now"
    unfolding mark_key_billing_failure_def key_billing_failure_def st
    by (simp add: Let_def split_beta) (rule put_key_refused, rule disjI1, rule sess, use that in simp)
  have "m_state (fst (fst (key_platform_failure reason now (c, d, mg_world m)))) = PlatformFailed \<and>
      m_wake_at (fst (fst (key_platform_failure reason now (c, d, mg_world m)))) = zero_time"
    using e(2) wake by (simp add: key_platform_failure_def Let_def op_simps split_beta)
  then show "refused lo hi k (fst (mark_key_platform_failure (pk_id k) reason now m))"
    unfolding mark_key_platform_failure_def st
    by (simp add: Let_def split_beta) (rule put_key_refused, rule disjI2, assumption)
qed

section \<open>The loop ends\<close>

definition stays_out :: "rapi \<Rightarrow> instant \<Rightarrow> instant \<Rightarrow> platform_key \<Rightarrow> gateway \<Rightarrow> bool" where
  "stays_out r lo hi k gw \<longleftrightarrow>
     (\<forall>t. lo \<le> t \<and> t \<le> hi \<longrightarrow> block_view (gw_blocks gw) (pk_id k) (ra_id r) t \<noteq> None) \<or>
     refused lo hi k (gw_sched gw)"

text \<open>What an attempt has to satisfy for a failure to take the key out until \<open>hi\<close>: the upstream asks for a
  retry either right away or after \<open>hi\<close>, the mark comes less than the shortest cooldown before \<open>hi\<close>, and
  no other request interferes.\<close>

definition fails_past :: "gw_env \<Rightarrow> duration \<Rightarrow> instant \<Rightarrow> attempt \<Rightarrow> bool" where
  "fails_past env len hi at \<longleftrightarrow>
     0 \<le> at_filter at \<and> at_filter at \<le> at_pick at \<and> at_pick at \<le> at_mark at \<and> at_mark at \<le> hi \<and>
     hi < at_mark at + len \<and> at_others at = [] \<and>
     (case at_outcome at of
        UpstreamError _ _ \<Rightarrow> True
      | Upstream resp \<Rightarrow>
          (let retry = retry_at (ge_parse_time env) (Some (rs_header resp)) zero_time (at_mark at)
           in retry \<le> at_mark at \<or> hi < retry))"

lemma mark_other_key:
  assumes "refused lo hi k m" and "i \<noteq> pk_id k"
  shows "refused lo hi k (put_key i st m)"
  using assms key_verdict_put_key [of k i] by (simp add: refused_def)

lemma marks_other:
  assumes "refused lo hi k m" and "i \<noteq> pk_id k"
  shows "refused lo hi k (fst (mark_key_failure i retry reason b now m))"
    and "refused lo hi k (fst (mark_key_temporary_failure i retry reason b now m))"
    and "refused lo hi k (fst (mark_key_billing_failure i reason now m))"
    and "refused lo hi k (fst (mark_key_platform_failure i reason now m))"
  using assms
  by (simp_all add: mark_key_failure_def mark_key_temporary_failure_def mark_key_billing_failure_def
      mark_key_platform_failure_def Let_def split_beta mark_other_key)

lemma block_view_block:
  "block_view (fst (block_key_for_model k r reason now bs)) k' r' t =
     (if k' = k \<and> r' = r
      then (if now + bk_ttl bs = zero_time \<or> now + bk_ttl bs > t then Some reason else None)
      else block_view bs k' r' t)"
  by (simp add: block_view_def block_key_for_model_def Let_def)

lemma stays_out_later: "stays_out r lo hi k gw \<Longrightarrow> lo \<le> lo' \<Longrightarrow> stays_out r lo' hi k gw"
  unfolding stays_out_def using refused_later [of lo hi k "gw_sched gw" lo'] by fastforce

lemma marks_cfg:
  "manager_inv m \<Longrightarrow> mg_ecfg (sched_step rt op m) = mg_ecfg m"
proof -
  assume "manager_inv m"
  then have "sched_safe.holds (mg_ecfg m) (mg_has_store m) (sched_step rt op m)"
    unfolding manager_inv_def by (rule sched_safe.step_holds) simp
  from sched_safe.holdsD(5) [OF this] show ?thesis .
qed

lemma ops_cfg:
  assumes "manager_inv m"
  shows "mg_ecfg (fst (pick_available_key ks s now m)) = mg_ecfg m"
    and "mg_ecfg (fst (mark_key_failure i at r b now m)) = mg_ecfg m"
    and "mg_ecfg (fst (mark_key_temporary_failure i at r b now m)) = mg_ecfg m"
    and "mg_ecfg (fst (mark_key_billing_failure i r now m)) = mg_ecfg m"
    and "mg_ecfg (fst (mark_key_platform_failure i r now m)) = mg_ecfg m"
  using marks_cfg [OF assms, of undefined "SPickKey ks s now"]
    marks_cfg [OF assms, of undefined "SKeyFailure i at r b now"]
    marks_cfg [OF assms, of undefined "SKeyTemporary i at r b now"]
    marks_cfg [OF assms, of undefined "SKeyBilling i r now"]
    marks_cfg [OF assms, of undefined "SKeyPlatform i r now"]
  by simp_all

lemma drop_blocked_ttl [simp]: "bk_ttl (fst (filter_blocked_keys ks r now bs)) = bk_ttl bs"
proof -
  have "bk_ttl (fst (is_blocked k r now bs)) = bk_ttl bs" for k bs
    by (auto simp: is_blocked_def purge_expired_block_def split: option.split)
  then show ?thesis unfolding filter_blocked_keys_def
    by (induction ks arbitrary: bs) (simp_all add: Let_def split_beta)
qed

lemma block_ttl [simp]: "bk_ttl (fst (block_key_for_model k r reason now bs)) = bk_ttl bs"
  by (simp add: block_key_for_model_def Let_def)

lemma on_failed_frame:
  assumes "manager_inv (gw_sched gw)"
  shows "mg_ecfg (gw_sched (on_failed_response env r key resp now gw)) = mg_ecfg (gw_sched gw)"
    and "bk_ttl (gw_blocks (on_failed_response env r key resp now gw)) = bk_ttl (gw_blocks gw)"
  by (rule on_failed_cases [of env r key resp now gw]; simp add: ops_cfg [OF assms])+

lemma on_failed_others:
  assumes "stays_out r lo hi k gw" and "pk_id key \<noteq> pk_id k"
  shows "stays_out r lo hi k (on_failed_response env r key resp now gw)"
proof (rule on_failed_cases [of env r key resp now gw])
qed (use assms in \<open>auto simp: stays_out_def marks_other block_view_block\<close>)

lemma on_failed_key:
  assumes "manager_inv (gw_sched gw)" and "map_of (mg_keys (gw_sched gw)) (pk_id k) = Some (c, d)"
    and "m_state c = Healthy" and "shortest_cooldown (mg_ecfg (gw_sched gw)) (bk_ttl (gw_blocks gw)) len"
    and "hi < now + len" and "0 \<le> now"
    and "retry_at (ge_parse_time env) (Some (rs_header resp)) zero_time now \<le> now \<or>
         hi < retry_at (ge_parse_time env) (Some (rs_header resp)) zero_time now"
  shows "stays_out r lo hi k (on_failed_response env r k resp now gw)"
proof -
  note m = marks_refuse [OF assms(1-5)]
  have "len \<le> bk_ttl (gw_blocks gw)" using assms(4) by (simp add: shortest_cooldown_def)
  with assms(5) have ttl: "hi < now + bk_ttl (gw_blocks gw)" by simp
  show ?thesis
    by (rule on_failed_cases [of env r k resp now gw])
      (use m(2) [OF assms(7)] m(3) [OF assms(6)] m(4) ttl in \<open>auto simp: stays_out_def block_view_block\<close>)
qed

text \<open>One failed pass takes one more key out and lets none back in.\<close>

lemma try_pass_again:
  assumes again: "try_pass env r s at ks gw = (gw', Inl ks')"
    and inv: "gateway_inv gw" and ids: "distinct (map pk_id ks)" and pool: "set ks \<subseteq> pool" "inj_on pk_id pool"
    and past: "fails_past env len hi at"
    and short: "shortest_cooldown (mg_ecfg (gw_sched gw)) (bk_ttl (gw_blocks gw)) len"
  shows "\<exists>k. k \<in> set ks' \<and> \<not> stays_out r (at_filter at) hi k gw \<and> stays_out r (at_mark at) hi k gw'"
    and "\<forall>k \<in> pool. stays_out r (at_filter at) hi k gw \<longrightarrow> stays_out r (at_mark at) hi k gw'"
    and "set ks' \<subseteq> set ks \<and> distinct (map pk_id ks')"
    and "mg_ecfg (gw_sched gw') = mg_ecfg (gw_sched gw) \<and> bk_ttl (gw_blocks gw') = bk_ttl (gw_blocks gw)"
proof -
  let ?f = "at_filter at" and ?p = "at_pick at" and ?q = "at_mark at"
  let ?m = "gw_sched gw" and ?b = "gw_blocks gw"
  have t: "0 \<le> ?f" "?f \<le> ?p" "?p \<le> ?q" "?q \<le> hi" "hi < ?q + len" "at_others at = []"
    using past by (simp_all add: fails_past_def)
  have minv: "manager_inv ?m" using inv by (simp add: gateway_inv_def)
  define bs1 ks1 where "bs1 = fst (filter_blocked_keys ks (ra_id r) ?f ?b)"
    and "ks1 = snd (filter_blocked_keys ks (ra_id r) ?f ?b)"
  have ks1: "ks1 = filter (\<lambda>k. block_view ?b (pk_id k) (ra_id r) ?f = None) ks"
    unfolding ks1_def filter_blocked_keys_def by (rule key_blocks.drop_result)
  have view: "block_view bs1 i j t = block_view ?b i j t" if "?f \<le> t" for i j t
    unfolding bs1_def filter_blocked_keys_def by (rule key_blocks.drop_view [OF that])
  define m1 where "m1 = fst (pick_available_key ks1 s ?p ?m)"
  let ?gw1 = "gw\<lparr>gw_blocks := bs1, gw_sched := m1\<rparr>"
  obtain key where pick: "snd (pick_available_key ks1 s ?p ?m) = Inr key" and eq: "ks' = ks1"
    and next_gw: "(\<exists>err b. gw' = ?gw1\<lparr>gw_sched := fst (mark_key_failure (pk_id key) zero_time err b ?q m1)\<rparr>) \<or>
      (\<exists>resp. at_outcome at = Upstream resp \<and> gw' = on_failed_response env r key resp ?q ?gw1)"
    using again t(6)
    by (auto simp: try_pass_def Let_def split_beta m1_def ks1_def bs1_def sched_run_def
        split: if_splits sum.splits outcome.splits)
  have sub: "set ks1 \<subseteq> set ks" and d1: "distinct (map pk_id ks1)"
    unfolding ks1 using ids by (auto simp: distinct_map inj_on_def)
  note picked = pick_key_state(2) [OF minv d1 subset_trans [OF sub pool(1)] pool(2) pick]
  have key: "key \<in> set ks1" "fst (key_verdict ?p ?m key)" using picked by blast+
  obtain c d where healthy: "map_of (mg_keys m1) (pk_id key) = Some (c, d)" "m_state c = Healthy"
    using picked unfolding m1_def by blast
  have m1: "manager_inv m1" "mg_ecfg m1 = mg_ecfg ?m"
    unfolding m1_def by (rule manager_inv_ops(1) [OF minv], rule ops_cfg(1) [OF minv])
  have ttl: "bk_ttl bs1 = bk_ttl ?b" by (simp add: bs1_def)
  have short1: "shortest_cooldown (mg_ecfg m1) (bk_ttl bs1) len" using short m1(2) ttl by simp
  have out_key: "stays_out r ?q hi key gw'"
    using next_gw
  proof (elim disjE exE conjE)
    fix err b assume "gw' = ?gw1\<lparr>gw_sched := fst (mark_key_failure (pk_id key) zero_time err b ?q m1)\<rparr>"
    with marks_refuse(1) [OF m1(1) healthy short1 t(5)] t(1-3) show ?thesis by (simp add: stays_out_def)
  next
    fix resp assume o: "at_outcome at = Upstream resp" and g: "gw' = on_failed_response env r key resp ?q ?gw1"
    show ?thesis unfolding g
      by (rule on_failed_key [where c = c and d = d and len = len])
        (use m1(1) healthy short1 t past o in \<open>simp_all add: fails_past_def Let_def\<close>)
  qed
  have not_out: "\<not> stays_out r ?f hi key gw"
    using key t by (auto simp: stays_out_def refused_def ks1)
  with key(1) out_key eq show "\<exists>k. k \<in> set ks' \<and> \<not> stays_out r ?f hi k gw \<and> stays_out r ?q hi k gw'" by blast
  show "\<forall>k \<in> pool. stays_out r ?f hi k gw \<longrightarrow> stays_out r ?q hi k gw'"
  proof (intro ballI impI)
    fix k assume k: "k \<in> pool" and out: "stays_out r ?f hi k gw"
    with not_out have "k \<noteq> key" by blast
    with key(1) sub pool k have ne: "pk_id key \<noteq> pk_id k" by (auto dest: inj_onD)
    from out have "stays_out r ?p hi k ?gw1"
      unfolding stays_out_def
    proof (elim disjE)
      assume "refused ?f hi k ?m"
      then have "refused ?p hi k ?m" using t(2) by (rule refused_later)
      with pick_key_state(1) [OF minv d1 subset_trans [OF sub pool(1)] pool(2) k this, of s] t(3,4)
      show "(\<forall>t. ?p \<le> t \<and> t \<le> hi \<longrightarrow> block_view (gw_blocks ?gw1) (pk_id k) (ra_id r) t \<noteq> None) \<or>
          refused ?p hi k (gw_sched ?gw1)" by (simp add: m1_def)
    qed (use t(2) view in auto)
    then have out1: "stays_out r ?q hi k ?gw1" using t(3) by (rule stays_out_later)
    from next_gw show "stays_out r ?q hi k gw'"
    proof (elim disjE exE conjE)
      fix err b assume "gw' = ?gw1\<lparr>gw_sched := fst (mark_key_failure (pk_id key) zero_time err b ?q m1)\<rparr>"
      with out1 marks_other(1) [OF _ ne] show ?thesis by (auto simp: stays_out_def)
    next
      fix resp assume "gw' = on_failed_response env r key resp ?q ?gw1"
      with on_failed_others [OF out1 ne] show ?thesis by simp
    qed
  qed
  show "set ks' \<subseteq> set ks \<and> distinct (map pk_id ks')" using eq sub d1 by simp
  from next_gw show "mg_ecfg (gw_sched gw') = mg_ecfg ?m \<and> bk_ttl (gw_blocks gw') = bk_ttl ?b"
    using on_failed_frame [where gw = ?gw1] m1 ttl ops_cfg(2) [OF m1(1)] by auto
qed

text \<open>The clocks of a request that ends before \<open>hi\<close>.\<close>

definition quick_request :: "gw_env \<Rightarrow> duration \<Rightarrow> instant \<Rightarrow> nat \<Rightarrow> (nat \<Rightarrow> attempt) \<Rightarrow> bool" where
  "quick_request env len hi n attempts \<longleftrightarrow>
     (\<forall>i \<le> n. fails_past env len hi (attempts i)) \<and>
     (\<forall>i < n. at_mark (attempts i) \<le> at_filter (attempts (Suc i)))"

lemma try_loop_ends:
  assumes "gateway_inv gw" and "distinct (map pk_id ks)" and "set ks \<subseteq> pool" and "inj_on pk_id pool"
    and "shortest_cooldown (mg_ecfg (gw_sched gw)) (bk_ttl (gw_blocks gw)) len"
    and "quick_request env len hi limit attempts"
    and "n + card {k \<in> set ks. \<not> stays_out r (at_filter (attempts n)) hi k gw} \<le> limit"
  shows "\<exists>gw' n' res. try_loop env r s attempts n ks gw = Some (gw', n', res) \<and> n' \<le> limit"
  using assms
proof (induction "card {k \<in> set ks. \<not> stays_out r (at_filter (attempts n)) hi k gw}" arbitrary: n ks gw rule: less_induct)
  case less
  let ?out = "\<lambda>n gw. {k \<in> set ks. \<not> stays_out r (at_filter (attempts n)) hi k gw}"
  note prems = less.prems
  show ?case
  proof (cases "snd (try_pass env r s (attempts n) ks gw)")
    case (Inr res)
    then show ?thesis using prems(7)
      by (subst try_loop.simps) (auto simp: split_beta)
  next
    case (Inl ks')
    then obtain gw1 where again: "try_pass env r s (attempts n) ks gw = (gw1, Inl ks')"
      by (metis prod.collapse)
    have past: "fails_past env len hi (attempts n)" using prems(6,7) by (simp add: quick_request_def)
    note pass = try_pass_again [OF again prems(1-4) past prems(5)]
    obtain k where k: "k \<in> set ks'" "\<not> stays_out r (at_filter (attempts n)) hi k gw"
      "stays_out r (at_mark (attempts n)) hi k gw1" using pass(1) by blast
    then have "0 < card (?out n gw)" using pass(3) by (auto simp: card_gt_0_iff)
    with prems(7) have "n < limit" by linarith
    then have seq: "at_mark (attempts n) \<le> at_filter (attempts (n + 1))"
      using prems(6) by (simp add: quick_request_def)
    let ?new = "{k \<in> set ks'. \<not> stays_out r (at_filter (attempts (n + 1))) hi k gw1}"
    have "?new \<subseteq> ?out n gw"
      using pass(2,3) prems(3) stays_out_later [OF _ seq, of r hi _ gw1] by blast
    moreover have "k \<in> ?out n gw" "k \<notin> ?new" using k pass(3) stays_out_later [OF k(3) seq] by auto
    ultimately have smaller: "card ?new < card (?out n gw)" by (intro psubset_card_mono) auto
    have sub: "set ks' \<subseteq> pool" using pass(3) prems(3) by blast
    have inv: "gateway_inv gw1" using try_pass_inv [OF prems(1), of env r s "attempts n" ks] again by simp
    have ids: "distinct (map pk_id ks')" using pass(3) ..
    have short: "shortest_cooldown (mg_ecfg (gw_sched gw1)) (bk_ttl (gw_blocks gw1)) len"
      using pass(4) prems(5) by simp
    have le: "n + 1 + card ?new \<le> limit" using prems(7) smaller by linarith
    from less.hyps [OF smaller inv ids sub prems(4) short prems(6) le]
    show ?thesis
      by (subst try_loop.simps) (simp add: again)
  qed
qed

text \<open>C18: Trying the keys of an endpoint ends: when no other request interferes and the request takes less
  than the shortest cooldown, every failure takes its key out of the pool (cooling, failed, or
  blocked for this model), so the loop, which has no bound of its own, makes at most one upstream
  call per key and returns.\<close>

theorem try_key_terminates:
  assumes "gateway_inv gw" and "distinct (map pk_id (ra_keys r))"
    and "shortest_cooldown (mg_ecfg (gw_sched gw)) (bk_ttl (gw_blocks gw)) len"
    and "quick_request env len hi (max 1 (length (ra_keys r))) attempts"
  shows "\<exists>gw' n res. try_key_for_rapi env r session attempts gw = Some (gw', n, res) \<and>
    n \<le> max 1 (length (ra_keys r))"
proof -
  let ?ks = "if ra_keys r = [] then [synthetic_key r] else ra_keys r"
  have d: "distinct (map pk_id ?ks)" using assms(2) by simp
  have "card {k \<in> set ?ks. \<not> stays_out r (at_filter (attempts 0)) hi k gw} \<le> card (set ?ks)"
    by (rule card_mono) auto
  also have "\<dots> \<le> max 1 (length (ra_keys r))" using card_length [of "ra_keys r"] by auto
  finally have le: "0 + card {k \<in> set ?ks. \<not> stays_out r (at_filter (attempts 0)) hi k gw} \<le>
    max 1 (length (ra_keys r))" by simp
  have "inj_on pk_id (set ?ks)" using d by (simp only: distinct_map)
  from try_loop_ends [OF assms(1) d subset_refl this assms(3,4) le, of session] show ?thesis
    unfolding try_key_for_rapi_def Let_def .
qed

section \<open>Who is served\<close>

definition attempt_failed :: "attempt \<Rightarrow> bool" where
  "attempt_failed at \<longleftrightarrow>
     (case at_outcome at of UpstreamError _ _ \<Rightarrow> True | Upstream resp \<Rightarrow> \<not> is_success (rs_status resp))"

lemma try_pass_again_simple:
  assumes "try_pass env r s at ks gw = (gw', Inl ks')"
  shows "attempt_failed at" and "ks' = filter (\<lambda>k. block_view (gw_blocks gw) (pk_id k) (ra_id r) (at_filter at) = None) ks"
proof -
  have ks1: "snd (filter_blocked_keys ks (ra_id r) (at_filter at) (gw_blocks gw)) =
      filter (\<lambda>k. block_view (gw_blocks gw) (pk_id k) (ra_id r) (at_filter at) = None) ks"
    unfolding filter_blocked_keys_def by (rule key_blocks.drop_result)
  show "attempt_failed at"
    using assms by (auto simp: try_pass_def attempt_failed_def Let_def split_beta
        split: if_splits sum.splits outcome.splits)
  show "ks' = filter (\<lambda>k. block_view (gw_blocks gw) (pk_id k) (ra_id r) (at_filter at) = None) ks"
    using assms unfolding ks1 [symmetric]
    by (auto simp: try_pass_def Let_def split_beta split: if_splits sum.splits outcome.splits)
qed

lemma unblock_view: "block_view (unblock_key_for_model k r bs) k r t = None"
  by (simp add: block_view_def unblock_key_for_model_def)

lemma try_pass_served:
  assumes pass: "try_pass env r s at ks gw = (gw', Inr (Served k resp))"
    and inv: "gateway_inv gw" and ids: "distinct (map pk_id ks)"
  shows "k \<in> set ks \<and> key_row_usable k (at_pick at) \<and>
    block_view (gw_blocks gw) (pk_id k) (ra_id r) (at_filter at) = None \<and>
    at_outcome at = Upstream resp \<and> is_success (rs_status resp) \<and>
    (0 < pk_id k \<longrightarrow> (\<forall>t. block_view (gw_blocks gw') (pk_id k) (ra_id r) t = None))"
proof -
  let ?m = "gw_sched gw"
  define bs1 ks1 where "bs1 = fst (filter_blocked_keys ks (ra_id r) (at_filter at) (gw_blocks gw))"
    and "ks1 = snd (filter_blocked_keys ks (ra_id r) (at_filter at) (gw_blocks gw))"
  have ks1: "ks1 = filter (\<lambda>k. block_view (gw_blocks gw) (pk_id k) (ra_id r) (at_filter at) = None) ks"
    unfolding ks1_def filter_blocked_keys_def by (rule key_blocks.drop_result)
  have minv: "manager_inv ?m" using inv by (simp add: gateway_inv_def)
  obtain gw1 where p: "snd (pick_available_key ks1 s (at_pick at) ?m) = Inr k"
    and o: "at_outcome at = Upstream resp" "is_success (rs_status resp)"
    and g: "gw' = on_served r k (at_mark at) gw1"
    using pass by (auto simp: try_pass_def Let_def split_beta ks1_def
        split: if_splits sum.splits outcome.splits)
  have d: "distinct (map pk_id ks1)" "set ks1 \<subseteq> set ks" and inj: "inj_on pk_id (set ks)"
    unfolding ks1 using ids by (auto simp: distinct_map inj_on_def)
  from pick_key_state(2) [OF minv d inj p] have k: "k \<in> set ks1" "fst (key_verdict (at_pick at) ?m k)" by blast+
  from k(1) have "k \<in> set ks" "block_view (gw_blocks gw) (pk_id k) (ra_id r) (at_filter at) = None"
    unfolding ks1 by auto
  with o key_verdict_usable [OF minv k(2)] show ?thesis
    by (simp add: g on_served_def Let_def unblock_view)
qed

definition loop_result_ok :: "rapi \<Rightarrow> (nat \<Rightarrow> attempt) \<Rightarrow> nat \<Rightarrow> platform_key list \<Rightarrow> gateway \<times> nat \<times> try_result \<Rightarrow> bool" where
  "loop_result_ok r attempts n ks y \<longleftrightarrow>
     n \<le> fst (snd y) \<and> (\<forall>i. n \<le> i \<and> i < fst (snd y) \<longrightarrow> attempt_failed (attempts i)) \<and>
     (\<forall>k resp. snd (snd y) = Served k resp \<longrightarrow>
        k \<in> set ks \<and> key_row_usable k (at_pick (attempts (fst (snd y)))) \<and>
        at_outcome (attempts (fst (snd y))) = Upstream resp \<and> is_success (rs_status resp) \<and>
        (0 < pk_id k \<longrightarrow> (\<forall>t. block_view (gw_blocks (fst y)) (pk_id k) (ra_id r) t = None)))"

lemma try_loop_result:
  "try_loop env r s attempts n ks gw = Some y \<Longrightarrow>
   gateway_inv gw \<longrightarrow> distinct (map pk_id ks) \<longrightarrow> loop_result_ok r attempts n ks y"
proof (erule try_loop.raw_induct [where P = "\<lambda>env r s attempts n ks gw y.
    gateway_inv gw \<longrightarrow> distinct (map pk_id ks) \<longrightarrow> loop_result_ok r attempts n ks y", rotated], intro impI)
  fix loop and env r s attempts n ks gw y
  assume IH: "\<And>env r s attempts n ks gw y. loop env r s attempts n ks gw = Some y \<Longrightarrow>
      gateway_inv gw \<longrightarrow> distinct (map pk_id ks) \<longrightarrow> loop_result_ok r attempts n ks y"
    and body: "(case try_pass env r s (attempts n) ks gw of
        (gw', Inl ks') \<Rightarrow> loop env r s attempts (n + 1) ks' gw' | (gw', Inr res) \<Rightarrow> Some (gw', n, res)) = Some y"
    and inv: "gateway_inv gw" and ids: "distinct (map pk_id ks)"
  show "loop_result_ok r attempts n ks y"
  proof (cases "try_pass env r s (attempts n) ks gw")
    case (Pair gw' res)
    show ?thesis
    proof (cases res)
      case (Inr res')
      with Pair body have y: "y = (gw', n, res')" by simp
      with try_pass_served [OF _ inv ids, of env r s "attempts n" gw'] Pair Inr show ?thesis
        by (auto simp: loop_result_ok_def)
    next
      case (Inl ks')
      with Pair body have l: "loop env r s attempts (n + 1) ks' gw' = Some y" by simp
      have p: "try_pass env r s (attempts n) ks gw = (gw', Inl ks')" using Pair Inl by simp
      note again = try_pass_again_simple [OF p]
      have "gateway_inv gw'" using try_pass_inv [OF inv, of env r s "attempts n" ks] p by simp
      moreover have "distinct (map pk_id ks')" using ids unfolding again(2) by (auto simp: distinct_map inj_on_def)
      ultimately have ok: "loop_result_ok r attempts (n + 1) ks' y" using IH [OF l] by blast
      have "attempt_failed (attempts i)" if "n \<le> i" "i < fst (snd y)" for i
        using that ok again(1) by (cases "i = n") (auto simp: loop_result_ok_def)
      with ok again(2) show ?thesis by (auto simp: loop_result_ok_def)
    qed
  qed
qed

text \<open>C19: A request is answered only with the first successful upstream response: all earlier calls of the
  loop failed; the key that served is one of the endpoint's keys (or the platform token), had a
  usable row when it was picked, and is afterwards not blocked for the model. No response outside
  200 to 299 is ever passed on from here.\<close>

theorem try_key_served:
  assumes "try_key_for_rapi env r session attempts gw = Some (gw', n, Served k resp)"
    and "gateway_inv gw" and "distinct (map pk_id (ra_keys r))"
  shows "(k \<in> set (ra_keys r) \<or> ra_keys r = [] \<and> k = synthetic_key r) \<and>
    key_row_usable k (at_pick (attempts n)) \<and> at_outcome (attempts n) = Upstream resp \<and>
    200 \<le> rs_status resp \<and> rs_status resp < 300 \<and> (\<forall>i < n. attempt_failed (attempts i)) \<and>
    (0 < pk_id k \<longrightarrow> (\<forall>t. block_view (gw_blocks gw') (pk_id k) (ra_id r) t = None))"
proof -
  let ?ks = "if ra_keys r = [] then [synthetic_key r] else ra_keys r"
  have "distinct (map pk_id ?ks)" using assms(3) by simp
  with try_loop_result [OF assms(1) [unfolded try_key_for_rapi_def Let_def]] assms(2)
  have "loop_result_ok r attempts 0 ?ks (gw', n, Served k resp)" by blast
  then show ?thesis by (auto simp: loop_result_ok_def is_success_def split: if_splits)
qed

section \<open>An exhausted pool\<close>

lemma hard_dead_iff: "fst (keys_hard_dead ks now) \<longleftrightarrow> ks \<noteq> [] \<and> (\<forall>k \<in> set ks. \<not> key_row_usable k now)"
proof -
  have "fst (hard_dead_loop ks now reason) \<longleftrightarrow> (\<forall>k \<in> set ks. \<not> key_row_usable k now)" for reason
    by (induction ks arbitrary: reason) auto
  then show ?thesis by (simp add: keys_hard_dead_def)
qed

definition pool_dead :: "rapi \<Rightarrow> instant \<Rightarrow> gateway \<Rightarrow> bool" where
  "pool_dead r now gw \<longleftrightarrow>
     ra_keys r \<noteq> [] \<and>
     (\<forall>k \<in> set (ra_keys r). block_view (gw_blocks gw) (pk_id k) (ra_id r) now \<noteq> None \<or> \<not> key_row_usable k now)"

lemma handle_all_mark:
  obtains reason where
    "gw_sched (handle_all_keys_unavailable r now gw) =
       fst (mark_all_keys_unavailable (ra_id r) (pool_dead r now gw \<and> is_auto_discovered (ra_source r)) reason now (gw_sched gw))"
    "gw_notes (handle_all_keys_unavailable r now gw) = gw_notes gw @
       (if snd (mark_all_keys_unavailable (ra_id r) (pool_dead r now gw \<and> is_auto_discovered (ra_source r)) reason now (gw_sched gw)) \<and> gw_notify gw
        then [\<lparr>no_menu = MenuModels, no_kind = NoteFailure, no_entity = ra_id r\<rparr>] else [])"
proof -
  let ?b = "gw_blocks gw"
  define texts where "texts = snd (blocked_reasons (ra_keys r) (ra_id r) now ?b)"
  define pool where "pool = snd (filter_blocked_keys (ra_keys r) (ra_id r) now
      (fst (blocked_reasons (ra_keys r) (ra_id r) now ?b)))"
  have view: "block_view (fst (blocked_reasons (ra_keys r) (ra_id r) now ?b)) i j now = block_view ?b i j now" for i j
    unfolding blocked_reasons_def by (rule key_blocks.texts_view) simp
  have pool: "pool = filter (\<lambda>k. block_view ?b (pk_id k) (ra_id r) now = None) (ra_keys r)"
    unfolding pool_def filter_blocked_keys_def key_blocks.drop_result view ..
  have texts: "texts = [] \<longleftrightarrow> (\<forall>k \<in> set (ra_keys r). block_view ?b (pk_id k) (ra_id r) now = None)"
    unfolding texts_def blocked_reasons_def by (rule key_blocks.texts_none)
  have hard: "(texts \<noteq> [] \<and> pool = []) \<or> fst (keys_hard_dead pool now) \<longleftrightarrow> pool_dead r now gw"
    unfolding hard_dead_iff pool texts pool_dead_def by (cases "ra_keys r") (auto simp: filter_empty_conv)
  define choice where "choice = (if texts \<noteq> [] \<and> pool = []
      then (True, no_access_text @ join_with (utf8 [0xE3,0x80,0x81]) texts)
      else if fst (keys_hard_dead pool now) then (True, keys_unusable_text @ snd (keys_hard_dead pool now))
      else (False, ''all keys unavailable''))"
  have c: "fst choice = pool_dead r now gw" using hard by (auto simp: choice_def)
  define mk where "mk = mark_all_keys_unavailable (ra_id r) (fst choice \<and> is_auto_discovered (ra_source r))
      (snd choice) now (gw_sched gw)"
  have "handle_all_keys_unavailable r now gw = publish_if (snd mk) MenuModels NoteFailure (ra_id r)
      (gw\<lparr>gw_sched := fst mk, gw_blocks := fst (filter_blocked_keys (ra_keys r) (ra_id r) now
          (fst (blocked_reasons (ra_keys r) (ra_id r) now ?b)))\<rparr>)"
    unfolding handle_all_keys_unavailable_def Let_def split_beta mk_def choice_def texts_def pool_def ..
  then show thesis using that [of "snd choice"] by (simp add: mk_def c publish_if_def)
qed

text \<open>C20: A pool found dead (every key blocked for the model or unusable by its row) takes a live
  discovered endpoint out for good: the endpoint is invalidated, the fact is persisted with its
  reason and one notification is published. In every other case (a usable key, an empty pool, a
  manually entered endpoint) nothing is persisted, nothing is published and the endpoint is not
  invalidated.\<close>

theorem dead_pool_persisted:
  fixes now :: instant and r :: rapi and gw :: gateway
  assumes "gateway_inv gw" and "map_of (mg_rapis (gw_sched gw)) (ra_id r) = Some e"
    and "m_state (fst e) \<noteq> Invalidated" and "e_has_store (snd e)" and "gw_notify gw"
  defines "gw' \<equiv> handle_all_keys_unavailable r now gw"
    and "dead \<equiv> pool_dead r now gw \<and> is_auto_discovered (ra_source r)"
  shows "\<exists>e' reason. map_of (mg_rapis (gw_sched gw')) (ra_id r) = Some e' \<and>
    (m_state (fst e') = Invalidated \<longleftrightarrow> dead) \<and>
    w_calls (mg_world (gw_sched gw')) = w_calls (mg_world (gw_sched gw)) @
      (if dead then [SetRAPIUnavailable (ra_id r) False reason] else []) \<and>
    gw_notes gw' = gw_notes gw @
      (if dead then [\<lparr>no_menu = MenuModels, no_kind = NoteFailure, no_entity = ra_id r\<rparr>] else [])"
proof -
  obtain c d where e: "e = (c, d)" by fastforce
  let ?m = "gw_sched gw"
  have st: "rapi_st_of (ra_id r) now ?m = (c, d, mg_world ?m)"
    using assms(2) e by (simp add: rapi_st_of_def rapi_entity_locked_def)
  have i: "e_id d = ra_id r" "m_state c \<in> {Healthy, Cooling, PlatformFailed}"
    using manager_invD(1) [OF assms(1) [unfolded gateway_inv_def], of "ra_id r" c d] assms(2,3) e by auto
  show ?thesis
  proof (cases dead)
    case True
    then show ?thesis unfolding gw'_def using assms(4,5) i e
      by (rule_tac handle_all_mark [of r now gw])
        (auto simp: dead_def mark_all_keys_unavailable_def rapi_all_keys_unavailable_def Let_def st op_simps put_rapi_def)
  next
    case False
    then show ?thesis unfolding gw'_def using assms(4,5) i e
      by (rule_tac handle_all_mark [of r now gw])
        (auto simp: dead_def mark_all_keys_unavailable_def rapi_all_keys_unavailable_def Let_def st op_simps
          put_rapi_def rapi_soft_effect split_beta rapi_session_effect_def split: if_splits)
  qed
qed

section \<open>The platform token\<close>

text \<open>An endpoint without keys is tried with the platform's token under the identifier \<open>-1\<close>.\<close>

definition token_failed :: "gateway \<Rightarrow> bool" where
  "token_failed gw \<longleftrightarrow> gateway_inv gw \<and>
     (\<exists>c d. map_of (mg_keys (gw_sched gw)) (-1) = Some (c, d) \<and> m_state c = PlatformFailed \<and> m_wake_at c = zero_time)"

lemma synthetic_key_simps [simp]: "pk_id (synthetic_key r) = -1" "key_row_usable (synthetic_key r) t"
  by (simp_all add: synthetic_key_def zero_key_def key_row_usable_def past_expiry_def)

lemma token_failed_pass:
  assumes "token_failed gw" and "0 \<le> at_pick at"
  shows "snd (try_pass env r s at [synthetic_key r] gw) = Inr PoolUnavailable \<and>
    (ra_keys r = [] \<longrightarrow> token_failed (fst (try_pass env r s at [synthetic_key r] gw)))"
proof -
  let ?m = "gw_sched gw" and ?k = "synthetic_key r" and ?p = "at_pick at"
  have inv: "manager_inv ?m" using assms(1) by (simp add: token_failed_def gateway_inv_def)
  obtain c d where e: "map_of (mg_keys ?m) (-1) = Some (c, d)" "m_state c = PlatformFailed" "m_wake_at c = zero_time"
    using assms(1) unfolding token_failed_def by blast
  have st: "key_st_of (-1) ?p ?m = (c, d, mg_world ?m)" using e(1) by (simp add: key_st_of_def key_entity_locked_def)
  have same: "key_pickable ?p (key_sync ?k ?p (key_st_of (pk_id ?k) ?p ?m)) = ((c, d, mg_world ?m), False, zero_time)"
    using e assms(2) by (simp add: st key_sync_usable key_pickable_def Let_def key_advance_def advance_def)
  obtain cs where p: "pick_available_key [?k] s ?p ?m =
      (put_key (-1) (c, d, mg_world ?m) (?m\<lparr>mg_cursors := cs\<rparr>), Inl (ErrAllKeysUnavailable, zero_time))"
  proof -
    obtain cs rot where cr: "take_cursor (cursor_key_locked (pk_platform_id ?k) s ?m) 1 ?p (mg_cursors ?m) = (cs, rot)"
      by fastforce
    have "drop rot [?k] @ take rot [?k] = [?k]" by (cases rot) auto
    then show thesis using that [of cs] cr same
      by (simp add: pick_available_key_def sort_keys_def stable_sort_def pick_key_loop_Cons Let_def
          del: pick_key_loop.simps(2))
  qed
  have put: "map_of (mg_keys (put_key (-1) (c, d, mg_world ?m) (?m\<lparr>mg_cursors := cs\<rparr>))) (-1) = Some (c, d)"
    by (simp add: put_key_def)
  let ?g = "fst (try_pass env r s at [?k] gw)"
  have keys: "map_of (mg_keys (gw_sched (handle_all_keys_unavailable r t g))) i = map_of (mg_keys (gw_sched g)) i" for t g i
    by (rule handle_all_mark [of r t g]) (simp add: mark_all_keys_unavailable_def put_rapi_def split_beta)
  have res: "snd (try_pass env r s at [?k] gw) = Inr PoolUnavailable"
    using p by (auto simp: try_pass_def Let_def filter_blocked_keys_def split_beta)
  have "map_of (mg_keys (gw_sched ?g)) (-1) = Some (c, d)"
    using p put e(1) keys by (auto simp: try_pass_def Let_def filter_blocked_keys_def split_beta pool_exhausted_def)
  with res e try_pass_inv [of gw env r s at "[?k]"] assms(1) show ?thesis by (auto simp: token_failed_def)
qed

text \<open>C21: The platform token shares one key entity between all platforms. One 401 for the token of one
  platform puts it into a failed state without a timer, and from then on every endpoint without
  keys, of whatever platform, is refused without an upstream call, for any number of requests at
  any later times.\<close>

theorem platform_token_shared:
  assumes "gateway_inv gw" and "ra_keys r = []" and "map_of (mg_keys (gw_sched gw)) (-1) = None"
    and "block_view (gw_blocks gw) (-1) (ra_id r) (at_filter at) = None"
    and "at_outcome at = Upstream resp" and "rs_status resp = 401" and "at_others at = []"
    and "\<forall>(r', s', at') \<in> set later. ra_keys r' = [] \<and> 0 \<le> at_pick at'"
  shows "let serve = (\<lambda>(r', s', at') gw. fst (try_pass env r' s' at' [synthetic_key r'] gw))
    in \<forall>r' s' at'. 0 \<le> at_pick at' \<longrightarrow>
      snd (try_pass env r' s' at' [synthetic_key r'] (fold serve later (serve (r, s, at) gw))) = Inr PoolUnavailable"
proof -
  let ?serve = "\<lambda>(r', s', at') gw. fst (try_pass env r' s' at' [synthetic_key r'] gw)"
  let ?m = "gw_sched gw" and ?k = "synthetic_key r" and ?p = "at_pick at"
  let ?e = "new_key (-1) (mg_ecfg ?m) (mg_has_store ?m) ?p"
  have st: "key_st_of (-1) ?p ?m = (fst ?e, snd ?e, mg_world ?m)"
    using assms(3) by (simp add: key_st_of_def key_entity_locked_def Let_def)
  have pickable: "key_pickable ?p (key_sync ?k ?p (key_st_of (pk_id ?k) ?p ?m)) = ((fst ?e, snd ?e, mg_world ?m), True, zero_time)"
    by (simp add: st key_sync_usable new_key_def key_pickable_def)
  obtain cs where p: "pick_available_key [?k] s ?p ?m =
      (put_key (-1) (fst ?e, snd ?e, mg_world ?m) (?m\<lparr>mg_cursors := cs\<rparr>), Inr ?k)"
  proof -
    obtain cs rot where cr: "take_cursor (cursor_key_locked (pk_platform_id ?k) s ?m) 1 ?p (mg_cursors ?m) = (cs, rot)"
      by fastforce
    have "drop rot [?k] @ take rot [?k] = [?k]" by (cases rot) auto
    then show thesis using that [of cs] cr pickable
      by (simp add: pick_available_key_def sort_keys_def stable_sort_def pick_key_loop_Cons Let_def
          del: pick_key_loop.simps(2))
  qed
  have ks: "snd (filter_blocked_keys [?k] (ra_id r) (at_filter at) (gw_blocks gw)) = [?k]"
    unfolding filter_blocked_keys_def key_blocks.drop_result using assms(4) by simp
  have "classify_failure 401 = ScopeSystem" by (simp add: classify_failure_def)
  then have "\<exists>c d. map_of (mg_keys (gw_sched (?serve (r, s, at) gw))) (-1) = Some (c, d) \<and>
      m_state c = PlatformFailed \<and> m_wake_at c = zero_time"
    using p ks assms(5-7)
    by (simp add: try_pass_def Let_def split_beta is_success_def sched_run_def on_failed_response_def
        on_system_failure_def mark_key_platform_failure_def key_st_of_def key_entity_locked_def put_key_def
        key_platform_failure_def op_simps new_key_def)
  then have "token_failed (?serve (r, s, at) gw)"
    using try_pass_inv [OF assms(1), of env r s at "[?k]"] by (auto simp: token_failed_def)
  then have "token_failed (fold ?serve later (?serve (r, s, at) gw))"
    using assms(8)
  proof (induction later arbitrary: gw r s at rule: list.induct)
    case (Cons x xs)
    obtain r1 s1 at1 where x: "x = (r1, s1, at1)" by (cases x) auto
    have "token_failed (?serve (r1, s1, at1) (?serve (r, s, at) gw))"
      using token_failed_pass [OF Cons.prems(1), of at1 env r1 s1] Cons.prems(2) x by simp
    from Cons.IH [OF this] Cons.prems(2) x show ?case by simp
  qed simp
  from token_failed_pass [OF this] show ?thesis by (simp add: Let_def)
qed

section \<open>A sample gateway\<close>

definition sample_gateway :: gateway where
  "sample_gateway = \<lparr>gw_sched = new_manager default_config True, gw_blocks = load_key_model_blocks 0 None 1,
     gw_notify = True, gw_notes = []\<rparr>"

definition sample_key :: "int \<Rightarrow> platform_key" where
  "sample_key i = zero_key\<lparr>pk_id := i, pk_platform_id := 1, pk_key_index := i, pk_enabled := True\<rparr>"

definition sample_endpoint :: "platform_key list \<Rightarrow> rapi" where
  "sample_endpoint keys = zero_rapi\<lparr>ra_id := 7, ra_platform_id := 1, ra_source := ''auto_discover'', ra_keys := keys\<rparr>"

definition sample_env :: gw_env where
  "sample_env = \<lparr>ge_rt = \<lparr>rt_string_list = \<lambda>_. None, rt_string_map = \<lambda>_. None, rt_time_rules = \<lambda>_. None,
     rt_lower = \<lambda>s. s, rt_hhmm = \<lambda>_. [], rt_day_start = \<lambda>_. 0\<rparr>, ge_parse_time = \<lambda>_. None\<rparr>"

definition sample_attempt :: "int \<Rightarrow> attempt" where
  "sample_attempt status = \<lparr>at_filter = 100, at_pick = 100, at_others = [],
     at_outcome = Upstream \<lparr>rs_status = status, rs_header = \<lambda>_. [], rs_body = []\<rparr>, at_mark = 100\<rparr>"

lemma sample_inv: "gateway_inv sample_gateway"
  by (simp add: gateway_inv_def sample_gateway_def new_manager_inv)

lemma sample_quick: "quick_request sample_env 1 100 n (\<lambda>_. sample_attempt status)"
  by (simp add: quick_request_def fails_past_def sample_attempt_def retry_at_def sample_env_def)

lemma sample_short: "shortest_cooldown (mg_ecfg (gw_sched sample_gateway)) (bk_ttl (gw_blocks sample_gateway)) 1"
  by (simp add: shortest_cooldown_def sample_gateway_def new_manager_def default_config_def
      load_key_model_blocks_def Let_def)

theorem try_key_terminates_witness:
  "\<exists>gw' n res. try_key_for_rapi sample_env (sample_endpoint [sample_key 1, sample_key 2]) ''s''
     (\<lambda>_. sample_attempt 500) sample_gateway = Some (gw', n, res) \<and> n \<le> 2"
proof -
  have "distinct (map pk_id (ra_keys (sample_endpoint [sample_key 1, sample_key 2])))"
    by (simp add: sample_endpoint_def sample_key_def)
  from try_key_terminates [OF sample_inv this sample_short sample_quick, of "''s''" 500]
  have "\<exists>gw' n res. try_key_for_rapi sample_env (sample_endpoint [sample_key 1, sample_key 2]) ''s''
      (\<lambda>_. sample_attempt 500) sample_gateway = Some (gw', n, res) \<and>
      n \<le> max 1 (length (ra_keys (sample_endpoint [sample_key 1, sample_key 2])))" .
  moreover have "max 1 (length (ra_keys (sample_endpoint [sample_key 1, sample_key 2]))) = 2"
    by (simp add: sample_endpoint_def)
  ultimately show ?thesis by (simp only:)
qed

lemma sample_pass:
  "snd (try_pass sample_env (sample_endpoint [sample_key 1]) ''s'' (sample_attempt 200) [sample_key 1] sample_gateway) =
     Inr (Served (sample_key 1) \<lparr>rs_status = 200, rs_header = \<lambda>_. [], rs_body = []\<rparr>)"
proof -
  let ?m = "gw_sched sample_gateway"
  have ks: "snd (filter_blocked_keys [sample_key 1] i t (gw_blocks sample_gateway)) = [sample_key 1]" for i t
    unfolding filter_blocked_keys_def key_blocks.drop_result
    by (simp add: block_view_def sample_gateway_def load_key_model_blocks_def block_lookup_def)
  have "key_st_of 1 100 ?m = (fst (new_key 1 (mg_ecfg ?m) True 100), snd (new_key 1 (mg_ecfg ?m) True 100), new_world)"
    by (simp add: key_st_of_def key_entity_locked_def sample_gateway_def new_manager_def Let_def)
  moreover have "key_row_usable (sample_key 1) 100"
    by (simp add: sample_key_def zero_key_def key_row_usable_def past_expiry_def)
  moreover have "pk_id (sample_key 1) = 1" by (simp add: sample_key_def)
  ultimately have v: "fst (key_verdict 100 ?m (sample_key 1))"
    by (simp add: key_sync_usable new_key_def key_pickable_def)
  obtain rot where "snd (pick_available_key [sample_key 1] ''s'' 100 ?m) =
      (case find (\<lambda>k. fst (key_verdict 100 ?m k)) (drop rot (sort_keys [sample_key 1]) @ take rot (sort_keys [sample_key 1])) of
       Some k \<Rightarrow> Inr k
     | None \<Rightarrow> Inl (ErrAllKeysUnavailable, earliest (map (\<lambda>k. snd (key_verdict 100 ?m k))
         (drop rot (sort_keys [sample_key 1]) @ take rot (sort_keys [sample_key 1])))))"
    using pick_key_result [of "[sample_key 1]" "''s''" 100 ?m] by auto
  moreover have "drop rot [sample_key 1] @ take rot [sample_key 1] = [sample_key 1]" by (cases rot) auto
  moreover have "sort_keys [sample_key 1] = [sample_key 1]" by (simp add: sort_keys_def stable_sort_def)
  ultimately have "snd (pick_available_key [sample_key 1] ''s'' 100 ?m) = Inr (sample_key 1)" using v by simp
  with ks show ?thesis
    by (simp add: try_pass_def Let_def split_beta sample_attempt_def is_success_def)
qed

theorem try_key_served_witness:
  "\<exists>gw'. try_key_for_rapi sample_env (sample_endpoint [sample_key 1]) ''s'' (\<lambda>_. sample_attempt 200) sample_gateway =
      Some (gw', 0, Served (sample_key 1) \<lparr>rs_status = 200, rs_header = \<lambda>_. [], rs_body = []\<rparr>) \<and>
    block_view (gw_blocks gw') 1 7 500 = None"
proof -
  let ?r = "sample_endpoint [sample_key 1]" and ?a = "\<lambda>_::nat. sample_attempt 200"
  obtain gw' where "try_pass sample_env ?r ''s'' (sample_attempt 200) [sample_key 1] sample_gateway =
      (gw', Inr (Served (sample_key 1) \<lparr>rs_status = 200, rs_header = \<lambda>_. [], rs_body = []\<rparr>))"
    using sample_pass by (metis prod.collapse)
  then have l: "try_key_for_rapi sample_env ?r ''s'' ?a sample_gateway =
      Some (gw', 0, Served (sample_key 1) \<lparr>rs_status = 200, rs_header = \<lambda>_. [], rs_body = []\<rparr>)"
    by (simp add: try_key_for_rapi_def sample_endpoint_def try_loop.simps)
  have "distinct (map pk_id (ra_keys ?r))" by (simp add: sample_endpoint_def)
  from try_key_served [OF l sample_inv this] l show ?thesis
    by (intro exI [of _ gw']) (simp add: sample_key_def sample_endpoint_def)
qed

theorem dead_pool_persisted_witness:
  "\<exists>gw reason. w_calls (mg_world (gw_sched (handle_all_keys_unavailable
      (sample_endpoint [(sample_key 1)\<lparr>pk_enabled := False\<rparr>]) 100 gw))) = [SetRAPIUnavailable 7 False reason]"
proof -
  let ?r = "sample_endpoint [(sample_key 1)\<lparr>pk_enabled := False\<rparr>]"
  define gw where "gw = sample_gateway\<lparr>gw_sched := fst (mark_failure 7 0 [] False 50 (new_manager default_config True))\<rparr>"
  have inv: "gateway_inv gw"
    using manager_inv_step [OF new_manager_inv, of undefined "SFailure 7 0 [] False 50" default_config True]
    by (simp add: gateway_inv_def gw_def)
  obtain e where e: "map_of (mg_rapis (gw_sched gw)) 7 = Some e" "m_state (fst e) = Cooling" "e_has_store (snd e)"
    "w_calls (mg_world (gw_sched gw)) = []"
    by (auto simp: gw_def sample_gateway_def mark_failure_def on_rapi_def put_rapi_def rapi_st_of_def
        rapi_entity_locked_def new_manager_def Let_def rapi_session_failure_def op_simps new_rapi_def
        rapi_session_effect_def)
  have auto_src: "is_auto_discovered ''auto_discover''"
    unfolding is_auto_discovered_def by code_simp
  have dead: "pool_dead ?r 100 gw" "is_auto_discovered (ra_source ?r)"
    using auto_src by (simp_all add: pool_dead_def sample_endpoint_def sample_key_def key_row_usable_def)
  have "map_of (mg_rapis (gw_sched gw)) (ra_id ?r) = Some e" "m_state (fst e) \<noteq> Invalidated" "e_has_store (snd e)" "gw_notify gw"
    using e by (simp_all add: sample_endpoint_def gw_def sample_gateway_def)
  from dead_pool_persisted [OF inv this, of 100] dead e(4) show ?thesis
    by (intro exI [of _ gw]) (auto simp: sample_endpoint_def)
qed

theorem platform_token_shared_witness:
  "\<exists>gw. \<forall>r'. snd (try_pass sample_env r' ''x'' (sample_attempt 200) [synthetic_key r'] gw) = Inr PoolUnavailable"
proof -
  let ?r = "sample_endpoint []"
  have h: "ra_keys ?r = []" "map_of (mg_keys (gw_sched sample_gateway)) (-1) = None"
    "block_view (gw_blocks sample_gateway) (-1) (ra_id ?r) (at_filter (sample_attempt 401)) = None"
    "at_outcome (sample_attempt 401) = Upstream \<lparr>rs_status = 401, rs_header = \<lambda>_. [], rs_body = []\<rparr>"
    "rs_status \<lparr>rs_status = 401, rs_header = \<lambda>_. [], rs_body = []\<rparr> = 401" "at_others (sample_attempt 401) = []"
    "\<forall>(r', s', at') \<in> set ([] :: (rapi \<times> string \<times> attempt) list). ra_keys r' = [] \<and> 0 \<le> at_pick at'"
    by (simp_all add: sample_endpoint_def sample_gateway_def sample_attempt_def new_manager_def
        block_view_def load_key_model_blocks_def block_lookup_def Let_def)
  from platform_token_shared [OF sample_inv h, of sample_env "''s''"]
  have "\<forall>r' s' at'. 0 \<le> at_pick at' \<longrightarrow> snd (try_pass sample_env r' s' at' [synthetic_key r']
      (fst (try_pass sample_env ?r ''s'' (sample_attempt 401) [synthetic_key ?r] sample_gateway))) = Inr PoolUnavailable"
    by (simp add: Let_def)
  moreover have "0 \<le> at_pick (sample_attempt 200)" by (simp add: sample_attempt_def)
  ultimately show ?thesis by blast
qed

end
