(* ===== verification/ConvRequestProps.thy ===== *)
theory ConvRequestProps
  imports ConvRequest
begin

text \<open>
  What the conversion of requests keeps and what it loses: the round trip of an Anthropic request
  through OpenAI, the parts of a message that are dropped, and the one body that makes the
  conversion panic.
\<close>

section \<open>Reading the results\<close>

lemma lookup_copy [simp]:
  "fmlookup (copy_as src k k' dst) j =
     (if j = k' then (case fmlookup src k of Some v \<Rightarrow> Some v | None \<Rightarrow> fmlookup dst j) else fmlookup dst j)"
  "fmlookup (copy_if_present src k dst) j =
     (if j = k then (case fmlookup src k of Some v \<Rightarrow> Some v | None \<Rightarrow> fmlookup dst j) else fmlookup dst j)"
  by (simp_all add: copy_as_def copy_if_present_def split: option.split)

lemma lookup_choice:
  "fmlookup (case x of None \<Rightarrow> a | Some t \<Rightarrow> jput k (f t) a) j =
     (if j = k then (case x of None \<Rightarrow> fmlookup a j | Some t \<Rightarrow> Some (f t)) else fmlookup a j)"
  "fmlookup (if b then a else a') j = (if b then fmlookup a j else fmlookup a' j)"
  by (simp_all split: option.split)

lemma jget_lookup: "fmlookup m k = Some v \<Longrightarrow> jget m k = v" "fmlookup m k = None \<Longrightarrow> jget m k = JNull"
  by (simp_all add: jget_def)

text \<open>The parameter gives back the value it printed, as \<open>encoding/json\<close> does for text in UTF-8.\<close>

definition reads_back :: "json_codec \<Rightarrow> json \<Rightarrow> bool" where
  "reads_back codec v \<longleftrightarrow> jc_unmarshal codec (jc_marshal codec v) = Inr v"

section \<open>Messages that survive\<close>

text \<open>The messages of an Anthropic conversation the OpenAI format can express: a text, a text with tool
  calls, a text followed by images, and one tool result.\<close>

datatype image_source = Base64Image string string | UrlImage string

datatype chat_message =
    TextMessage string string
  | ToolUseMessage string string "(string \<times> string \<times> json) list"
  | ImageMessage string string "image_source list"
  | ToolResultMessage string string

definition text_blocks :: "string \<Rightarrow> json list" where
  "text_blocks t = (if t = [] then [] else [text_block t])"

definition tool_use_json :: "string \<times> string \<times> json \<Rightarrow> json" where
  "tool_use_json c =
     (case c of (i, name, input) \<Rightarrow>
        obj [(''type'', JStr ''tool_use''), (''id'', JStr i), (''name'', JStr name), (''input'', input)])"

fun image_json :: "image_source \<Rightarrow> json" where
  "image_json (Base64Image media data) =
     obj [(''type'', JStr ''image''),
          (''source'', obj [(''type'', JStr ''base64''), (''media_type'', JStr media), (''data'', JStr data)])]"
| "image_json (UrlImage u) =
     obj [(''type'', JStr ''image''), (''source'', obj [(''type'', JStr ''url''), (''url'', JStr u)])]"

definition role_content :: "string \<Rightarrow> json list \<Rightarrow> json_map" where
  "role_content role blocks = jmap [(''role'', JStr role), (''content'', JArr blocks)]"

fun anthropic_form :: "chat_message \<Rightarrow> json_map" where
  "anthropic_form (TextMessage role t) = role_content role [text_block t]"
| "anthropic_form (ToolUseMessage role t calls) = role_content role (text_blocks t @ map tool_use_json calls)"
| "anthropic_form (ImageMessage role t images) = role_content role (text_blocks t @ map image_json images)"
| "anthropic_form (ToolResultMessage i t) =
     role_content ''user''
       [obj [(''type'', JStr ''tool_result''), (''tool_use_id'', JStr i), (''content'', JStr t)]]"

fun image_expressible :: "image_source \<Rightarrow> bool" where
  "image_expressible (Base64Image media data) \<longleftrightarrow>
     media \<noteq> [] \<and> str_index (media @ '';base64,'' @ data) '';base64,'' = Some (length media)"
| "image_expressible (UrlImage u) \<longleftrightarrow> u \<noteq> [] \<and> \<not> has_prefix u ''data:''"

fun expressible :: "json_codec \<Rightarrow> chat_message \<Rightarrow> bool" where
  "expressible codec (TextMessage role t) \<longleftrightarrow> role \<noteq> ''system'' \<and> role \<noteq> ''tool''"
| "expressible codec (ToolUseMessage role t calls) \<longleftrightarrow>
     role \<noteq> ''system'' \<and> role \<noteq> ''tool'' \<and> calls \<noteq> [] \<and>
     (\<forall>(i, name, input) \<in> set calls. as_str input = None \<and> reads_back codec input)"
| "expressible codec (ImageMessage role t images) \<longleftrightarrow>
     role \<noteq> ''system'' \<and> role \<noteq> ''tool'' \<and> images \<noteq> [] \<and> (\<forall>i \<in> set images. image_expressible i)"
| "expressible codec (ToolResultMessage i t) \<longleftrightarrow> True"

lemma blocks_of_type_simps [simp]:
  "blocks_of_type ty [] = []"
  "blocks_of_type ty (JObj b # bs) =
     (if jget b ''type'' = JStr ty then b # blocks_of_type ty bs else blocks_of_type ty bs)"
  "blocks_of_type ty (bs @ bs') = blocks_of_type ty bs @ blocks_of_type ty bs'"
  by (simp_all add: blocks_of_type_def)

lemma tool_use_blocks:
  "blocks_of_type ty (map tool_use_json calls) =
     (if ty = ''tool_use'' then map (\<lambda>c. obj_of (tool_use_json c)) calls else [])"
  by (induction calls) (auto simp: tool_use_json_def)

lemma image_obj: "\<exists>b. image_json i = JObj b \<and> jget b ''type'' = JStr ''image''"
  by (cases i) simp_all

lemma image_blocks:
  "blocks_of_type ty (map image_json images) =
     (if ty = ''image'' then map (\<lambda>i. obj_of (image_json i)) images else [])"
proof (induction images)
  case (Cons i rest)
  from image_obj [of i] obtain b where "image_json i = JObj b" "jget b ''type'' = JStr ''image''" by blast
  with Cons show ?case by auto
qed simp

lemma text_block_parts [simp]:
  "blocks_of_type ty (text_blocks t) =
     (if ty = ''text'' \<and> t \<noteq> [] then [jmap [(''type'', JStr ''text''), (''text'', JStr t)]] else [])"
  "blocks_of_type ty [text_block t] =
     (if ty = ''text'' then [jmap [(''type'', JStr ''text''), (''text'', JStr t)]] else [])"
  by (simp_all add: text_blocks_def text_block_def)

text \<open>An image through the data URL and back.\<close>

lemma has_prefix_data [simp]: "has_prefix (''data:'' @ s) ''data:''" "trim_prefix (''data:'' @ s) ''data:'' = s"
  by (simp_all add: has_prefix_def trim_prefix_def)

definition openai_image :: "image_source \<Rightarrow> json_map" where
  "openai_image i =
     jmap [(''type'', JStr ''image_url''),
           (''image_url'', obj [(''url'', JStr (case i of
              Base64Image media data \<Rightarrow> ''data:'' @ media @ '';base64,'' @ data | UrlImage u \<Rightarrow> u))])]"

lemma image_to_openai:
  "image_expressible i \<Longrightarrow> convert_anthropic_image_to_openai (obj_of (image_json i)) = Some (openai_image i)"
  by (cases i) (simp_all add: convert_anthropic_image_to_openai_def openai_image_def Let_def)

lemma image_from_openai:
  assumes "image_expressible i"
  shows "openai_part_to_anthropic (openai_image i) = [image_json i]"
proof (cases i)
  case (Base64Image media data)
  then have i: "str_index (media @ '';base64,'' @ data) '';base64,'' = Some (length media)" using assms by simp
  have p: "has_prefix (''data:'' @ s) ''data:''" "trim_prefix (''data:'' @ s) ''data:'' = s" for s
    by (rule has_prefix_data)+
  from i show ?thesis
    unfolding Base64Image openai_part_to_anthropic_def openai_image_def parse_data_url_def
    by (simp del: append_Cons add: p Let_def)
next
  case (UrlImage u)
  with assms show ?thesis by (simp add: openai_part_to_anthropic_def openai_image_def Let_def)
qed

section \<open>One message\<close>

definition openai_form :: "json_codec \<Rightarrow> chat_message \<Rightarrow> json_map" where
  "openai_form codec m =
     (case m of
        TextMessage role t \<Rightarrow> jmap [(''role'', JStr role), (''content'', JStr t)]
      | ToolUseMessage role t calls \<Rightarrow>
          jmap [(''tool_calls'', JArr (map (\<lambda>c. tool_use_call codec (obj_of (tool_use_json c))) calls)),
                (''role'', JStr role), (''content'', if t = [] then JNull else JStr t)]
      | ImageMessage role t images \<Rightarrow>
          jmap [(''role'', JStr role),
                (''content'', JArr (text_blocks t @ map (\<lambda>i. JObj (openai_image i)) images))]
      | ToolResultMessage i t \<Rightarrow>
          jmap [(''role'', JStr ''tool''), (''tool_call_id'', JStr i), (''content'', JStr t)])"

lemma images_to_openai:
  "\<forall>i \<in> set images. image_expressible i \<Longrightarrow>
     image_parts (text_blocks t @ map image_json images) = map (\<lambda>i. JObj (openai_image i)) images"
  unfolding image_parts_def
  by (simp add: image_blocks) (induction images, simp_all add: image_to_openai List.map_filter_def)

lemma texts_of_text_blocks:
  "text_parts (text_blocks t @ bs) = (if t = [] then [] else [t]) @ text_parts bs"
  "blocks_of_type ''text'' bs = [] \<Longrightarrow> text_parts bs = []"
  by (simp_all add: text_parts_def List.map_filter_def)

lemma role_content_simps:
  "get_string (role_content role blocks) ''role'' = role"
  "jget (role_content role blocks) ''content'' = JArr blocks"
  by (simp_all add: role_content_def)

lemma message_to_openai:
  "expressible codec m \<Longrightarrow> anthropic_message codec (anthropic_form m) = [JObj (openai_form codec m)]"
proof (induction m)
  case (ToolUseMessage role t calls)
  let ?bs = "text_blocks t @ map tool_use_json calls"
  have "image_parts ?bs = []"
    by (simp add: image_parts_def tool_use_blocks List.map_filter_def)
  moreover have "text_parts (map tool_use_json calls) = []"
    by (rule texts_of_text_blocks(2)) (simp add: tool_use_blocks)
  then have "text_parts ?bs = (if t = [] then [] else [t])" by (simp add: texts_of_text_blocks)
  moreover have "blocks_of_type ''tool_use'' ?bs = map (\<lambda>c. obj_of (tool_use_json c)) calls"
    "blocks_of_type ''tool_result'' ?bs = []"
    by (simp_all add: tool_use_blocks)
  moreover have "calls \<noteq> []" using ToolUseMessage by simp
  ultimately have e: "anthropic_message codec (anthropic_form (ToolUseMessage role t calls)) =
      [JObj (if t = [] then jput ''content'' JNull (jput ''tool_calls'' (JArr (map (tool_use_call codec) (map (\<lambda>c. obj_of (tool_use_json c)) calls)))
         (jmap [(''role'', JStr role), (''content'', JStr [])]))
       else jput ''tool_calls'' (JArr (map (tool_use_call codec) (map (\<lambda>c. obj_of (tool_use_json c)) calls)))
         (jmap [(''role'', JStr role), (''content'', JStr t)]))]"
    unfolding anthropic_message_def Let_def anthropic_form.simps role_content_simps json.case
    by (cases "t = []")
      (simp_all only: if_False if_True simp_thms map_is_Nil_conv json.inject concat.simps append_Nil2)
  show ?case unfolding e openai_form_def chat_message.case
    by (auto intro!: fmap_ext)
next
  case (ImageMessage role t images)
  let ?bs = "text_blocks t @ map image_json images"
  have "text_parts (map image_json images) = []"
    by (rule texts_of_text_blocks(2)) (simp add: image_blocks)
  then have "text_parts ?bs = (if t = [] then [] else [t])" by (simp add: texts_of_text_blocks)
  moreover have "image_parts ?bs = map (\<lambda>i. JObj (openai_image i)) images"
    using ImageMessage by (simp add: images_to_openai)
  moreover have "blocks_of_type ''tool_use'' ?bs = []" "blocks_of_type ''tool_result'' ?bs = []"
    by (simp_all add: image_blocks)
  moreover have "images \<noteq> []" using ImageMessage by simp
  ultimately show ?case
    unfolding anthropic_message_def Let_def anthropic_form.simps role_content_simps json.case openai_form_def
      chat_message.case text_blocks_def text_block_def
    by (cases "t = []")
      (simp_all only: if_False if_True simp_thms map_is_Nil_conv concat.simps append_Nil append_Nil2 list.map
        if_cancel list.distinct)
next
  case (TextMessage role t)
  have "text_parts [text_block t] = [t]" "image_parts [text_block t] = []"
    by (simp_all add: text_parts_def image_parts_def List.map_filter_def)
  then show ?case by (simp add: anthropic_message_def role_content_def openai_form_def)
next
  case (ToolResultMessage i t)
  show ?case by (simp add: anthropic_message_def role_content_def openai_form_def tool_result_message_def Let_def)
qed

lemma tool_use_again:
  "as_str input = None \<Longrightarrow> reads_back codec input \<Longrightarrow>
     tool_use_block codec (obj_of (tool_use_call codec (obj_of (tool_use_json (i, name, input))))) =
       tool_use_json (i, name, input)"
  by (simp add: tool_use_call_def tool_use_json_def tool_use_block_def parse_arguments_def
      to_json_string_def reads_back_def Let_def)

lemma tool_use_call_obj: "as_obj (tool_use_call codec b) = Some (obj_of (tool_use_call codec b))"
  by (simp add: tool_use_call_def)

lemma tool_uses_again:
  "\<forall>(i, name, input) \<in> set calls. as_str input = None \<and> reads_back codec input \<Longrightarrow>
     map (tool_use_block codec) (objects (map (\<lambda>c. tool_use_call codec (obj_of (tool_use_json c))) calls)) =
       map tool_use_json calls"
  by (induction calls) (auto simp: tool_use_again tool_use_call_obj)

lemma images_again:
  "\<forall>i \<in> set images. image_expressible i \<Longrightarrow>
     concat (map openai_part_to_anthropic (objects (map (\<lambda>i. JObj (openai_image i)) images))) = map image_json images"
  by (induction images) (auto simp: image_from_openai)

lemma message_from_openai:
  "expressible codec m \<Longrightarrow>
     openai_message_to_anthropic codec (openai_form codec m) = JObj (anthropic_form m) \<and>
     get_string (openai_form codec m) ''role'' \<noteq> ''system''"
proof (induction m)
  case (ToolUseMessage role t calls)
  then have "map (tool_use_block codec)
      (objects (map (\<lambda>c. tool_use_call codec (obj_of (tool_use_json c))) calls)) = map tool_use_json calls"
    by (intro tool_uses_again) auto
  then show ?case using ToolUseMessage
    by (auto simp: openai_form_def openai_message_to_anthropic_def anthropic_content_def role_content_def
        text_blocks_def text_block_def Let_def)
next
  case (ImageMessage role t images)
  then have "concat (map openai_part_to_anthropic (objects (map (\<lambda>i. JObj (openai_image i)) images))) =
      map image_json images"
    by (intro images_again) auto
  then show ?case using ImageMessage
    by (auto simp: openai_form_def openai_message_to_anthropic_def anthropic_content_def role_content_def
        convert_openai_content_array_to_anthropic_def text_blocks_def text_block_def
        openai_part_to_anthropic_def Let_def)
qed (simp_all add: openai_form_def openai_message_to_anthropic_def anthropic_content_def role_content_def
    text_block_def Let_def)

section \<open>A whole request\<close>

lemma fold_anthropic_step:
  "\<forall>m \<in> set ms. get_string m ''role'' \<noteq> ''system'' \<Longrightarrow>
     fold (anthropic_step codec) ms (dst, acc) = (dst, acc @ map (openai_message_to_anthropic codec) ms)"
  by (induction ms arbitrary: acc) (simp_all add: anthropic_step_def)

lemma messages_to_openai:
  "\<forall>m \<in> set ms. expressible codec m \<Longrightarrow>
     concat (map (anthropic_message codec) (map anthropic_form ms)) = map (\<lambda>m. JObj (openai_form codec m)) ms"
  by (induction ms) (simp_all add: message_to_openai)

lemma objects_map [simp]: "objects (map (\<lambda>x. JObj (f x)) xs) = map f xs"
  by (induction xs) simp_all

text \<open>The tools and the choices of a tool the two formats share.\<close>

definition tool_json :: "string \<times> string \<times> json \<Rightarrow> json" where
  "tool_json t =
     (case t of (name, description, schema) \<Rightarrow>
        obj [(''name'', JStr name), (''description'', JStr description), (''input_schema'', schema)])"

datatype tool_choice = ChooseAuto | ChooseAny | ChooseNone | ChooseTool string

fun choice_json :: "tool_choice \<Rightarrow> json" where
  "choice_json ChooseAuto = obj [(''type'', JStr ''auto'')]"
| "choice_json ChooseAny = obj [(''type'', JStr ''any'')]"
| "choice_json ChooseNone = obj [(''type'', JStr ''none'')]"
| "choice_json (ChooseTool name) = obj [(''type'', JStr ''tool''), (''name'', JStr name)]"

lemma tools_again:
  "map openai_tool_to_anthropic (objects (map anthropic_tool (objects (map tool_json ts)))) = map tool_json ts"
  by (induction ts) (auto simp: tool_json_def anthropic_tool_def openai_tool_to_anthropic_def Let_def)

lemma tools_nonempty: "objects (map tool_json ts) = [] \<longleftrightarrow> ts = []"
  by (cases ts) (auto simp: tool_json_def)

lemma choice_obj [simp]: "as_obj (choice_json c) = Some (obj_of (choice_json c))"
  by (cases c) simp_all

lemma choice_again:
  "JObj (convert_openai_tool_choice_to_anthropic (convert_anthropic_tool_choice_to_openai (obj_of (choice_json c)))) =
     choice_json c"
  by (cases c)
    (simp_all add: convert_anthropic_tool_choice_to_openai_def convert_openai_tool_choice_to_anthropic_def Let_def)

definition anthropic_keys :: "string list" where
  "anthropic_keys = [''model'', ''system'', ''messages'', ''max_tokens'', ''stream'', ''temperature'', ''top_p'',
     ''stop_sequences'', ''tools'', ''tool_choice'']"

text \<open>A request within the part both formats can express.\<close>

definition expressible_request :: "json_codec \<Rightarrow> chat_message list \<Rightarrow> json_map \<Rightarrow> bool" where
  "expressible_request codec ms src \<longleftrightarrow>
     fset (fmdom src) \<subseteq> set anthropic_keys \<and>
     fmlookup src ''messages'' = Some (JArr (map (\<lambda>m. JObj (anthropic_form m)) ms)) \<and>
     ms \<noteq> [] \<and> (\<forall>m \<in> set ms. expressible codec m) \<and>
     fmlookup src ''max_tokens'' \<noteq> None \<and>
     (fmlookup src ''system'' = None \<or> (\<exists>s. s \<noteq> [] \<and> fmlookup src ''system'' = Some (JStr s))) \<and>
     (fmlookup src ''tools'' = None \<or>
      (\<exists>ts. ts \<noteq> [] \<and> fmlookup src ''tools'' = Some (JArr (map tool_json ts)))) \<and>
     (fmlookup src ''tool_choice'' = None \<or> (\<exists>c. fmlookup src ''tool_choice'' = Some (choice_json c)))"

text \<open>What the OpenAI request holds at each key.\<close>

lemma openai_lookup:
  assumes e: "expressible_request codec ms src"
  defines "dst \<equiv> anthropic_to_openai_map codec src"
  shows "jget dst ''messages'' =
      JArr ((case fmlookup src ''system'' of
               Some (JStr s) \<Rightarrow> [obj [(''role'', JStr ''system''), (''content'', JStr s)]] | _ \<Rightarrow> [])
            @ map (\<lambda>m. JObj (openai_form codec m)) ms)"
    and "fmlookup dst ''max_tokens'' = fmlookup src ''max_tokens''"
    and "fmlookup dst ''stream'' = fmlookup src ''stream''"
    and "fmlookup dst ''temperature'' = fmlookup src ''temperature''"
    and "fmlookup dst ''top_p'' = fmlookup src ''top_p''"
    and "fmlookup dst ''stop'' = fmlookup src ''stop_sequences''"
    and "jget dst ''tools'' = (case fmlookup src ''tools'' of
      Some (JArr ts) \<Rightarrow> JArr (map anthropic_tool (objects ts)) | _ \<Rightarrow> JNull)"
    and "fmlookup dst ''tool_choice'' = map_option (\<lambda>c. convert_anthropic_tool_choice_to_openai (obj_of c))
      (fmlookup src ''tool_choice'')"
proof -
  have m: "concat (map (anthropic_message codec) (objects (arr_of (jget src ''messages'')))) =
      map (\<lambda>m. JObj (openai_form codec m)) ms"
    using e messages_to_openai [of ms codec]
    by (simp add: expressible_request_def jget_lookup)
  note d = dst_def anthropic_to_openai_map_def Let_def m
  have s: "system_text (jget src ''system'') = (case fmlookup src ''system'' of Some (JStr s) \<Rightarrow> s | _ \<Rightarrow> [])"
    using e by (auto simp: expressible_request_def jget_lookup system_text_def)
  have t: "map anthropic_tool (objects (arr_of (jget src ''tools''))) =
      (case fmlookup src ''tools'' of Some (JArr ts) \<Rightarrow> map anthropic_tool (objects ts) | _ \<Rightarrow> [])"
    using e by (auto simp: expressible_request_def jget_lookup)
  have c: "as_obj (jget src ''tool_choice'') = map_option obj_of (fmlookup src ''tool_choice'')"
    using e by (auto simp: expressible_request_def jget_lookup split: option.split)
  have "fmlookup dst ''messages'' = Some (JArr ((case fmlookup src ''system'' of
               Some (JStr s) \<Rightarrow> [obj [(''role'', JStr ''system''), (''content'', JStr s)]] | _ \<Rightarrow> [])
            @ map (\<lambda>m. JObj (openai_form codec m)) ms))"
    unfolding d s using e by (auto simp: lookup_choice expressible_request_def)
  then show "jget dst ''messages'' =
      JArr ((case fmlookup src ''system'' of
               Some (JStr s) \<Rightarrow> [obj [(''role'', JStr ''system''), (''content'', JStr s)]] | _ \<Rightarrow> [])
            @ map (\<lambda>m. JObj (openai_form codec m)) ms)"
    by (rule jget_lookup)
  show "fmlookup dst ''max_tokens'' = fmlookup src ''max_tokens''"
    "fmlookup dst ''stream'' = fmlookup src ''stream''"
    "fmlookup dst ''temperature'' = fmlookup src ''temperature''"
    "fmlookup dst ''top_p'' = fmlookup src ''top_p''"
    "fmlookup dst ''stop'' = fmlookup src ''stop_sequences''"
    unfolding d by (simp_all add: lookup_choice split: option.split)
  show "jget dst ''tools'' = (case fmlookup src ''tools'' of
      Some (JArr ts) \<Rightarrow> JArr (map anthropic_tool (objects ts)) | _ \<Rightarrow> JNull)"
    using e unfolding d t jget_def
    by (auto simp: lookup_choice expressible_request_def tools_nonempty)
  show "fmlookup dst ''tool_choice'' = map_option (\<lambda>c. convert_anthropic_tool_choice_to_openai (obj_of c))
      (fmlookup src ''tool_choice'')"
    unfolding d c by (simp add: lookup_choice split: option.split)
qed

definition system_entry :: "json option \<Rightarrow> json_map \<Rightarrow> json_map" where
  "system_entry s dst = (case s of None \<Rightarrow> dst | Some v \<Rightarrow> jput ''system'' v dst)"

lemma lookup_system_entry:
  "fmlookup (system_entry s dst) k =
     (if k = ''system'' then (case s of None \<Rightarrow> fmlookup dst k | Some v \<Rightarrow> Some v) else fmlookup dst k)"
  by (simp add: system_entry_def split: option.split)

lemma fold_request_messages:
  assumes "expressible_request codec ms src"
  shows "fold (anthropic_step codec) (objects (arr_of (jget (anthropic_to_openai_map codec src) ''messages''))) (dst, []) =
    (system_entry (fmlookup src ''system'') dst, map (\<lambda>m. JObj (anthropic_form m)) ms)"
proof -
  have "\<forall>m \<in> set (map (openai_form codec) ms). get_string m ''role'' \<noteq> ''system''"
    using assms message_from_openai by (auto simp: expressible_request_def)
  note f = fold_anthropic_step [OF this]
  have b: "\<forall>m \<in> set ms. openai_message_to_anthropic codec (openai_form codec m) = JObj (anthropic_form m)"
    using assms message_from_openai by (auto simp: expressible_request_def)
  from assms consider "fmlookup src ''system'' = None" | s where "fmlookup src ''system'' = Some (JStr s)"
    by (auto simp: expressible_request_def)
  then show ?thesis
  proof cases
    case 1
    then show ?thesis unfolding openai_lookup(1) [OF assms] by (simp add: f b system_entry_def)
  next
    case 2
    then show ?thesis unfolding openai_lookup(1) [OF assms]
      by (simp add: f b system_entry_def anthropic_step_def [of codec "fmupd _ _ _"])
  qed
qed

lemma round_trip_lookup:
  assumes "expressible_request codec ms src"
  shows "fmlookup (openai_to_anthropic_map codec model (anthropic_to_openai_map codec src)) k =
    fmlookup (jput ''model'' (JStr model) src) k"
proof -
  note r = openai_lookup [OF assms]
  note defs = openai_to_anthropic_map_def Let_def fold_request_messages [OF assms] split_conv r(2-6,8)
  have m: "ms \<noteq> []" "fmlookup src ''max_tokens'' \<noteq> None"
    "fmlookup src ''messages'' = Some (JArr (map (\<lambda>m. JObj (anthropic_form m)) ms))"
    using assms by (auto simp: expressible_request_def)
  have tools: "map openai_tool_to_anthropic (objects (arr_of (jget (anthropic_to_openai_map codec src) ''tools''))) =
      (case fmlookup src ''tools'' of Some (JArr ts) \<Rightarrow> ts | _ \<Rightarrow> [])"
    using assms unfolding r(7) by (auto simp: expressible_request_def tools_again)
  have t: "fmlookup src ''tools'' = None \<or> (\<exists>ts. ts \<noteq> [] \<and> fmlookup src ''tools'' = Some (JArr ts))"
    using assms by (auto simp: expressible_request_def)
  have c: "fmlookup src ''tool_choice'' = None \<or> (\<exists>c. fmlookup src ''tool_choice'' = Some (choice_json c))"
    using assms by (auto simp: expressible_request_def)
  have other: "k \<notin> set anthropic_keys \<Longrightarrow> fmlookup src k = None"
    using assms by (auto simp: expressible_request_def fmlookup_dom_iff)
  from m(2) obtain y where y: "fmlookup src ''max_tokens'' = Some y" by blast
  let ?l = "fmlookup (openai_to_anthropic_map codec model (anthropic_to_openai_map codec src)) k"
  note look = lookup_choice lookup_system_entry y option.case nil_slice_def
  have plain: "?l = fmlookup (jput ''model'' (JStr model) src) k"
    if "k \<in> {''model'', ''system'', ''messages'', ''max_tokens'', ''stream'', ''temperature'', ''top_p'', ''stop_sequences''}"
    using that unfolding defs tools by (elim insertE emptyE) (simp_all add: look m r(3-6) split: option.split)
  have at_tools: "?l = fmlookup src k" if "k = ''tools''"
    using t unfolding defs tools that by (auto simp: look split: option.split)
  have at_choice: "?l = fmlookup src k" if k: "k = ''tool_choice''"
  proof (cases "fmlookup src ''tool_choice''")
    case None
    show ?thesis unfolding defs tools k None by (simp add: look)
  next
    case (Some v)
    with c obtain ch where v: "v = choice_json ch" by auto
    show ?thesis unfolding defs tools k Some v by (simp add: look(1) choice_again)
  qed
  have elsewhere: "?l = fmlookup (jput ''model'' (JStr model) src) k" if "k \<notin> set anthropic_keys"
  proof -
    have "k \<noteq> ''tools''" "k \<noteq> ''tool_choice''" "k \<noteq> ''stop_sequences''" "k \<noteq> ''stream''" "k \<noteq> ''temperature''"
      "k \<noteq> ''top_p''" "k \<noteq> ''max_tokens''" "k \<noteq> ''messages''" "k \<noteq> ''system''" "k \<noteq> ''model''"
      using that by (auto simp: anthropic_keys_def)
    with other [OF that] show ?thesis unfolding defs tools by (simp add: look split: option.split)
  qed
  have keys: "set anthropic_keys = {''model'', ''system'', ''messages'', ''max_tokens'', ''stream'',
      ''temperature'', ''top_p'', ''stop_sequences''} \<union> {''tools'', ''tool_choice''}"
    unfolding anthropic_keys_def by (simp only: list.set Un_insert_left Un_empty_left)
  show "?l = fmlookup (jput ''model'' (JStr model) src) k"
  proof (cases "k \<in> set anthropic_keys")
    case True
    then have "k \<in> {''model'', ''system'', ''messages'', ''max_tokens'', ''stream'', ''temperature'', ''top_p'',
        ''stop_sequences''} \<or> k = ''tools'' \<or> k = ''tool_choice''"
      by (simp only: keys Un_iff insert_iff empty_iff simp_thms disj_assoc)
    then show ?thesis
    proof (elim disjE)
      assume "k = ''tools''"
      from at_tools [OF this] show ?thesis by (simp add: \<open>k = ''tools''\<close>)
    next
      assume "k = ''tool_choice''"
      from at_choice [OF this] show ?thesis by (simp add: \<open>k = ''tool_choice''\<close>)
    qed (rule plain)
  next
    case False then show ?thesis by (rule elsewhere)
  qed
qed


text \<open>C23: An Anthropic request the OpenAI format can express survives the conversion to OpenAI and back: every
  field comes back as it was, apart from the model, which becomes the one asked for. Such a request has no fields but
  those in \<open>anthropic_keys\<close>, a \<open>max_tokens\<close>, and at least one message. The content of a message is an array of
  blocks: one text; an optional text and then tool calls, whose inputs are not strings and are read back as they were
  printed; an optional text and then images, of a URL that is no data URL or of base64 data whose media type does not
  hide the separator; or exactly one tool result whose content is a string. The system prompt is a non-empty string,
  the tools are a non-empty array of name, description and schema, and the tool choice is one of the four kinds.\<close>

theorem anthropic_request_round_trip:
  assumes "expressible_request codec ms src"
  shows "openai_to_anthropic_map codec model (anthropic_to_openai_map codec src) = jput ''model'' (JStr model) src"
  by (rule fmap_ext) (rule round_trip_lookup [OF assms])

definition plain_codec :: json_codec where
  "plain_codec = \<lparr>jc_unmarshal = (\<lambda>s. if s = ''{}'' then Inr (JObj fmempty) else Inl ''syntax error''),
     jc_marshal = (\<lambda>v. if v = JObj fmempty then ''{}'' else ''[]'')\<rparr>"

theorem anthropic_request_round_trip_witness:
  "\<exists>src. openai_to_anthropic_map plain_codec ''big'' (anthropic_to_openai_map plain_codec src) =
     jput ''model'' (JStr ''big'') src \<and> jget src ''system'' = JStr ''be brief''"
proof -
  define ms where "ms = [TextMessage ''user'' ''hi'', ToolUseMessage ''assistant'' [] [(''c1'', ''ls'', JObj fmempty)],
    ToolResultMessage ''c1'' ''ok'']"
  define src where "src = jmap [(''model'', JStr ''m''), (''system'', JStr ''be brief''), (''max_tokens'', JNum 9),
    (''messages'', JArr (map (\<lambda>m. JObj (anthropic_form m)) ms))]"
  have "expressible_request plain_codec ms src"
    by (auto simp: expressible_request_def src_def ms_def anthropic_keys_def reads_back_def plain_codec_def)
  from anthropic_request_round_trip [OF this] show ?thesis by (intro exI [of _ src]) (simp add: src_def)
qed

section \<open>What is lost\<close>

lemma copy_fmupd [simp]:
  "j \<noteq> k \<Longrightarrow> copy_as (fmupd j v src) k k' dst = copy_as src k k' dst"
  "j \<noteq> k \<Longrightarrow> copy_if_present (fmupd j v src) k dst = copy_if_present src k dst"
  by (simp_all add: copy_as_def copy_if_present_def)

text \<open>Text that a user sends in the same message as a tool result is lost: two Anthropic requests that
  differ only in that text become the same OpenAI request, whatever surrounds the message.\<close>

lemma text_beside_tool_result_lost:
  assumes "blocks_of_type ''tool_result'' results \<noteq> []"
  shows "let req = (\<lambda>t. jput ''messages''
      (JArr (before @ [JObj (role_content role (results @ [text_block t]))] @ after)) src)
    in anthropic_to_openai_map codec (req t1) = anthropic_to_openai_map codec (req t2)"
proof -
  have m: "anthropic_message codec (role_content role (results @ [text_block t])) =
      map tool_result_message (blocks_of_type ''tool_result'' results)" for t
    using assms by (simp add: anthropic_message_def role_content_simps Let_def)
  have "concat (map (anthropic_message codec) (objects (before @ [JObj (role_content role (results @ [text_block t1]))] @ after))) =
      concat (map (anthropic_message codec) (objects (before @ [JObj (role_content role (results @ [text_block t2]))] @ after)))"
    by (simp add: m)
  then show ?thesis
    unfolding anthropic_to_openai_map_def Let_def jput_def jget_simps of_simps by (simp cong: option.case_cong)
qed

lemma text_beside_tool_result_lost_witness:
  "\<exists>req :: string \<Rightarrow> json_map. jget (req ''a'') ''messages'' \<noteq> jget (req ''b'') ''messages'' \<and>
     anthropic_to_openai_map plain_codec (req ''a'') = anthropic_to_openai_map plain_codec (req ''b'')"
proof -
  define req where "req = (\<lambda>t. jput ''messages'' (JArr ([] @
    [JObj (role_content ''user'' ([obj [(''type'', JStr ''tool_result'')]] @ [text_block t]))] @ [])) fmempty)"
  have "blocks_of_type ''tool_result'' [obj [(''type'', JStr ''tool_result'')]] \<noteq> []" by simp
  from text_beside_tool_result_lost [OF this, of "[]" "''user''" "[]" fmempty plain_codec "''a''" "''b''"]
  have "anthropic_to_openai_map plain_codec (req ''a'') = anthropic_to_openai_map plain_codec (req ''b'')"
    by (simp only: Let_def req_def)
  moreover define text_of where "text_of =
    (\<lambda>v. get_string (obj_of (last (arr_of (jget (obj_of (hd (arr_of v))) ''content'')))) ''text'')"
  have "text_of (jget (req t) ''messages'') = t" for t
    by (simp add: text_of_def req_def role_content_def text_block_def)
  then have "text_of (jget (req ''a'') ''messages'') \<noteq> text_of (jget (req ''b'') ''messages'')" by simp
  then have "jget (req ''a'') ''messages'' \<noteq> jget (req ''b'') ''messages''" by (rule contrapos_nn) simp
  ultimately show ?thesis by blast
qed

definition system_messages :: "json_map \<Rightarrow> json_map list" where
  "system_messages src =
     filter (\<lambda>m. get_string m ''role'' = ''system'') (objects (arr_of (jget src ''messages'')))"

lemma anthropic_fold_system:
  "jget (fst (fold (anthropic_step codec) ms (dst, acc))) ''system'' =
     (if filter (\<lambda>m. get_string m ''role'' = ''system'') ms = [] then jget dst ''system''
      else jget (last (filter (\<lambda>m. get_string m ''role'' = ''system'') ms)) ''content'')"
  by (induction ms arbitrary: dst acc) (simp_all add: anthropic_step_def)

lemma gemini_fold_system:
  "jget (fst (fold (gemini_step codec names) ms (dst, acc))) ''systemInstruction'' =
     (if filter (\<lambda>m. get_string m ''role'' = ''system'') ms = [] then jget dst ''systemInstruction''
      else obj [(''parts'', JArr [obj [(''text'',
        jget (last (filter (\<lambda>m. get_string m ''role'' = ''system'') ms)) ''content'')]])])"
  by (induction ms arbitrary: dst acc) (simp_all add: gemini_step_def Let_def)

lemma jget_copy_other [simp]:
  "j \<noteq> k' \<Longrightarrow> jget (copy_as src k k' dst) j = jget dst j"
  "j \<noteq> k \<Longrightarrow> jget (copy_if_present src k dst) j = jget dst j"
  by (simp_all add: jget_def)

lemma jget_choice:
  "jget (case x of None \<Rightarrow> a | Some t \<Rightarrow> jput k (f t) a) j =
     (if j = k then (case x of None \<Rightarrow> jget a j | Some t \<Rightarrow> f t) else jget a j)"
  "jget (case x of None \<Rightarrow> jput k v a | Some t \<Rightarrow> jput k (f t) a) j =
     (if j = k then (case x of None \<Rightarrow> v | Some t \<Rightarrow> f t) else jget a j)"
  "jget (if b then a else a') j = (if b then jget a j else jget a' j)"
  by (simp_all split: option.split)

text \<open>Of several system messages of an OpenAI request only the last reaches an Anthropic or a Gemini
  upstream: each one overwrites the field the one before it set.\<close>

lemma last_system_message_only:
  assumes "system_messages src \<noteq> []"
  shows "jget (openai_to_anthropic_map codec model src) ''system'' = jget (last (system_messages src)) ''content'' \<and>
    jget (openai_to_gemini_map codec src) ''systemInstruction'' =
      obj [(''parts'', JArr [obj [(''text'', jget (last (system_messages src)) ''content'')]])]"
proof
  let ?ms = "objects (arr_of (jget src ''messages''))"
  obtain d ms where f: "fold (anthropic_step codec) ?ms (jmap [(''model'', JStr model)], []) = (d, ms)" by fastforce
  have "jget d ''system'' = jget (last (system_messages src)) ''content''"
    using anthropic_fold_system [of codec ?ms "jmap [(''model'', JStr model)]" "[]"] assms
    by (simp only: f fst_conv system_messages_def if_False)
  then show "jget (openai_to_anthropic_map codec model src) ''system'' = jget (last (system_messages src)) ''content''"
    unfolding openai_to_anthropic_map_def Let_def f split_conv by (simp add: jget_choice del: fmap_of_list_simps)
next
  let ?ms = "objects (arr_of (jget src ''messages''))"
  obtain d ms where f: "fold (gemini_step codec (tool_call_names ?ms)) ?ms (fmempty, []) = (d, ms)" by fastforce
  have "jget d ''systemInstruction'' = obj [(''parts'', JArr [obj [(''text'', jget (last (system_messages src)) ''content'')]])]"
    using gemini_fold_system [of codec "tool_call_names ?ms" ?ms fmempty "[]"] assms
    by (simp only: f fst_conv system_messages_def if_False)
  then show "jget (openai_to_gemini_map codec src) ''systemInstruction'' =
      obj [(''parts'', JArr [obj [(''text'', jget (last (system_messages src)) ''content'')]])]"
    unfolding openai_to_gemini_map_def Let_def f split_conv by (simp add: jget_choice)
qed

lemma last_system_message_only_witness:
  "\<exists>src. length (system_messages src) = 2 \<and>
     jget (openai_to_anthropic_map plain_codec ''m'' src) ''system'' = JStr ''second''"
proof -
  define src where "src = jmap [(''messages'', JArr (map (\<lambda>t. obj [(''role'', JStr ''system''), (''content'', JStr t)])
    [''first'', ''second'']))]"
  have s: "system_messages src = [jmap [(''role'', JStr ''system''), (''content'', JStr ''first'')],
      jmap [(''role'', JStr ''system''), (''content'', JStr ''second'')]]"
    by (simp add: system_messages_def src_def)
  then have "system_messages src \<noteq> []" by simp
  from last_system_message_only [OF this, of plain_codec "''m''"] show ?thesis
    by (intro exI [of _ src]) (simp add: s)
qed

section \<open>The body that panics\<close>

text \<open>The conversion of a request panics exactly for the body \<open>null\<close> of a client that speaks neither the
  Anthropic nor the Gemini format, when a model is set: \<open>ReplaceModelField\<close> assigns to the nil map.
  Every other body of every format gives a result or an error. (An object is never printed as
  \<open>null\<close>.)\<close>

lemma convert_request_panics_iff:
  assumes "\<forall>m. jc_unmarshal codec (jc_marshal codec (JObj m)) \<noteq> Inr JNull"
  shows "convert_request codec body from to model = Panicked \<longleftrightarrow>
    model \<noteq> [] \<and> from \<noteq> FormatAnthropic \<and> from \<noteq> FormatGemini \<and> jc_unmarshal codec body = Inr JNull"
proof -
  have r: "replace_model_field codec b model = Panicked \<longleftrightarrow> model \<noteq> [] \<and> jc_unmarshal codec b = Inr JNull" for b
    by (auto simp: replace_model_field_def unmarshal_map_def split: sum.split option.split json.split)
  have o: "jc_unmarshal codec b \<noteq> Inr JNull"
    if "to_canonical_request codec body from = Inr b" "from = FormatAnthropic \<or> from = FormatGemini" for b
    using that assms by (auto simp: to_canonical_request_def anthropic_to_openai_request_def
        gemini_to_openai_request_def split: sum.splits if_splits)
  define first where "first = (if from = FormatOpenAI then Inr body else to_canonical_request codec body from)"
  have c: "convert_request codec body from to model = Panicked \<longleftrightarrow>
      (\<exists>b. first = Inr b \<and> replace_model_field codec b model = Panicked)"
    unfolding convert_request_def first_def [symmetric] by (simp split: sum.split outcome_or_panic.split)
  show ?thesis
  proof (cases "from = FormatAnthropic \<or> from = FormatGemini")
    case True
    then have "first = to_canonical_request codec body from" by (auto simp: first_def)
    with c r o True show ?thesis by metis
  next
    case False
    then have "first = Inr body" by (simp add: first_def to_canonical_request_def)
    with c r False show ?thesis by simp
  qed
qed

lemma convert_request_panics_iff_witness:
  "\<exists>codec. convert_request codec ''null'' FormatOpenAI FormatAnthropic ''m'' = Panicked \<and>
     convert_request codec ''null'' FormatGemini FormatOpenAI ''m'' \<noteq> Panicked"
proof -
  define codec where "codec = \<lparr>jc_unmarshal = (\<lambda>s. if s = ''null'' then Inr JNull else Inr (JObj fmempty)),
    jc_marshal = (\<lambda>v. ''{}'')\<rparr>"
  have "\<forall>m. jc_unmarshal codec (jc_marshal codec (JObj m)) \<noteq> Inr JNull" by (simp add: codec_def)
  from convert_request_panics_iff [OF this, of "''null''"] show ?thesis
    by (intro exI [of _ codec]) (simp add: codec_def)
qed

end
