(* ===== verification/ConvStreamProps.thy ===== *)
theory ConvStreamProps
  imports ConvStream ConvRequestProps
begin

text \<open>
  What a client of the converted streams gets. The specification is a client of the Anthropic
  streaming protocol that refuses any event out of order and puts the message together; the
  converter from OpenAI is related to it state by state. The other direction is the numbering of
  tool calls.
\<close>

section \<open>A strict Anthropic client\<close>

datatype message_block = TextPart string | ToolPart string string string

record client =
  cl_started :: bool
  cl_open :: "int option"
  cl_blocks :: "message_block list"
  cl_stop :: "string option"
  cl_done :: bool

definition new_client :: client where
  "new_client = \<lparr>cl_started = False, cl_open = None, cl_blocks = [], cl_stop = None, cl_done = False\<rparr>"

fun add_delta :: "json_map \<Rightarrow> message_block \<Rightarrow> message_block option" where
  "add_delta d (TextPart t) =
     (if get_string d ''type'' = ''text_delta'' then Some (TextPart (t @ get_string d ''text'')) else None)"
| "add_delta d (ToolPart i name args) =
     (if get_string d ''type'' = ''input_json_delta''
      then Some (ToolPart i name (args @ get_string d ''partial_json'')) else None)"

definition new_block :: "json_map \<Rightarrow> message_block option" where
  "new_block b =
     (if get_string b ''type'' = ''text'' then Some (TextPart (get_string b ''text''))
      else if get_string b ''type'' = ''tool_use''
      then Some (ToolPart (get_string b ''id'') (get_string b ''name'') [])
      else None)"

definition client_step :: "json \<Rightarrow> client \<Rightarrow> client option" where
  "client_step event cl =
     (let e = obj_of event; type = get_string e ''type''; i = index_field e in
      if cl_done cl then None
      else if type = ''message_start'' then
        (if cl_started cl then None else Some (cl\<lparr>cl_started := True\<rparr>))
      else if \<not> cl_started cl then None
      else if type = ''content_block_start'' then
        (if cl_open cl = None \<and> cl_stop cl = None \<and> i = int (length (cl_blocks cl))
         then map_option (\<lambda>b. cl\<lparr>cl_open := Some i, cl_blocks := cl_blocks cl @ [b]\<rparr>)
                (new_block (obj_of (jget e ''content_block'')))
         else None)
      else if type = ''content_block_delta'' then
        (if cl_open cl = Some i
         then map_option (\<lambda>b. cl\<lparr>cl_blocks := butlast (cl_blocks cl) @ [b]\<rparr>)
                (add_delta (obj_of (jget e ''delta'')) (last (cl_blocks cl)))
         else None)
      else if type = ''content_block_stop'' then
        (if cl_open cl = Some i then Some (cl\<lparr>cl_open := None\<rparr>) else None)
      else if type = ''message_delta'' then
        (if cl_open cl = None \<and> cl_stop cl = None
         then Some (cl\<lparr>cl_stop := Some (get_string (obj_of (jget e ''delta'')) ''stop_reason'')\<rparr>) else None)
      else if type = ''message_stop'' then
        (if cl_stop cl \<noteq> None then Some (cl\<lparr>cl_done := True\<rparr>) else None)
      else None)"

fun client_run :: "json list \<Rightarrow> client \<Rightarrow> client option" where
  "client_run [] cl = Some cl"
| "client_run (e # es) cl = (case client_step e cl of None \<Rightarrow> None | Some cl' \<Rightarrow> client_run es cl')"

lemma client_run_append:
  "client_run (es @ es') cl = (case client_run es cl of None \<Rightarrow> None | Some cl' \<Rightarrow> client_run es' cl')"
  by (induction es arbitrary: cl) (simp_all split: option.split)

lemma trunc_int_of_int [simp]: "trunc_int (of_int i) = i"
  by (simp add: trunc_int_def)

lemma trunc_int_of_nat [simp]: "trunc_int (of_nat n) = int n"
  by (simp add: trunc_int_def)

lemma trunc_int_consts [simp]: "trunc_int 0 = 0" "trunc_int 1 = 1"
  by (simp_all add: trunc_int_def)

lemma index_field_simps [simp]:
  "index_field (fmupd k v m) = (if k = ''index'' then (case as_num v of None \<Rightarrow> 0 | Some x \<Rightarrow> trunc_int x) else index_field m)"
  by (simp add: index_field_def)

lemma client_step_events:
  "client_step (anthropic_message_start model msg_id) cl =
     (if cl_done cl \<or> cl_started cl then None else Some (cl\<lparr>cl_started := True\<rparr>))"
  "client_step (block_start_event i (text_block [])) cl =
     (if \<not> cl_done cl \<and> cl_started cl \<and> cl_open cl = None \<and> cl_stop cl = None \<and> i = int (length (cl_blocks cl))
      then Some (cl\<lparr>cl_open := Some i, cl_blocks := cl_blocks cl @ [TextPart []]\<rparr>) else None)"
  "client_step (block_start_event i (tool_use_start t n)) cl =
     (if \<not> cl_done cl \<and> cl_started cl \<and> cl_open cl = None \<and> cl_stop cl = None \<and> i = int (length (cl_blocks cl))
      then Some (cl\<lparr>cl_open := Some i, cl_blocks := cl_blocks cl @ [ToolPart t n []]\<rparr>) else None)"
  "client_step (block_delta_event i (text_delta s)) cl =
     (if \<not> cl_done cl \<and> cl_started cl \<and> cl_open cl = Some i
      then (case last (cl_blocks cl) of
              TextPart t \<Rightarrow> Some (cl\<lparr>cl_blocks := butlast (cl_blocks cl) @ [TextPart (t @ s)]\<rparr>) | _ \<Rightarrow> None)
      else None)"
  "client_step (block_delta_event i (input_json_delta s)) cl =
     (if \<not> cl_done cl \<and> cl_started cl \<and> cl_open cl = Some i
      then (case last (cl_blocks cl) of
              ToolPart a b t \<Rightarrow> Some (cl\<lparr>cl_blocks := butlast (cl_blocks cl) @ [ToolPart a b (t @ s)]\<rparr>) | _ \<Rightarrow> None)
      else None)"
  "client_step (block_stop_event i) cl =
     (if \<not> cl_done cl \<and> cl_started cl \<and> cl_open cl = Some i then Some (cl\<lparr>cl_open := None\<rparr>) else None)"
  "client_step (message_delta_event reason) cl =
     (if \<not> cl_done cl \<and> cl_started cl \<and> cl_open cl = None \<and> cl_stop cl = None
      then Some (cl\<lparr>cl_stop := Some reason\<rparr>) else None)"
  "client_step message_stop_event cl =
     (if \<not> cl_done cl \<and> cl_started cl \<and> cl_stop cl \<noteq> None then Some (cl\<lparr>cl_done := True\<rparr>) else None)"
  by (simp_all add: client_step_def anthropic_message_start_def block_start_event_def block_delta_event_def
      block_stop_event_def text_block_def tool_use_start_def text_delta_def input_json_delta_def
      message_delta_event_def message_stop_event_def jint_def new_block_def Let_def split: message_block.split)

section \<open>What an OpenAI stream says\<close>

abbreviation first_choice :: "json_map \<Rightarrow> json_map" where
  "first_choice chunk \<equiv> obj_of (hd (arr_of (jget chunk ''choices'')))"

definition has_choice :: "json_map \<Rightarrow> bool" where
  "has_choice chunk \<longleftrightarrow> arr_of (jget chunk ''choices'') \<noteq> []"

definition chunk_delta :: "json_map \<Rightarrow> json_map" where
  "chunk_delta chunk = obj_of (jget (first_choice chunk) ''delta'')"

definition chunk_finish :: "json_map \<Rightarrow> string" where
  "chunk_finish chunk = get_string (first_choice chunk) ''finish_reason''"

datatype atom = Says string | Calls json_map

definition atoms :: "json_map \<Rightarrow> atom list" where
  "atoms chunk =
     (let t = get_string (chunk_delta chunk) ''content'' in if t = [] then [] else [Says t])
     @ map Calls (objects (arr_of (jget (chunk_delta chunk) ''tool_calls'')))"

text \<open>The message a stream builds up: a text, then at most one tool call, whose first fragment announces
  its id and name and whose other fragments carry the same index.\<close>

datatype meaning = OnlyText string | WithTool string string string string

definition call_function :: "json_map \<Rightarrow> json_map" where
  "call_function call = obj_of (jget call ''function'')"

definition announces :: "json_map \<Rightarrow> bool" where
  "announces call \<longleftrightarrow> get_string call ''id'' \<noteq> [] \<and> get_string (call_function call) ''name'' \<noteq> []"

fun add_atom :: "int \<Rightarrow> atom \<Rightarrow> meaning \<Rightarrow> meaning option" where
  "add_atom k (Says s) (OnlyText t) = Some (OnlyText (t @ s))"
| "add_atom k (Says s) (WithTool t i n a) = None"
| "add_atom k (Calls c) (OnlyText t) =
     (if index_field c = k \<and> announces c
      then Some (WithTool t (get_string c ''id'') (get_string (call_function c) ''name'')
                   (get_string (call_function c) ''arguments''))
      else None)"
| "add_atom k (Calls c) (WithTool t i n a) =
     (if index_field c = k \<and> \<not> announces c
      then Some (WithTool t i n (a @ get_string (call_function c) ''arguments'')) else None)"

fun add_atoms :: "int \<Rightarrow> atom list \<Rightarrow> meaning \<Rightarrow> meaning option" where
  "add_atoms k [] m = Some m"
| "add_atoms k (x # xs) m = (case add_atom k x m of None \<Rightarrow> None | Some m' \<Rightarrow> add_atoms k xs m')"

lemma add_atoms_append:
  "add_atoms k (xs @ ys) m = (case add_atoms k xs m of None \<Rightarrow> None | Some m' \<Rightarrow> add_atoms k ys m')"
  by (induction xs arbitrary: m) (simp_all split: option.split)

fun message_blocks :: "meaning \<Rightarrow> message_block list" where
  "message_blocks (OnlyText t) = (if t = [] then [] else [TextPart t])"
| "message_blocks (WithTool t i n a) = (if t = [] then [] else [TextPart t]) @ [ToolPart i n a]"

section \<open>The converter in step with the client\<close>

definition client_at :: "message_block list \<Rightarrow> int option \<Rightarrow> client" where
  "client_at bs i = \<lparr>cl_started = True, cl_open = i, cl_blocks = bs, cl_stop = None, cl_done = False\<rparr>"

fun in_step :: "int \<Rightarrow> meaning \<Rightarrow> stream_conv \<Rightarrow> client \<Rightarrow> bool" where
  "in_step k (OnlyText t) sc cl \<longleftrightarrow>
     sc_msg_started sc \<and> \<not> sc_tool_open sc \<and> sc_block_index sc = 0 \<and> sc_block_started sc = (t \<noteq> []) \<and>
     cl = client_at (message_blocks (OnlyText t)) (if t = [] then None else Some 0)"
| "in_step k (WithTool t i n a) sc cl \<longleftrightarrow>
     (let pos = if t = [] then 0 else 1 in
      sc_msg_started sc \<and> sc_tool_open sc \<and> \<not> sc_block_started sc \<and> sc_block_index sc = pos + 1 \<and>
      map_of (sc_tool_idx sc) k = Some pos \<and> cl = client_at (message_blocks (WithTool t i n a)) (Some pos))"

definition acc_in_step :: "int \<Rightarrow> client \<Rightarrow> meaning \<Rightarrow> conv_acc \<Rightarrow> bool" where
  "acc_in_step k cl0 m acc \<longleftrightarrow> (\<exists>cl. client_run (snd acc) cl0 = Some cl \<and> in_step k m (fst acc) cl)"

fun convert_atom :: "string \<Rightarrow> atom \<Rightarrow> conv_acc \<Rightarrow> conv_acc" where
  "convert_atom msg_id (Says s) acc = emit_text msg_id s acc"
| "convert_atom msg_id (Calls c) acc = emit_tool_call c acc"

lemmas run_simps = client_run_append client_step_events client_at_def

lemma convert_atom_in_step:
  assumes "acc_in_step k cl0 m acc" and "add_atom k x m = Some m'" and "x \<noteq> Says []"
  shows "acc_in_step k cl0 m' (convert_atom msg_id x acc)"
proof -
  obtain sc parts cl where acc: "acc = (sc, parts)" "client_run parts cl0 = Some cl" "in_step k m sc cl"
    using assms(1) by (cases acc) (auto simp: acc_in_step_def)
  show ?thesis
  proof (cases x)
    case (Says s)
    then obtain t where "m = OnlyText t" "m' = OnlyText (t @ s)" using assms(2) by (cases m) auto
    then show ?thesis using acc Says assms(3)
      by (auto simp: acc_in_step_def emit_text_def start_message_def run_simps)
  next
    case (Calls c)
    show ?thesis
    proof (cases m)
      case (OnlyText t)
      then show ?thesis using acc Calls assms(2)
        by (auto simp: acc_in_step_def emit_tool_call_def open_tool_def announces_def call_function_def
            int_at_def run_simps Let_def split: if_splits)
    next
      case (WithTool t i n a)
      then show ?thesis using acc Calls assms(2)
        by (auto simp: acc_in_step_def emit_tool_call_def announces_def call_function_def int_at_def
            run_simps Let_def split: if_splits)
    qed
  qed
qed

lemma convert_atoms_in_step:
  "acc_in_step k cl0 m acc \<Longrightarrow> add_atoms k xs m = Some m' \<Longrightarrow> Says [] \<notin> set xs \<Longrightarrow>
     acc_in_step k cl0 m' (fold (convert_atom msg_id) xs acc)"
proof (induction xs arbitrary: m acc)
  case (Cons x xs)
  then obtain m1 where m1: "add_atom k x m = Some m1" "add_atoms k xs m1 = Some m'"
    by (auto split: option.splits)
  have "acc_in_step k cl0 m1 (convert_atom msg_id x acc)"
    using convert_atom_in_step [OF Cons.prems(1) m1(1)] Cons.prems(3) by auto
  with Cons.IH [OF _ m1(2)] Cons.prems(3) show ?case by simp
qed simp

section \<open>Whole chunks and streams\<close>

lemma start_message_started: "sc_msg_started (fst acc) \<Longrightarrow> start_message msg_id acc = acc"
  by (simp add: start_message_def split_beta)

lemma emit_text_started: "sc_msg_started (fst (emit_text msg_id s acc))"
  by (simp add: emit_text_def start_message_def split_beta)

definition chunk_start :: "json_map \<Rightarrow> stream_conv \<Rightarrow> conv_acc" where
  "chunk_start chunk sc =
     (if get_string (chunk_delta chunk) ''role'' \<noteq> [] then start_message (get_string chunk ''id'') (sc, [])
      else (sc, []))"

lemma openai_event_as_atoms:
  assumes "has_choice chunk" and "sc_msg_started (fst (chunk_start chunk sc))"
  shows "openai_event_to_anthropic chunk sc =
    (let acc = fold (convert_atom (get_string chunk ''id'')) (atoms chunk) (chunk_start chunk sc)
     in if chunk_finish chunk = [] then acc else finish_message (chunk_finish chunk) acc)"
proof -
  obtain c cs where c: "jget chunk ''choices'' = JArr (c # cs)"
    using assms(1) by (cases "jget chunk ''choices''") (auto simp: has_choice_def arr_of_def neq_Nil_conv)
  have calls: "fold (convert_atom i) (map Calls xs) acc = fold emit_tool_call xs acc" for i xs acc
    by (induction xs arbitrary: acc) simp_all
  show ?thesis
    using assms(2)
    by (simp add: openai_event_to_anthropic_def c chunk_delta_def chunk_finish_def atoms_def chunk_start_def Let_def
        calls start_message_started emit_text_started)
qed

fun convert_events :: "json_map list \<Rightarrow> stream_conv \<Rightarrow> stream_conv \<times> json list" where
  "convert_events [] sc = (sc, [])"
| "convert_events (c # cs) sc =
     (let (sc1, es) = openai_event_to_anthropic c sc; (sc2, es') = convert_events cs sc1 in (sc2, es @ es'))"

lemma convert_events_append:
  "convert_events (cs @ cs') sc =
     (let (sc1, es) = convert_events cs sc; (sc2, es') = convert_events cs' sc1 in (sc2, es @ es'))"
  by (induction cs arbitrary: sc) (simp_all add: Let_def split_beta)

lemma says_nonempty: "Says [] \<notin> set (atoms chunk)"
  by (auto simp: atoms_def Let_def)

lemma convert_events_in_step:
  assumes "in_step k m sc cl" and "\<forall>c \<in> set cs. has_choice c \<and> chunk_finish c = []"
    and "add_atoms k (concat (map atoms cs)) m = Some m'"
  shows "\<exists>cl'. client_run (snd (convert_events cs sc)) cl = Some cl' \<and> in_step k m' (fst (convert_events cs sc)) cl'"
  using assms
proof (induction cs arbitrary: m sc cl)
  case (Cons c cs)
  obtain m1 where m1: "add_atoms k (atoms c) m = Some m1" "add_atoms k (concat (map atoms cs)) m1 = Some m'"
    using Cons.prems(3) by (auto simp: add_atoms_append split: option.splits)
  have started: "sc_msg_started sc" using Cons.prems(1) by (cases m) (auto simp: Let_def)
  then have s: "chunk_start c sc = (sc, [])" by (simp add: chunk_start_def start_message_started)
  let ?acc = "fold (convert_atom (get_string c ''id'')) (atoms c) (sc, [])"
  have e: "openai_event_to_anthropic c sc = ?acc"
    using openai_event_as_atoms [of c sc] Cons.prems(2) started s by simp
  have "acc_in_step k cl m (sc, [])" using Cons.prems(1) by (simp add: acc_in_step_def)
  from convert_atoms_in_step [OF this m1(1) says_nonempty] obtain cl1 where
    cl1: "client_run (snd ?acc) cl = Some cl1" "in_step k m1 (fst ?acc) cl1"
    by (auto simp: acc_in_step_def)
  from Cons.IH [OF cl1(2) _ m1(2)] Cons.prems(2) cl1(1) show ?case
    by (auto simp: Let_def split_beta e client_run_append)
qed simp

lemma finish_in_step:
  assumes "acc_in_step k cl0 m acc"
  shows "\<exists>cl. client_run (snd (finish_message f acc)) cl0 = Some cl \<and> cl_done cl \<and>
    cl_stop cl = Some (stop_of_openai f) \<and> cl_blocks cl = message_blocks m"
proof -
  obtain sc parts cl where acc: "acc = (sc, parts)" "client_run parts cl0 = Some cl" "in_step k m sc cl"
    using assms by (cases acc) (auto simp: acc_in_step_def)
  then show ?thesis by (cases m) (auto simp: finish_message_def run_simps Let_def)
qed

text \<open>C24: A stream of an OpenAI upstream that begins with a role, says some text and then makes at most one
  tool call reaches a strict Anthropic client as one well-formed message: every event is accepted
  in order, the blocks are the whole text and the tool call with all its argument fragments, and the
  stop reason is the translated one, however the upstream cuts text and arguments into chunks.\<close>

theorem openai_stream_accepted:
  assumes "\<forall>c \<in> set (cs @ [fin]). has_choice c" and "\<forall>c \<in> set cs. chunk_finish c = []"
    and "chunk_finish fin \<noteq> []"
    and "get_string (chunk_delta (hd (cs @ [fin]))) ''role'' \<noteq> []"
    and "add_atoms k (concat (map atoms (cs @ [fin]))) (OnlyText []) = Some m"
  shows "\<exists>cl. client_run (snd (convert_events (cs @ [fin]) (new_stream_converter FormatOpenAI FormatAnthropic model)))
      new_client = Some cl \<and> cl_done cl \<and> cl_blocks cl = message_blocks m \<and>
    cl_stop cl = Some (stop_of_openai (chunk_finish fin))"
proof -
  let ?sc = "new_stream_converter FormatOpenAI FormatAnthropic model"
  have begins: "acc_in_step k new_client (OnlyText []) (start_message i (?sc, []))" for i
    by (simp add: acc_in_step_def start_message_def new_stream_converter_def run_simps new_client_def)
  have closes: "\<exists>cl. client_run (snd (openai_event_to_anthropic fin sc)) cl0 = Some cl \<and> cl_done cl \<and>
      cl_blocks cl = message_blocks m \<and> cl_stop cl = Some (stop_of_openai (chunk_finish fin))"
    if "acc_in_step k cl0 m0 (chunk_start fin sc)" "add_atoms k (atoms fin) m0 = Some m" for cl0 m0 sc
  proof -
    have "sc_msg_started (fst (chunk_start fin sc))"
      using that(1) by (cases m0) (auto simp: acc_in_step_def Let_def)
    then show ?thesis
      using finish_in_step [OF convert_atoms_in_step [OF that says_nonempty], of "chunk_finish fin"] assms(1,3)
      by (auto simp: openai_event_as_atoms Let_def)
  qed
  show ?thesis
  proof (cases cs)
    case Nil
    then have "chunk_start fin ?sc = start_message (get_string fin ''id'') (?sc, [])"
      using assms(4) by (simp add: chunk_start_def)
    with closes [of new_client "OnlyText []" ?sc] begins assms(5) Nil show ?thesis by (auto simp: split_beta Let_def)
  next
    case (Cons c rest)
    then have s: "chunk_start c ?sc = start_message (get_string c ''id'') (?sc, [])"
      using assms(4) by (simp add: chunk_start_def)
    obtain m1 m2 where m1: "add_atoms k (atoms c) (OnlyText []) = Some m1"
      "add_atoms k (concat (map atoms rest)) m1 = Some m2" "add_atoms k (atoms fin) m2 = Some m"
      using assms(5) Cons by (auto simp: add_atoms_append split: option.splits)
    let ?acc = "openai_event_to_anthropic c ?sc"
    have started: "sc_msg_started (fst (chunk_start c ?sc))"
      unfolding s by (simp add: start_message_def split_beta)
    have "?acc = fold (convert_atom (get_string c ''id'')) (atoms c) (chunk_start c ?sc)"
      using openai_event_as_atoms [of c ?sc] assms(1,2) Cons started by simp
    with convert_atoms_in_step [OF begins m1(1) says_nonempty] obtain cl1 where
      cl1: "client_run (snd ?acc) new_client = Some cl1" "in_step k m1 (fst ?acc) cl1"
      by (auto simp: s acc_in_step_def)
    from convert_events_in_step [OF cl1(2) _ m1(2)] assms(1,2) Cons obtain cl2 where
      cl2: "client_run (snd (convert_events rest (fst ?acc))) cl1 = Some cl2"
        "in_step k m2 (fst (convert_events rest (fst ?acc))) cl2" by auto
    let ?sc2 = "fst (convert_events rest (fst ?acc))"
    have "chunk_start fin ?sc2 = (?sc2, [])"
      using cl2(2) by (cases m2) (simp_all add: chunk_start_def start_message_started Let_def)
    then have "acc_in_step k cl2 m2 (chunk_start fin ?sc2)" using cl2(2) by (simp add: acc_in_step_def)
    from closes [OF this m1(3)] cl1(1) cl2(1) show ?thesis
      by (auto simp: Cons convert_events_append client_run_append split_beta Let_def)
  qed
qed

definition sample_chunk :: "(string \<times> json) list \<Rightarrow> string \<Rightarrow> json_map" where
  "sample_chunk delta finish =
     jmap [(''id'', JStr ''x''),
           (''choices'', JArr [obj [(''delta'', obj delta), (''finish_reason'', JStr finish)]])]"

definition sample_call :: "int \<Rightarrow> string \<Rightarrow> string \<Rightarrow> string \<Rightarrow> json_map" where
  "sample_call k i name args =
     jmap [(''index'', jint k), (''id'', JStr i),
           (''function'', obj [(''name'', JStr name), (''arguments'', JStr args)])]"

lemma sample_chunk_simps [simp]:
  "has_choice (sample_chunk delta finish)"
  "chunk_finish (sample_chunk delta finish) = finish"
  "chunk_delta (sample_chunk delta finish) = jmap delta"
  "get_string (sample_chunk delta finish) ''id'' = ''x''"
  by (simp_all add: sample_chunk_def has_choice_def chunk_finish_def chunk_delta_def)

lemma sample_call_simps [simp]:
  "index_field (sample_call k i name args) = k"
  "get_string (sample_call k i name args) ''id'' = i"
  "call_function (sample_call k i name args) = jmap [(''name'', JStr name), (''arguments'', JStr args)]"
  by (simp_all add: sample_call_def jint_def call_function_def)

theorem openai_stream_accepted_witness:
  "\<exists>cs cl. length cs = 4 \<and>
     client_run (snd (convert_events cs (new_stream_converter FormatOpenAI FormatAnthropic ''m''))) new_client = Some cl \<and>
     cl_blocks cl = [TextPart ''abc'', ToolPart ''t1'' ''ls'' ''{}''] \<and> cl_stop cl = Some ''tool_use''"
proof -
  define cs where "cs = [sample_chunk [(''role'', JStr ''assistant''), (''content'', JStr ''ab'')] [],
    sample_chunk [(''content'', JStr ''c''), (''tool_calls'', JArr [JObj (sample_call 0 ''t1'' ''ls'' [])])] [],
    sample_chunk [(''tool_calls'', JArr [JObj (sample_call 0 [] [] ''{}'')])] []]"
  define fin where "fin = sample_chunk [] ''tool_calls''"
  have h: "\<forall>c \<in> set (cs @ [fin]). has_choice c" "\<forall>c \<in> set cs. chunk_finish c = []" "chunk_finish fin \<noteq> []"
    "get_string (chunk_delta (hd (cs @ [fin]))) ''role'' \<noteq> []"
    by (simp_all add: cs_def fin_def)
  have "add_atoms 0 (concat (map atoms (cs @ [fin]))) (OnlyText []) =
      Some (WithTool ''abc'' ''t1'' ''ls'' ''{}'')"
    by (simp add: cs_def fin_def atoms_def Let_def announces_def)
  from openai_stream_accepted [OF h this, of "''m''"] show ?thesis
    by (intro exI [of _ "cs @ [fin]"]) (auto simp: cs_def fin_def stop_of_openai_def)
qed

section \<open>Two tool calls\<close>

text \<open>C26: Two tool calls in one stream are converted into a stream no client can read: when the second call
  opens, the stop event carries the number of the new block instead of the open one. A strict client
  refuses it, and the block of the first call is never closed, whatever the ids, names and arguments.\<close>

theorem parallel_tool_calls_rejected:
  assumes "i1 \<noteq> []" and "n1 \<noteq> []" and "i2 \<noteq> []" and "n2 \<noteq> []" and "k1 \<noteq> k2" and "f \<noteq> []"
  shows "let es = snd (convert_events
      [sample_chunk [(''role'', JStr ''assistant'')] [],
       sample_chunk [(''tool_calls'', JArr [JObj (sample_call k1 i1 n1 a1)])] [],
       sample_chunk [(''tool_calls'', JArr [JObj (sample_call k2 i2 n2 a2)])] [],
       sample_chunk [] f] (new_stream_converter FormatOpenAI FormatAnthropic model))
    in client_run es new_client = None \<and> block_stop_event 0 \<notin> set es \<and>
       block_start_event 0 (tool_use_start i1 n1) \<in> set es"
proof -
  let ?sc = "new_stream_converter FormatOpenAI FormatAnthropic model"
  have calls: "atoms (sample_chunk [(''tool_calls'', JArr [JObj c])] []) = [Calls c]"
    "atoms (sample_chunk [(''role'', JStr ''assistant'')] []) = []" "atoms (sample_chunk [] f) = []" for c
    by (simp_all add: atoms_def Let_def)
  define es where "es = [anthropic_message_start model ''x'', block_start_event 0 (tool_use_start i1 n1)] @
    (if a1 = [] then [] else [block_delta_event 0 (input_json_delta a1)]) @
    [block_stop_event 1, block_start_event 1 (tool_use_start i2 n2)] @
    (if a2 = [] then [] else [block_delta_event 1 (input_json_delta a2)]) @
    [block_stop_event 1, message_delta_event (stop_of_openai f), message_stop_event]"
  have "snd (convert_events
      [sample_chunk [(''role'', JStr ''assistant'')] [],
       sample_chunk [(''tool_calls'', JArr [JObj (sample_call k1 i1 n1 a1)])] [],
       sample_chunk [(''tool_calls'', JArr [JObj (sample_call k2 i2 n2 a2)])] [],
       sample_chunk [] f] ?sc) = es"
    using assms
    by (simp add: openai_event_as_atoms chunk_start_def start_message_def new_stream_converter_def calls
        emit_tool_call_def open_tool_def finish_message_def int_at_def call_function_def [symmetric] es_def)
  moreover have "client_run es new_client = None"
    by (simp add: es_def client_run_append client_step_events new_client_def)
  moreover define key where "key = (\<lambda>e. (get_string (obj_of e) ''type'', index_field (obj_of e)))"
  have "key (block_stop_event 0) \<notin> key ` set es"
    by (simp add: key_def es_def block_stop_event_def anthropic_message_start_def block_start_event_def
        block_delta_event_def message_delta_event_def message_stop_event_def jint_def)
  then have "block_stop_event 0 \<notin> set es" by blast
  moreover have "block_start_event 0 (tool_use_start i1 n1) \<in> set es" by (simp add: es_def)
  ultimately show ?thesis by (simp only: Let_def simp_thms)
qed

theorem parallel_tool_calls_rejected_witness:
  "\<exists>cs. length cs = 4 \<and>
     client_run (snd (convert_events cs (new_stream_converter FormatOpenAI FormatAnthropic ''m''))) new_client = None"
proof -
  have h: "''t1'' \<noteq> []" "''ls'' \<noteq> []" "''t2'' \<noteq> []" "''cat'' \<noteq> []" "(0::int) \<noteq> 1" "''tool_calls'' \<noteq> []"
    by simp_all
  from parallel_tool_calls_rejected [OF h, of "''{}''" "''{}''" "''m''"] show ?thesis
    unfolding Let_def by (elim conjE) (rule exI, rule conjI [rotated], assumption, simp)
qed

section \<open>Numbering of tool calls\<close>

text \<open>The blocks of tool calls an Anthropic stream starts, in the order of their first start.\<close>

definition tool_start :: "json_map \<Rightarrow> int option" where
  "tool_start e =
     (if get_string e ''type'' = ''content_block_start'' \<and>
         get_string (obj_of (jget e ''content_block'')) ''type'' = ''tool_use''
      then Some (index_field e) else None)"

definition first_starts :: "json_map list \<Rightarrow> int list" where
  "first_starts events = rev (remdups (rev (List.map_filter tool_start events)))"

fun convert_anthropic :: "(instant \<times> instant \<times> json_map) list \<Rightarrow> stream_conv \<Rightarrow> stream_conv" where
  "convert_anthropic [] sc = sc"
| "convert_anthropic ((t_id, t_created, e) # es) sc =
     convert_anthropic es (fst (anthropic_event_to_openai t_id t_created e sc))"

lemma anthropic_event_tool_idx:
  "sc_tool_idx (fst (anthropic_event_to_openai t_id t_created e sc)) =
     (case tool_start e of None \<Rightarrow> sc_tool_idx sc | Some b \<Rightarrow> snd (tool_call_index b (sc_tool_idx sc)))"
  by (auto simp: anthropic_event_to_openai_def tool_start_def Let_def split_beta obj_of_def split: option.split)

definition numbered :: "int list \<Rightarrow> (int \<times> int) list" where
  "numbered bs = zip bs (map int [0..<length bs])"

lemma numbered_snoc: "numbered (bs @ [b]) = numbered bs @ [(b, int (length bs))]"
  by (simp add: numbered_def)

lemma update_new: "k \<notin> fst ` set m \<Longrightarrow> AList.update k v m = m @ [(k, v)]"
  by (induction m) auto

lemma numbered_keys: "fst ` set (numbered bs) = set bs"
  by (simp add: numbered_def flip: set_map)

lemma tool_call_index_numbered:
  "snd (tool_call_index b (numbered bs)) = numbered (if b \<in> set bs then bs else bs @ [b])"
proof (cases "b \<in> set bs")
  case True
  then have "map_of (numbered bs) b \<noteq> None" by (simp add: map_of_eq_None_iff numbered_keys)
  with True show ?thesis by (auto simp: tool_call_index_def)
next
  case False
  then have "map_of (numbered bs) b = None" by (simp add: map_of_eq_None_iff numbered_keys)
  moreover have "length (numbered bs) = length bs" by (simp add: numbered_def)
  ultimately show ?thesis using False by (simp add: tool_call_index_def numbered_snoc update_new numbered_keys)
qed

lemma first_starts_snoc:
  "first_starts (es @ [e]) =
     (case tool_start e of None \<Rightarrow> first_starts es
      | Some b \<Rightarrow> if b \<in> set (first_starts es) then first_starts es else first_starts es @ [b])"
proof -
  have "List.map_filter tool_start (es @ [e]) = List.map_filter tool_start es @
      (case tool_start e of None \<Rightarrow> [] | Some b \<Rightarrow> [b])"
    by (simp add: List.map_filter_def split: option.split)
  then show ?thesis by (simp add: first_starts_def split: option.split)
qed

lemma convert_anthropic_snoc:
  "convert_anthropic (es @ [(t, u, e)]) sc = fst (anthropic_event_to_openai t u e (convert_anthropic es sc))"
  by (induction es arbitrary: sc) auto

text \<open>What an Anthropic event says of a tool call: its block, and what is new of its id, name and arguments.\<close>

definition tool_event :: "json_map \<Rightarrow> (int \<times> string \<times> string \<times> string) option" where
  "tool_event e =
     (let cb = obj_of (jget e ''content_block''); delta = obj_of (jget e ''delta'') in
      if get_string e ''type'' = ''content_block_start'' then
        (if get_string cb ''type'' = ''tool_use''
         then Some (index_field e, get_string cb ''id'', get_string cb ''name'', []) else None)
      else if get_string e ''type'' = ''content_block_delta'' \<and> get_string delta ''type'' = ''input_json_delta''
      then Some (index_field e, [], [], get_string delta ''partial_json'')
      else None)"

text \<open>What an OpenAI client reads of the first tool call of a chunk.\<close>

fun tool_delta :: "converted \<Rightarrow> (int \<times> string \<times> string \<times> string) option" where
  "tool_delta (Chunk v) =
     (case jget (obj_of v) ''choices'' of
        JArr (ch # _) \<Rightarrow>
          (case jget (obj_of (jget (obj_of ch) ''delta'')) ''tool_calls'' of
             JArr (call # _) \<Rightarrow>
               (let c = obj_of call; fn = obj_of (jget c ''function'') in
                Some (index_field c, get_string c ''id'', get_string fn ''name'', get_string fn ''arguments''))
           | _ \<Rightarrow> None)
      | _ \<Rightarrow> None)"
| "tool_delta _ = None"

fun anthropic_output :: "(instant \<times> instant \<times> json_map) list \<Rightarrow> stream_conv \<Rightarrow> converted list" where
  "anthropic_output [] sc = []"
| "anthropic_output ((t_id, t_created, e) # es) sc =
     (let (sc, c) = anthropic_event_to_openai t_id t_created e sc in c # anthropic_output es sc)"

lemma anthropic_output_snoc:
  "anthropic_output (es @ [(t, u, e)]) sc =
     anthropic_output es sc @ [snd (anthropic_event_to_openai t u e (convert_anthropic es sc))]"
  by (induction es arbitrary: sc) (auto simp: split_beta)

lemma event_tool_delta:
  "tool_delta (snd (anthropic_event_to_openai t u e sc)) =
     (case tool_event e of None \<Rightarrow> None
      | Some (b, d) \<Rightarrow> Some (if tool_start e = None then int_at (sc_tool_idx sc) b
                             else fst (tool_call_index b (sc_tool_idx sc)), d))"
  by (auto simp: anthropic_event_to_openai_def tool_event_def tool_start_def Let_def split_beta obj_of_def jint_def
      openai_choice_def split: option.split)


text \<open>The number of a block in the order of the first starts, and that a stream sends the fragments of a block
  after its start only.\<close>

definition position :: "int list \<Rightarrow> int \<Rightarrow> int" where
  "position bs b = int (length (takeWhile (\<lambda>x. x \<noteq> b) bs))"

definition fragment_of :: "json_map \<Rightarrow> int option" where
  "fragment_of e = (if tool_start e = None then map_option fst (tool_event e) else None)"

definition starts_first :: "json_map list \<Rightarrow> bool" where
  "starts_first events \<longleftrightarrow> (\<forall>n < length events. \<forall>b. fragment_of (events ! n) = Some b \<longrightarrow>
     b \<in> set (first_starts (take n events)))"

lemma starts_first_snoc:
  "starts_first (es @ [e]) \<longleftrightarrow> starts_first es \<and> (\<forall>b. fragment_of e = Some b \<longrightarrow> b \<in> set (first_starts es))"
  by (auto simp: starts_first_def nth_append less_Suc_eq)

lemma tool_start_event: "tool_start e = Some b \<Longrightarrow> tool_event e = Some p \<Longrightarrow> fst p = b"
  by (auto simp: tool_start_def tool_event_def Let_def split: if_splits)

lemma tool_event_known:
  "starts_first es \<Longrightarrow> e \<in> set es \<Longrightarrow> tool_event e = Some p \<Longrightarrow> fst p \<in> set (first_starts es)"
proof (induction es rule: rev_induct)
  case (snoc x es)
  show ?case
  proof (cases "e = x")
    case True
    show ?thesis
    proof (cases "tool_start x")
      case None
      with True snoc.prems have "fragment_of x = Some (fst p)" by (simp add: fragment_of_def)
      with None snoc.prems True show ?thesis by (simp add: starts_first_snoc first_starts_snoc)
    next
      case (Some b)
      moreover from this snoc.prems True have "fst p = b" by (intro tool_start_event [of x]) simp_all
      ultimately show ?thesis using True by (simp add: first_starts_snoc)
    qed
  next
    case False
    with snoc show ?thesis by (auto simp: starts_first_snoc first_starts_snoc split: option.split)
  qed
qed simp

lemma position_append: "b \<in> set bs \<Longrightarrow> position (bs @ cs) b = position bs b"
  by (induction bs) (auto simp: position_def)

lemma position_snoc: "b \<notin> set bs \<Longrightarrow> position (bs @ [b]) b = int (length bs)"
  by (induction bs) (auto simp: position_def)

lemma map_of_numbered_aux:
  "b \<in> set bs \<Longrightarrow> map_of (zip bs (map int [k..<k + length bs])) b = Some (int k + position bs b)"
proof (induction bs arbitrary: k)
  case (Cons x bs)
  then show ?case using Cons.IH [of "Suc k"] by (auto simp: upt_conv_Cons position_def simp del: upt_Suc)
qed simp

lemma map_of_numbered: "b \<in> set bs \<Longrightarrow> map_of (numbered bs) b = Some (position bs b)"
  using map_of_numbered_aux [of b bs 0] by (simp add: numbered_def)

lemma map_filter_snoc:
  "List.map_filter f (xs @ [x]) = List.map_filter f xs @ (case f x of None \<Rightarrow> [] | Some y \<Rightarrow> [y])"
  by (simp add: List.map_filter_def split: option.split)

lemma map_filter_mem: "y \<in> set (List.map_filter f xs) \<Longrightarrow> \<exists>x \<in> set xs. f x = Some y"
  by (auto simp: List.map_filter_def)

lemma index_numbered:
  assumes "b \<in> set bs \<or> bs' = bs @ [b]" and "b \<in> set bs \<Longrightarrow> bs' = bs"
  shows "fst (tool_call_index b (numbered bs)) = position bs' b"
proof (cases "b \<in> set bs")
  case True
  with assms show ?thesis by (simp add: tool_call_index_def map_of_numbered)
next
  case False
  then have "map_of (numbered bs) b = None" by (simp add: map_of_eq_None_iff numbered_keys)
  moreover have "length (numbered bs) = length bs" by (simp add: numbered_def)
  ultimately show ?thesis using False assms by (simp add: tool_call_index_def position_snoc)
qed

lemma tool_table:
  "sc_tool_idx (convert_anthropic es (new_stream_converter FormatAnthropic FormatOpenAI model)) =
     numbered (first_starts (map (\<lambda>(_, _, e). e) es))"
proof (induction es rule: rev_induct)
  case Nil
  show ?case by (simp add: new_stream_converter_def numbered_def first_starts_def List.map_filter_def)
next
  case (snoc x es)
  obtain t u e where "x = (t, u, e)" by (cases x)
  with snoc show ?case
    by (simp add: convert_anthropic_snoc anthropic_event_tool_idx first_starts_snoc tool_call_index_numbered
        split: option.split)
qed

lemma distinct_first_starts: "distinct (first_starts es)"
  by (simp add: first_starts_def)

text \<open>C25: The tool calls an OpenAI client reads from a converted Anthropic stream are those of the stream, event by
  event: each chunk carries the id, the name and the argument fragment of its event, under the number of the event's
  block, and the blocks are numbered 0, 1, 2 and so on in the order of their first start. No number is shared,
  a block started twice keeps its own, and so every fragment is added to the call it belongs to, however the blocks
  interleave. The stream has to send the fragments of a block after its start, as Anthropic's streams do.\<close>

theorem tool_calls_numbered:
  assumes "events = map (\<lambda>(_, _, e). e) es" and "starts_first events"
  shows "distinct (first_starts events) \<and>
    List.map_filter tool_delta (anthropic_output es (new_stream_converter FormatAnthropic FormatOpenAI model)) =
      map (\<lambda>(b, d). (position (first_starts events) b, d)) (List.map_filter tool_event events)"
proof (intro conjI distinct_first_starts)
  let ?sc = "new_stream_converter FormatAnthropic FormatOpenAI model"
  let ?es = "map (\<lambda>(_, _, e). e)"
  have "List.map_filter tool_delta (anthropic_output es ?sc) =
      map (\<lambda>(b, d). (position (first_starts (?es es)) b, d)) (List.map_filter tool_event (?es es))"
    using assms(2) unfolding assms(1)
  proof (induction es rule: rev_induct)
    case Nil
    show ?case by (simp add: List.map_filter_def)
  next
    case (snoc x es)
    obtain t u e where x: "x = (t, u, e)" by (cases x)
    let ?bs = "first_starts (?es es)" and ?bs' = "first_starts (?es es @ [e])"
    have ok: "starts_first (?es es)" "\<And>b. fragment_of e = Some b \<Longrightarrow> b \<in> set ?bs"
      using snoc.prems by (simp_all add: x starts_first_snoc)
    have ext: "\<exists>cs. ?bs' = ?bs @ cs" by (auto simp: first_starts_snoc split: option.split)
    have old: "map (\<lambda>(b, d). (position ?bs' b, d)) (List.map_filter tool_event (?es es)) =
        map (\<lambda>(b, d). (position ?bs b, d)) (List.map_filter tool_event (?es es))"
    proof (rule map_cong [OF refl])
      fix p assume "p \<in> set (List.map_filter tool_event (?es es))"
      then obtain e' where "e' \<in> set (?es es)" "tool_event e' = Some p"
        by (auto dest: map_filter_mem simp del: set_map)
      then have "fst p \<in> set ?bs" by (rule tool_event_known [OF ok(1)])
      with ext show "(case p of (b, d) \<Rightarrow> (position ?bs' b, d)) = (case p of (b, d) \<Rightarrow> (position ?bs b, d))"
        by (auto simp: split_beta position_append)
    qed
    have last: "tool_delta (snd (anthropic_event_to_openai t u e (convert_anthropic es ?sc))) =
        map_option (\<lambda>(b, d). (position ?bs' b, d)) (tool_event e)"
    proof (cases "tool_event e")
      case (Some p)
      show ?thesis
      proof (cases "tool_start e")
        case None
        with ok(2) Some have "fst p \<in> set ?bs" by (simp add: fragment_of_def)
        with None Some show ?thesis
          by (cases p) (simp add: event_tool_delta tool_table int_at_def map_of_numbered first_starts_snoc)
      next
        case (Some b)
        with tool_start_event [OF Some \<open>tool_event e = Some p\<close>] \<open>tool_event e = Some p\<close> show ?thesis
          by (cases p) (simp add: event_tool_delta tool_table first_starts_snoc index_numbered)
      qed
    qed (simp add: event_tool_delta)
    show ?case
      using snoc.IH [OF ok(1)] last old
      by (simp add: x anthropic_output_snoc map_filter_snoc split: option.split)
  qed
  then show "List.map_filter tool_delta (anthropic_output es ?sc) =
      map (\<lambda>(b, d). (position (first_starts events) b, d)) (List.map_filter tool_event events)"
    by (simp add: assms(1))
qed

definition tool_stream :: "json_map list" where
  "tool_stream =
     [jmap [(''type'', JStr ''content_block_start''), (''index'', jint 1), (''content_block'', tool_use_start ''a'' ''ls'')],
      jmap [(''type'', JStr ''content_block_start''), (''index'', jint 3), (''content_block'', tool_use_start ''b'' ''cat'')],
      jmap [(''type'', JStr ''content_block_delta''), (''index'', jint 3), (''delta'', input_json_delta ''{}'')],
      jmap [(''type'', JStr ''content_block_delta''), (''index'', jint 1), (''delta'', input_json_delta ''[]'')]]"

theorem tool_calls_numbered_witness:
  "List.map_filter tool_delta
     (anthropic_output (map (\<lambda>e. (0, 0, e)) tool_stream) (new_stream_converter FormatAnthropic FormatOpenAI ''m'')) =
   [(0, ''a'', ''ls'', []), (1, ''b'', ''cat'', []), (1, [], [], ''{}''), (0, [], [], ''[]'')]"
proof -
  have t: "trunc_int 3 = 3" by (simp add: trunc_int_def)
  note d = tool_stream_def tool_event_def tool_start_def tool_use_start_def input_json_delta_def jint_def Let_def t
  have f: "first_starts (take n tool_stream) = (if n = 0 then [] else if n = 1 then [1] else [1, 3])" if "n \<le> 4" for n
    using that by (auto simp: d first_starts_def List.map_filter_def numeral_eq_Suc le_Suc_eq)
  have s: "first_starts tool_stream = [1, 3]" using f [of 4] by (simp add: tool_stream_def)
  have "map fragment_of tool_stream = [None, None, Some 3, Some 1]" by (simp add: d fragment_of_def)
  then have g: "fragment_of (tool_stream ! n) = [None, None, Some 3, Some 1] ! n" if "n < 4" for n
    using that nth_map [of n tool_stream fragment_of] by (simp add: tool_stream_def)
  have l: "length tool_stream = 4" by (simp add: tool_stream_def)
  have ev: "List.map_filter tool_event tool_stream =
      [(1, ''a'', ''ls'', []), (3, ''b'', ''cat'', []), (3, [], [], ''{}''), (1, [], [], ''[]'')]"
    by (simp add: d List.map_filter_def)
  have "starts_first tool_stream"
    unfolding starts_first_def l by (auto simp: f g numeral_eq_Suc less_Suc_eq)
  from tool_calls_numbered [OF _ this, of "map (\<lambda>e. (0, 0, e)) tool_stream" "''m''"]
  show ?thesis by (simp add: s ev position_def comp_def)
qed

section \<open>Frames\<close>

lemma split_on_no: "c \<notin> set s \<Longrightarrow> split_on c s = [s]"
  by (induction s) auto

lemma split_on_append: "c \<notin> set s \<Longrightarrow> split_on c (s @ c # t) = s # split_on c t"
  by (induction s) auto

lemma split_join: "ss \<noteq> [] \<Longrightarrow> \<forall>s \<in> set ss. c \<notin> set s \<Longrightarrow> split_on c (join_with [c] ss) = ss"
proof (induction ss rule: induct_list012)
  case (3 s t ss)
  then show ?case by (simp add: split_on_append)
qed (auto simp: split_on_no)

definition frame :: "string \<Rightarrow> string" where
  "frame data = ''data: '' @ data @ [CHR 0x0A, CHR 0x0A]"

lemma write_parts:
  "\<forall>s \<in> set ss. s \<noteq> [] \<Longrightarrow>
     fold (\<lambda>part sc. if part = [] then sc else write_sse part sc) ss sc =
       sc\<lparr>sc_out := sc_out sc @ map frame ss, sc_written_frames := sc_written_frames sc + int (length ss)\<rparr>"
  by (induction ss arbitrary: sc) (simp_all add: write_sse_def frame_def)

lemma join_mem: "c \<in> set (join_with [c] ss) \<longleftrightarrow> 2 \<le> length ss \<or> (\<exists>s \<in> set ss. c \<in> set s)"
  by (induction ss rule: induct_list012) auto

text \<open>The frames a client of the converted stream receives are exactly the events the converter made of
  the chunk, one frame per event in order: the bytes joined with NUL and split again neither merge nor
  drop nor tear an event, when the printed events are not empty, hold no NUL and are not the end mark.\<close>

lemma frames_are_events:
  assumes "jc_unmarshal codec data = Inr (JObj chunk)" and "data \<noteq> []" and "data \<noteq> ''[DONE]''"
    and "sc_from sc = FormatOpenAI" and "sc_to sc = FormatAnthropic"
    and "\<forall>v. jc_marshal codec v \<noteq> [] \<and> CHR 0x00 \<notin> set (jc_marshal codec v) \<and> jc_marshal codec v \<noteq> ''[DONE]''"
  shows "let (sc1, events) = openai_event_to_anthropic chunk sc
    in process_event_block codec t_id t_created [''data: '' @ data] sc =
      sc1\<lparr>sc_out := sc_out sc1 @ map (\<lambda>e. frame (jc_marshal codec e)) events,
          sc_written_frames := sc_written_frames sc1 + int (length events)\<rparr>"
proof -
  obtain sc1 events where e: "openai_event_to_anthropic chunk sc = (sc1, events)" by fastforce
  let ?ss = "map (jc_marshal codec) events"
  have ok: "\<forall>s \<in> set ?ss. s \<noteq> [] \<and> CHR 0x00 \<notin> set s \<and> s \<noteq> ''[DONE]''" using assms(6) by auto
  have "event_data [''data: '' @ data] = data"
    by (simp add: event_data_def has_prefix_def trim_prefix_def)
  then have "process_event_block codec t_id t_created [''data: '' @ data] sc =
      write_converted (join_with [CHR 0x00] ?ss) sc1"
    using assms(1-5) e
    by (simp add: process_event_block_def convert_chunk_def openai_chunk_to_anthropic_def
        unmarshal_object_def unmarshal_map_def)
  also have "\<dots> = sc1\<lparr>sc_out := sc_out sc1 @ map frame ?ss,
      sc_written_frames := sc_written_frames sc1 + int (length ?ss)\<rparr>"
  proof (cases "length ?ss \<le> 1")
    case True
    then consider "?ss = []" | s where "?ss = [s]" by (cases ?ss) auto
    then show ?thesis
    proof cases
      case 1 then show ?thesis by (simp add: write_converted_def)
    next
      case 2 then show ?thesis using ok by (auto simp: write_converted_def write_sse_def frame_def)
    qed
  next
    case False
    then have two: "2 \<le> length ?ss" by simp
    then have nul: "CHR 0x00 \<in> set (join_with [CHR 0x00] ?ss)" by (simp add: join_mem)
    then have "join_with [CHR 0x00] ?ss \<noteq> []" "join_with [CHR 0x00] ?ss \<noteq> ''[DONE]''" by auto
    moreover have "split_on (CHR 0x00) (join_with [CHR 0x00] ?ss) = ?ss"
      using two ok by (intro split_join) auto
    ultimately show ?thesis using nul ok by (simp add: write_converted_def write_parts)
  qed
  finally show ?thesis by (simp add: e comp_def)
qed

lemma frames_are_events_witness:
  "\<exists>codec chunk. sc_written_frames (process_event_block codec 0 0 [''data: x'']
     (new_stream_converter FormatOpenAI FormatAnthropic ''m'')) = 2 \<and> jc_unmarshal codec ''x'' = Inr (JObj chunk)"
proof -
  define chunk where "chunk = sample_chunk [(''role'', JStr ''assistant''),
    (''tool_calls'', JArr [JObj (sample_call 0 ''t'' ''ls'' [])])] []"
  define codec where "codec = \<lparr>jc_unmarshal = (\<lambda>s. Inr (JObj chunk)), jc_marshal = (\<lambda>v. ''{}'')\<rparr>"
  let ?sc = "new_stream_converter FormatOpenAI FormatAnthropic ''m''"
  have h: "jc_unmarshal codec ''x'' = Inr (JObj chunk)" "''x'' \<noteq> []" "''x'' \<noteq> ''[DONE]''"
    "sc_from ?sc = FormatOpenAI" "sc_to ?sc = FormatAnthropic"
    "\<forall>v. jc_marshal codec v \<noteq> [] \<and> CHR 0x00 \<notin> set (jc_marshal codec v) \<and> jc_marshal codec v \<noteq> ''[DONE]''"
    by (simp_all add: codec_def new_stream_converter_def)
  have "sc_msg_started (fst (chunk_start chunk ?sc))"
    by (simp add: chunk_start_def chunk_def start_message_def new_stream_converter_def)
  then have "length (snd (openai_event_to_anthropic chunk ?sc)) = 2 \<and>
      sc_written_frames (fst (openai_event_to_anthropic chunk ?sc)) = 0"
    by (subst (1 2) openai_event_as_atoms)
      (simp_all add: chunk_def chunk_start_def start_message_def new_stream_converter_def atoms_def Let_def
        emit_tool_call_def open_tool_def call_function_def [symmetric])
  with frames_are_events [OF h, of 0 0] h(1) show ?thesis
    by (intro exI [of _ codec] exI [of _ chunk]) (auto simp: split_beta Let_def)
qed

end
