(* ===== verification/GatewayProps.thy ===== *)
theory GatewayProps
  imports GatewayRequest KeyPoolProps ConvStreamProps
begin

text \<open>
  What a client request to the gateway gets: failures of endpoints are absorbed, an answer is the one of a
  single upstream call, each served request is counted, requests refused before routing change nothing.
\<close>

section \<open>The loop\<close>

text \<open>What the two loops share: a pass that goes on to the next endpoint keeps what the client and the
  books have; \<open>keeps\<close> says what that is.\<close>

locale retry_loop =
  fixes step :: "turn \<Rightarrow> request_state \<Rightarrow> (request_state \<times> turn_end) option"
    and keeps :: "request_state \<Rightarrow> request_state \<Rightarrow> bool"
  assumes keeps_refl: "keeps st st"
    and keeps_trans: "keeps st st1 \<Longrightarrow> keeps st1 st2 \<Longrightarrow> keeps st st2"
    and again_keeps: "step tn st = Some (st1, Again) \<Longrightarrow> keeps st st1"
begin

lemma loop_end:
  assumes "request_loop step turns n st = Some (st', e)"
  shows "e \<noteq> Again \<and> (\<exists>i st0. keeps st st0 \<and> step (turns i) st0 = Some (st', e))"
proof -
  define P where "P = (\<lambda>s. \<lambda>t (n :: nat) st (y :: request_state \<times> turn_end).
    s = step \<longrightarrow> t = turns \<longrightarrow> snd y \<noteq> Again \<and> (\<exists>i st0. keeps st st0 \<and> step (turns i) st0 = Some y))"
  have "P step turns n st (st', e)"
  proof (rule request_loop.raw_induct [where P = P, OF _ assms], unfold P_def, intro impI)
    fix rec_loop s t n st and y :: "request_state \<times> turn_end"
    assume IH: "\<And>s t n st y. rec_loop s t n st = Some y \<Longrightarrow> s = step \<longrightarrow> t = turns \<longrightarrow>
        snd y \<noteq> Again \<and> (\<exists>i st0. keeps st st0 \<and> step (turns i) st0 = Some y)"
      and body: "(case s (t n) st of None \<Rightarrow> None
        | Some (st', e) \<Rightarrow> if e = Again then rec_loop s t (n + 1) st' else Some (st', e)) = Some y"
      and eq: "s = step" "t = turns"
    from body eq obtain st1 e1 where one: "step (turns n) st = Some (st1, e1)" by (auto split: option.splits)
    show "snd y \<noteq> Again \<and> (\<exists>i st0. keeps st st0 \<and> step (turns i) st0 = Some y)"
    proof (cases "e1 = Again")
      case True
      with body eq one have "rec_loop step turns (n + 1) st1 = Some y" by simp
      with IH have "snd y \<noteq> Again" "\<exists>i st0. keeps st1 st0 \<and> step (turns i) st0 = Some y" by blast+
      moreover have "keeps st st1" using again_keeps one True by simp
      ultimately show ?thesis using keeps_trans by blast
    next
      case False
      with body eq one keeps_refl [of st] show ?thesis by auto
    qed
  qed
  then show ?thesis by (simp add: P_def)
qed

end

section \<open>The parts of a pass\<close>

lemma on_simps [simp]:
  "rq_writer (on_gw f st) = rq_writer st" "rq_writer (on_sched g st) = rq_writer st"
  "rq_writer (on_writer h st) = h (rq_writer st)"
  "rq_metrics (on_gw f st) = rq_metrics st" "rq_metrics (on_sched g st) = rq_metrics st"
  "rq_metrics (on_writer h st) = rq_metrics st"
  "rq_sent (on_gw f st) = rq_sent st" "rq_sent (on_sched g st) = rq_sent st" "rq_sent (on_writer h st) = rq_sent st"
  "rq_fallback (on_gw f st) = rq_fallback st" "rq_fallback (on_sched g st) = rq_fallback st"
  "rq_fallback (on_writer h st) = rq_fallback st"
  "rq_gw (on_writer h st) = rq_gw st" "rq_gw (on_sched g st) = (rq_gw st)\<lparr>gw_sched := g (gw_sched (rq_gw st))\<rparr>"
  by (simp_all add: on_gw_def on_sched_def on_writer_def)

lemma endpoint_failure_simps [simp]:
  "rq_writer (endpoint_failure r reason tn st) = rq_writer st"
  "rq_metrics (endpoint_failure r reason tn st) = rq_metrics st"
  "rq_sent (endpoint_failure r reason tn st) = rq_sent st"
  "rq_fallback (endpoint_failure r reason tn st) = rq_fallback st"
  by (simp_all add: endpoint_failure_def)

lemma count_simps [simp]:
  "rq_writer (count_load env rq tn r resp st) = rq_writer st" "rq_metrics (count_load env rq tn r resp st) = rq_metrics st"
  "rq_sent (count_load env rq tn r resp st) = rq_sent st" "rq_fallback (count_load env rq tn r resp st) = rq_fallback st"
  "rq_writer (record_metric rq tn r resp st) = rq_writer st" "rq_sent (record_metric rq tn r resp st) = rq_sent st"
  "rq_fallback (record_metric rq tn r resp st) = rq_fallback st" "rq_gw (record_metric rq tn r resp st) = rq_gw st"
  by (simp_all add: count_load_def record_metric_def)

lemma pick_loop_mem: "snd (pick_loop now rs soonest m) = Inr r \<Longrightarrow> r \<in> set rs \<and> ra_enabled r \<and> ra_available r"
  by (induction rs arbitrary: soonest m) (auto simp: Let_def split_beta split: if_splits)

lemma pick_available_mem:
  "pick_available rt rs fmt now m = (m', Inr r) \<Longrightarrow> r \<in> set rs \<and> ra_enabled r \<and> ra_available r"
  using pick_loop_mem [of now "stable_sort (pick_less rt now (mg_counters m) fmt) rs" zero_time
      "m\<lparr>mg_counters := touch_counters rt now rs (mg_counters m)\<rparr>" r]
  by (simp add: pick_available_def Let_def)

definition quiet :: "request_state \<Rightarrow> request_state \<Rightarrow> bool" where
  "quiet st st' \<longleftrightarrow> rq_metrics st' = rq_metrics st \<and> rq_sent st' = rq_sent st \<and> rq_fallback st' = rq_fallback st"

lemma select_cases:
  assumes "select_backend env rq tn fail st = Some (st', res)"
  shows "quiet st st' \<and>
    (case res of
       Inl e \<Rightarrow> e = Again \<and> rq_writer st' = rq_writer st \<or> e = Done 503 \<and> (\<exists>msg. rq_writer st' = fail msg (rq_writer st))
     | Inr r \<Rightarrow> r \<in> set (cq_rapis rq) \<and> ra_enabled r \<and> ra_available r \<and> rq_writer st' = rq_writer st)"
proof (cases "pick_available (ge_rt env) (cq_rapis rq) (cq_format rq) (tn_pick tn) (gw_sched (rq_gw st))")
  case (Pair m picked)
  show ?thesis
  proof (cases picked)
    case (Inr r)
    with assms Pair have "st' = on_sched (\<lambda>_. m) st" "res = Inr r" by (simp_all add: select_backend_def)
    then show ?thesis using pick_available_mem [of "ge_rt env" _ _ _ _ m r] Pair Inr by (auto simp: quiet_def)
  next
    case (Inl a)
    obtain err until where a: "a = (err, until)" by fastforce
    show ?thesis using assms Pair Inl a
      by (auto simp: select_backend_def Let_def quiet_def split: if_splits option.splits prod.splits)
  qed
qed

lemma try_pass_served_at:
  "try_pass env r s a ks gw = (gw', Inr (Served k resp)) \<Longrightarrow> at_outcome a = Upstream resp \<and> is_success (rs_status resp)"
  by (auto simp: try_pass_def Let_def split_beta split: if_splits sum.splits outcome.splits)

lemma try_loop_served_at:
  assumes "try_loop env r s attempts n ks gw = Some (gw', m, Served k resp)"
  shows "at_outcome (attempts m) = Upstream resp \<and> is_success (rs_status resp)"
proof -
  define P where "P = (\<lambda>env :: gw_env. \<lambda>r :: rapi. \<lambda>s :: string. \<lambda>(attempts :: nat \<Rightarrow> attempt) (n :: nat) (ks :: platform_key list) (gw :: gateway) (y :: gateway \<times> nat \<times> try_result).
    \<forall>k resp. snd (snd y) = Served k resp \<longrightarrow> at_outcome (attempts (fst (snd y))) = Upstream resp \<and> is_success (rs_status resp))"
  have "P env r s attempts n ks gw (gw', m, Served k resp)"
  proof (rule try_loop.raw_induct [where P = P, OF _ assms])
    fix loop env r s attempts n ks gw y
    assume IH: "\<And>env r s attempts n ks gw y. loop env r s attempts n ks gw = Some y \<Longrightarrow> P env r s attempts n ks gw y"
      and body: "(case try_pass env r s (attempts n) ks gw of
        (gw', Inl ks') \<Rightarrow> loop env r s attempts (n + 1) ks' gw' | (gw', Inr res) \<Rightarrow> Some (gw', n, res)) = Some y"
    show "P env r s attempts n ks gw y"
    proof (cases "try_pass env r s (attempts n) ks gw")
      case (Pair gw1 res)
      with body IH try_pass_served_at [of env r s "attempts n" ks gw gw1] show ?thesis
        by (cases res) (auto simp: P_def)
    qed
  qed
  then show ?thesis by (simp add: P_def)
qed
lemma forward_cases:
  assumes "forward env rq tn streaming r st = Some (st', res)"
  shows "rq_writer st' = rq_writer st \<and> rq_metrics st' = rq_metrics st \<and>
    (case res of
       Inl e \<Rightarrow> e = Again \<or> e = Crashed
     | Inr (fmt, resp) \<Rightarrow> fmt = pick_target_format (ge_rt env) r (cq_format rq) \<and>
         (\<exists>n. at_outcome (tn_attempts tn n) = Upstream resp) \<and> is_success (rs_status resp))"
  using assms try_loop_served_at
  by (fastforce simp: forward_def try_key_for_rapi_def Let_def
      split: if_splits outcome_or_panic.splits sum.splits option.splits prod.splits try_result.splits)
section \<open>Frames\<close>

text \<open>Converting an event writes nothing; the frames written are counted one by one.\<close>

definition written :: "stream_conv \<Rightarrow> string list \<times> int" where
  "written sc = (sc_out sc, sc_written_frames sc)"

lemma written_updates [simp]:
  "written (sc\<lparr>sc_msg_started := a\<rparr>) = written sc" "written (sc\<lparr>sc_block_started := a\<rparr>) = written sc"
  "written (sc\<lparr>sc_block_index := i\<rparr>) = written sc" "written (sc\<lparr>sc_tool_open := a\<rparr>) = written sc"
  "written (sc\<lparr>sc_tool_idx := m\<rparr>) = written sc" "written (sc\<lparr>sc_gemini_first_sent := a\<rparr>) = written sc"
  by (simp_all add: written_def)

lemma written_steps [simp]:
  "written (fst (start_message msg_id acc)) = written (fst acc)"
  "written (fst (emit_text msg_id content acc)) = written (fst acc)"
  "written (fst (open_tool i tool_id name acc)) = written (fst acc)"
  "written (fst (finish_message finish acc)) = written (fst acc)"
proof -
  show s: "written (fst (start_message msg_id acc)) = written (fst acc)" for acc
    by (simp add: start_message_def split_beta Let_def)
  show "written (fst (emit_text msg_id content acc)) = written (fst acc)"
    using s by (simp add: emit_text_def split_beta Let_def)
  show "written (fst (open_tool i tool_id name acc)) = written (fst acc)"
    by (simp add: open_tool_def split_beta Let_def)
  show "written (fst (finish_message finish acc)) = written (fst acc)"
    by (simp add: finish_message_def split_beta Let_def)
qed

lemma written_tool_call [simp]: "written (fst (emit_tool_call call acc)) = written (fst acc)"
  by (simp add: emit_tool_call_def split_beta Let_def)

lemma written_tool_calls [simp]: "written (fst (fold emit_tool_call calls acc)) = written (fst acc)"
  by (induction calls arbitrary: acc) simp_all

lemma written_chunk: "written (fst (convert_chunk codec t_id t_created data sc)) = written sc"
proof -
  have a: "written (fst (anthropic_event_to_openai t_id t_created event sc)) = written sc" for event
    by (simp add: anthropic_event_to_openai_def Let_def split_beta split: option.split)
  have o: "written (fst (openai_event_to_anthropic chunk sc)) = written sc" for chunk
    by (simp add: openai_event_to_anthropic_def Let_def split: json.split list.split)
  have g: "written (fst (gemini_event_to_openai codec t_id t_created event sc)) = written sc" for event
    by (simp add: gemini_event_to_openai_def Let_def split_beta)
  show ?thesis
    by (simp add: convert_chunk_def anthropic_chunk_to_openai_def gemini_chunk_to_openai_def
        openai_chunk_to_anthropic_def split_beta Let_def a o g split: sum.split)
qed

definition frames_counted :: "stream_conv \<Rightarrow> bool" where
  "frames_counted sc \<longleftrightarrow> sc_written_frames sc = int (length (sc_out sc))"

lemma counted_written: "written sc' = written sc \<Longrightarrow> frames_counted sc \<Longrightarrow> frames_counted sc'"
  by (simp add: written_def frames_counted_def)

lemma counted_write: "frames_counted sc \<Longrightarrow> frames_counted (write_sse data sc)"
  by (simp add: frames_counted_def write_sse_def)

lemma counted_converted: "frames_counted sc \<Longrightarrow> frames_counted (write_converted text sc)"
proof -
  have "frames_counted sc \<Longrightarrow> frames_counted (fold (\<lambda>part sc. if part = [] then sc else write_sse part sc) ps sc)" for ps
    by (induction ps arbitrary: sc) (simp_all add: counted_write)
  then show "frames_counted sc \<Longrightarrow> frames_counted (write_converted text sc)"
    by (simp add: write_converted_def counted_write)
qed

lemma counted_block: "frames_counted sc \<Longrightarrow> frames_counted (process_event_block codec t_id t_created lines sc)"
  using written_chunk [of codec t_id t_created "event_data lines" sc]
  by (auto simp: process_event_block_def Let_def counted_write split: prod.split sum.split
      intro!: counted_converted elim: counted_written)

lemma counted_run: "frames_counted sc \<Longrightarrow> frames_counted (fst (run_stream codec clock input failed sc))"
proof -
  assume sc: "frames_counted sc"
  have l: "frames_counted (snd (snd st)) \<Longrightarrow> frames_counted (snd (snd (run_line codec clock line st)))" for line st
    by (simp add: run_line_def split_beta Let_def counted_block)
  have "frames_counted (snd (snd st)) \<Longrightarrow> frames_counted (snd (snd (fold (run_line codec clock) lines st)))" for lines st
    by (induction lines arbitrary: st) (simp_all add: l)
  from this [of "(0, [], sc)"] sc show ?thesis by (simp add: run_stream_def split_beta Let_def counted_block)
qed

lemma copy_uncommitted:
  "copy_chunks gone n cs w c = (w', False, g) \<Longrightarrow> w' = w \<and> \<not> c"
  by (induction gone n cs w c rule: copy_chunks.induct) (auto split: if_splits)

text \<open>An answer of which nothing was passed on leaves the client's response untouched.\<close>

lemma stream_answer_uncommitted:
  assumes "stream_answer env rq tn fmt w = (w', False, g)"
  shows "w' = w"
proof (cases "fmt = cq_format rq")
  case True
  with assms copy_uncommitted [of "tn_gone tn" 0 "tn_chunks tn" w False w'] show ?thesis by (simp add: stream_answer_def)
next
  case False
  let ?sc = "fst (run_stream (up_codec env) (tn_events tn) (concat (map snd (tn_chunks tn)))
    (tn_read_failed tn) (new_stream_converter fmt (cq_format rq) (pr_model (cq_request rq))))"
  have "frames_counted ?sc" by (rule counted_run) (simp add: frames_counted_def new_stream_converter_def)
  moreover from False assms have "\<not> sc_written_frames ?sc > 0" "w' = fold write_body (sc_out ?sc) w"
    by (simp_all add: stream_answer_def split_beta Let_def)
  ultimately show ?thesis by (simp add: frames_counted_def)
qed
section \<open>Non-streaming requests\<close>

text \<open>The answer of one pass: the endpoint that served, its response and the text for the client.\<close>

definition plain_answer :: "upstream_env \<Rightarrow> request \<Rightarrow> turn \<Rightarrow> rapi \<Rightarrow> response \<Rightarrow> string \<Rightarrow> bool" where
  "plain_answer env rq tn r resp body \<longleftrightarrow>
     r \<in> set (cq_rapis rq) \<and> ra_enabled r \<and> ra_available r \<and>
     (\<exists>n. at_outcome (tn_attempts tn n) = Upstream resp) \<and> is_success (rs_status resp) \<and>
     client_body env rq tn (pick_target_format (ge_rt env) r (cq_format rq)) (rs_body resp) = Returned body"

definition served_metric :: "request \<Rightarrow> turn \<Rightarrow> rapi \<Rightarrow> response \<Rightarrow> metric" where
  "served_metric rq tn r resp =
     \<lparr>mt_rapi = ra_id r, mt_lapi = cq_lapi rq, mt_status = rs_status resp, mt_latency = tn_latency tn,
      mt_tokens = tokens_used rq resp\<rparr>"

lemma serve_response_cases:
  assumes "serve_response env rq tn r fmt resp st = (st', e)"
  shows "rq_metrics st' = rq_metrics st @ [served_metric rq tn r resp] \<and>
    (e = Crashed \<or> (\<exists>body. client_body env rq tn fmt (rs_body resp) = Returned body \<and> e = Done (rs_status resp) \<and>
       rq_writer st' = write_body body (put_header ''Content-Type'' ''application/json'' (rq_writer st))))"
  using assms
  by (auto simp: serve_response_def Let_def record_metric_def served_metric_def split: outcome_or_panic.splits)

lemma plain_turn_cases:
  assumes "plain_turn env rq tn st = Some (st', e)"
  shows "e = Crashed \<or>
    e = Again \<and> rq_writer st' = rq_writer st \<and> rq_metrics st' = rq_metrics st \<or>
    e = Done 503 \<and> rq_metrics st' = rq_metrics st \<and>
      (\<exists>msg. rq_writer st' = write_gateway_json_error (up_codec env) 503 msg ''service_unavailable'' (rq_writer st)) \<or>
    (\<exists>r resp body. plain_answer env rq tn r resp body \<and> e = Done (rs_status resp) \<and>
       rq_metrics st' = rq_metrics st @ [served_metric rq tn r resp] \<and>
       rq_writer st' = write_body body (put_header ''Content-Type'' ''application/json'' (rq_writer st)))"
proof -
  let ?fail = "\<lambda>msg. write_gateway_json_error (up_codec env) 503 msg ''service_unavailable''"
  from assms obtain st1 res where s: "select_backend env rq tn ?fail st = Some (st1, res)"
    by (auto simp: plain_turn_def split: option.splits)
  note sel = select_cases [OF s]
  show ?thesis
  proof (cases res)
    case (Inl e')
    with assms s sel show ?thesis by (auto simp: plain_turn_def quiet_def)
  next
    case (Inr r)
    with assms s obtain st2 res2 where f: "forward env rq tn False r st1 = Some (st2, res2)"
      by (auto simp: plain_turn_def split: option.splits)
    note fwd = forward_cases [OF f]
    show ?thesis
    proof (cases res2)
      case (Inl e')
      with assms s Inr f sel fwd show ?thesis by (auto simp: plain_turn_def quiet_def)
    next
      case (Inr a)
      obtain fmt resp where a: "a = (fmt, resp)" by fastforce
      have "serve_response env rq tn r fmt resp st2 = (st', e)"
        using assms s \<open>res = Inr r\<close> f Inr a by (simp add: plain_turn_def)
      from serve_response_cases [OF this] sel fwd \<open>res = Inr r\<close> Inr a show ?thesis
        by (auto simp: plain_answer_def quiet_def)
    qed
  qed
qed

interpretation plain: retry_loop "plain_turn env rq"
    "\<lambda>st st'. rq_writer st' = rq_writer st \<and> rq_metrics st' = rq_metrics st" for env rq
  by unfold_locales (use plain_turn_cases in fastforce)+

lemma plain_request_cases:
  assumes "handle_non_streaming_request env rq turns st = Some (st', Done status)"
  shows "status = 503 \<and> rq_metrics st' = rq_metrics st \<and>
      (\<exists>msg. rq_writer st' = write_gateway_json_error (up_codec env) 503 msg ''service_unavailable'' (rq_writer st)) \<or>
    (\<exists>i r resp body. plain_answer env rq (turns i) r resp body \<and> status = rs_status resp \<and>
       rq_metrics st' = rq_metrics st @ [served_metric rq (turns i) r resp] \<and>
       rq_writer st' = write_body body (put_header ''Content-Type'' ''application/json'' (rq_writer st)))"
proof -
  from plain.loop_end [OF assms [unfolded handle_non_streaming_request_def]]
  obtain i st0 where st0: "rq_writer st0 = rq_writer st" "rq_metrics st0 = rq_metrics st"
    and t: "plain_turn env rq (turns i) st0 = Some (st', Done status)" by blast
  from plain_turn_cases [OF t, unfolded st0 turn_end.simps] show ?thesis by blast
qed

text \<open>C28: A non-streaming request whose handler returns is answered in one of two ways. Either no endpoint
  could serve: 503 with the gateway's own error, and no request is counted. Or one endpoint of the
  model, enabled and available, answered with a status from 200 to 299: the client gets exactly that
  answer converted to its format, and exactly one request is counted. Failed attempts before
  it leave no trace in the response and in the counts.\<close>

theorem plain_request_answered:
  assumes "handle_non_streaming_request env rq turns st = Some (st', Done status)"
  shows "status = 503 \<and> rq_metrics st' = rq_metrics st \<and>
      (\<exists>msg. rq_writer st' = write_gateway_json_error (up_codec env) 503 msg ''service_unavailable'' (rq_writer st)) \<or>
    (\<exists>i r resp body. plain_answer env rq (turns i) r resp body \<and> status = rs_status resp \<and>
       rq_metrics st' = rq_metrics st @ [served_metric rq (turns i) r resp] \<and>
       rq_writer st' = write_body body (put_header ''Content-Type'' ''application/json'' (rq_writer st)))"
  by (rule plain_request_cases [OF assms])

text \<open>The status a client gets with a served non-streaming request is 200 whatever the upstream's was,
  while the status returned for the request log is the upstream's: a 201 or 204 is logged, never sent.\<close>

lemma plain_status_always_200:
  assumes "handle_non_streaming_request env rq turns st = Some (st', Done status)"
    and "status \<noteq> 503" and "wr_status (rq_writer st) = None"
  shows "wr_status (rq_writer st') = Some 200 \<and> 200 \<le> status \<and> status < 300"
  using plain_request_cases [OF assms(1)] assms(2,3)
  by (auto simp: plain_answer_def is_success_def write_body_def write_header_def put_header_def Let_def)
section \<open>Streaming requests\<close>

lemma routes_simps [simp]:
  "rq_writer (st\<lparr>rq_routes := rs\<rparr>) = rq_writer st" "rq_metrics (st\<lparr>rq_routes := rs\<rparr>) = rq_metrics st"
  by simp_all

lemma serve_stream_cases:
  assumes "serve_stream env rq tn r fmt resp st = (st', e)"
  shows "rq_metrics st' = rq_metrics st @ [served_metric rq tn r resp] \<and>
    (e = Again \<and> rq_writer st' = rq_writer st \<or>
     e = Done 200 \<and> (\<exists>c g. stream_answer env rq tn fmt (rq_writer st) = (rq_writer st', c, g) \<and> (c \<or> g)))"
proof -
  obtain w c g where a: "stream_answer env rq tn fmt (rq_writer st) = (w, c, g)" by (metis prod_cases3)
  have u: "\<not> c \<Longrightarrow> w = rq_writer st" using stream_answer_uncommitted [of env rq tn fmt "rq_writer st" w g] a by simp
  show ?thesis
    using assms a u by (auto simp: serve_stream_def Let_def record_metric_def served_metric_def split: if_splits)
qed

definition streamed :: "upstream_env \<Rightarrow> request \<Rightarrow> turn \<Rightarrow> writer \<Rightarrow> writer \<Rightarrow> bool" where
  "streamed env rq tn w w' \<longleftrightarrow>
     (\<exists>r resp c g. r \<in> set (cq_rapis rq) \<and> ra_enabled r \<and> ra_available r \<and>
        (\<exists>n. at_outcome (tn_attempts tn n) = Upstream resp) \<and> is_success (rs_status resp) \<and>
        stream_answer env rq tn (pick_target_format (ge_rt env) r (cq_format rq)) w = (w', c, g) \<and> (c \<or> g))"

lemma streamedI:
  "r \<in> set (cq_rapis rq) \<Longrightarrow> ra_enabled r \<Longrightarrow> ra_available r \<Longrightarrow> at_outcome (tn_attempts tn n) = Upstream resp \<Longrightarrow>
   is_success (rs_status resp) \<Longrightarrow>
   stream_answer env rq tn (pick_target_format (ge_rt env) r (cq_format rq)) w = (w', c, g) \<Longrightarrow> c \<or> g \<Longrightarrow>
   streamed env rq tn w w'"
  unfolding streamed_def by blast

lemma stream_turn_cases:
  assumes "stream_turn env rq tn st = Some (st', e)"
  shows "e = Crashed \<or>
    e = Again \<and> rq_writer st' = rq_writer st \<or>
    e = Done 503 \<and> (\<exists>msg. rq_writer st' = send_error_stream (up_codec env) msg (rq_writer st)) \<or>
    e = Done 200 \<and> streamed env rq tn (rq_writer st) (rq_writer st')"
proof -
  from assms obtain st1 res where s: "select_backend env rq tn (send_error_stream (up_codec env)) st = Some (st1, res)"
    by (auto simp: stream_turn_def split: option.splits)
  note sel = select_cases [OF s]
  show ?thesis
  proof (cases res)
    case (Inl e')
    with assms s sel show ?thesis by (auto simp: stream_turn_def)
  next
    case (Inr r)
    with assms s obtain st2 res2 where f: "forward env rq tn True r st1 = Some (st2, res2)"
      by (auto simp: stream_turn_def split: option.splits)
    note fwd = forward_cases [OF f]
    show ?thesis
    proof (cases res2)
      case (Inl e')
      with assms s Inr f sel fwd show ?thesis by (auto simp: stream_turn_def)
    next
      case (Inr a)
      obtain fmt resp where a: "a = (fmt, resp)" by fastforce
      have "serve_stream env rq tn r fmt resp st2 = (st', e)"
        using assms s \<open>res = Inr r\<close> f Inr a by (simp add: stream_turn_def)
      note serve = serve_stream_cases [OF this]
      have w: "rq_writer st2 = rq_writer st" using sel fwd \<open>res = Inr r\<close> by simp
      have r: "r \<in> set (cq_rapis rq)" "ra_enabled r" "ra_available r" using sel \<open>res = Inr r\<close> by simp_all
      have fmt: "fmt = pick_target_format (ge_rt env) r (cq_format rq)" and ok: "is_success (rs_status resp)"
        using fwd Inr a by simp_all
      from fwd Inr a obtain n where n: "at_outcome (tn_attempts tn n) = Upstream resp" by auto
      from serve consider "e = Again" "rq_writer st' = rq_writer st2"
        | c g where "e = Done 200" "stream_answer env rq tn fmt (rq_writer st2) = (rq_writer st', c, g)" "c \<or> g" by blast
      then show ?thesis using streamedI [OF r n ok] unfolding w fmt by cases blast+
    qed
  qed
qed

interpretation streaming: retry_loop "stream_turn env rq" "\<lambda>st st'. rq_writer st' = rq_writer st" for env rq
  by unfold_locales (use stream_turn_cases in fastforce)+

text \<open>C29: All the bytes a streaming client receives after the headers come from one upstream stream, or are
  the one error event of a request no endpoint could serve: an attempt that failed, or whose
  stream converted to no event, has written nothing when the next one starts, so two streams
  are never spliced into one response.\<close>

theorem stream_single_source:
  assumes "handle_streaming_request env rq True turns st = Some (st', Done status)"
  defines "w \<equiv> stream_headers (rq_writer st)"
  shows "status = 503 \<and> (\<exists>msg. rq_writer st' = send_error_stream (up_codec env) msg w) \<or>
    status = 200 \<and> (\<exists>i. streamed env rq (turns i) w (rq_writer st'))"
proof -
  have loop: "request_loop (stream_turn env rq) turns 0 (on_writer stream_headers st) = Some (st', Done status)"
    using assms(1) by (simp add: handle_streaming_request_def)
  have w: "rq_writer (on_writer stream_headers st) = w" by (simp add: w_def)
  from streaming.loop_end [OF loop] w
  obtain i st0 where st0: "rq_writer st0 = w" and t: "stream_turn env rq (turns i) st0 = Some (st', Done status)" by auto
  from stream_turn_cases [OF t, unfolded st0 turn_end.simps] show ?thesis by blast
qed

text \<open>An endpoint a failure can still cool down, with a cooldown configuration in range, and the instant until which a
  failure keeps it out.\<close>

definition live_at :: "int \<Rightarrow> instant \<Rightarrow> manager \<Rightarrow> bool" where
  "live_at i now m \<longleftrightarrow> (let (mc, d, _) = rapi_st_of i now m in
     m_state mc \<in> {Healthy, Cooling, PlatformFailed} \<and> 0 < now \<and> 0 < cc_max (e_cfg d) \<and>
     0 < cc_default (e_cfg d) \<and> 64 * cc_default (e_cfg d) < 2 ^ 63)"

definition backoff_until :: "int \<Rightarrow> instant \<Rightarrow> manager \<Rightarrow> instant" where
  "backoff_until i now m = (let (_, d, _) = rapi_st_of i now m in now + backoff_spec (e_cfg d) (e_consecutive d + 1))"

lemma rapi_st_of_put: "rapi_st_of i now (put_rapi i st m) = st"
  by (cases st) (simp add: rapi_st_of_def put_rapi_def rapi_entity_locked_def Let_def)

lemma mark_failure_verdict:
  assumes "live_at i t m"
  shows "snd (rapi_pickable now (rapi_st_of i now (fst (mark_failure i zero_time reason False t m)))) =
    (if now < backoff_until i t m then (False, backoff_until i t m) else (True, zero_time))"
proof -
  obtain mc d w where st: "rapi_st_of i t m = (mc, d, w)" by (cases "rapi_st_of i t m")
  note l = assms [unfolded live_at_def st prod.case Let_def]
  have "rapi_cooldown (e_cfg d) n False = backoff_spec (e_cfg d) n" for n
    using l by (intro rapi_cooldown_spec) simp_all
  moreover have "0 < backoff_spec (e_cfg d) n" for n using l by (simp add: backoff_spec_def)
  then have "t + backoff_spec (e_cfg d) n \<noteq> 0" for n using l add_pos_pos by (metis less_irrefl)
  ultimately show ?thesis using l
    by (auto simp: mark_failure_def on_rapi_def rapi_st_of_put backoff_until_def st rapi_session_live
        rapi_pickable_def Let_def rapi_advance_def advance_def op_simps)
qed

text \<open>C32: A stream that yields nothing for the client counts. Its endpoint, unless it is invalidated, is cooled
  down: no pick takes it before the instant its backoff ends, one step longer than after the failures before, and the
  request goes on to another. But the call is in the metrics and in the endpoint's rate counters as if it had served.\<close>

theorem empty_stream_counted:
  assumes "stream_answer env rq tn fmt (rq_writer st) = (w, False, False)"
    and "live_at (ra_id r) (tn_mark tn) (gw_sched (rq_gw st))"
    and "until = backoff_until (ra_id r) (tn_mark tn) (gw_sched (rq_gw st))"
  shows "\<exists>st'. serve_stream env rq tn r fmt resp st = (st', Again) \<and> rq_writer st' = w \<and>
    (\<forall>now. rapi_verdict now (gw_sched (rq_gw st')) r = (if now < until then (False, until) else (True, zero_time))) \<and>
    rq_retries st' = rq_retries st + 1 \<and>
    rq_metrics st' = rq_metrics st @ [served_metric rq tn r resp] \<and>
    mg_counters (gw_sched (rq_gw st')) =
      mg_counters (record_request (ge_rt env) (ra_id r) (tokens_used rq resp) (tn_record tn) (gw_sched (rq_gw st)))"
proof -
  let ?m = "record_request (ge_rt env) (ra_id r) (tokens_used rq resp) (tn_record tn) (gw_sched (rq_gw st))"
  define st' where "st' = fst (serve_stream env rq tn r fmt resp st)"
  have st': "serve_stream env rq tn r fmt resp st = (st', Again)" "rq_writer st' = w"
    "rq_retries st' = rq_retries st + 1"
    "rq_metrics st' = rq_metrics st @ [served_metric rq tn r resp]"
    "gw_sched (rq_gw st') = fst (mark_failure (ra_id r) zero_time ''empty stream'' False (tn_mark tn) ?m)"
    unfolding st'_def
    by (use assms(1) in \<open>simp_all add: serve_stream_def on_writer_def on_sched_def on_gw_def Let_def
      record_metric_def served_metric_def endpoint_failure_def count_load_def\<close>)
  have e: "rapi_st_of i t ?m = rapi_st_of i t (gw_sched (rq_gw st))" for i t
    by (simp add: record_request_def rapi_st_of_def rapi_entity_locked_def split_beta Let_def split: option.split)
  have l: "live_at (ra_id r) (tn_mark tn) ?m" using assms(2) by (simp add: live_at_def e)
  have u: "backoff_until (ra_id r) (tn_mark tn) ?m = until" by (simp add: assms(3) backoff_until_def e)
  have "mg_counters (gw_sched (rq_gw st')) = mg_counters ?m"
    by (simp add: st' mark_failure_def on_rapi_def put_rapi_def Let_def)
  with st' mark_failure_verdict [OF l] u show ?thesis by auto
qed

section \<open>What is sent upstream\<close>

definition well_sent :: "upstream_env \<Rightarrow> request \<Rightarrow> bool \<Rightarrow> sent \<Rightarrow> bool" where
  "well_sent env rq fallback s \<longleftrightarrow>
     (\<exists>r \<in> set (cq_rapis rq). st_rapi s = ra_id r \<and> st_url s \<noteq> [] \<and>
        st_format s = pick_target_format (ge_rt env) r (cq_format rq) \<and>
        upstream_body (up_codec env) rq r (st_format s) = Returned (Inr (st_body s))) \<and>
     (\<not> fallback \<longrightarrow> st_rapi s = ra_id (hd (cq_rapis rq)))"

definition all_well_sent :: "upstream_env \<Rightarrow> request \<Rightarrow> request_state \<Rightarrow> bool" where
  "all_well_sent env rq st \<longleftrightarrow> (\<forall>s \<in> set (rq_sent st). well_sent env rq (rq_fallback st) s)"

lemma replace_first_length: "length old \<le> length new \<Longrightarrow> length s \<le> length (replace_first s old new)"
  by (induction s old new rule: replace_first.induct) auto

lemma ensure_sse_nonempty: "u \<noteq> [] \<Longrightarrow> ensure_gemini_stream_sse u \<noteq> []"
  using replace_first_length [of "'':generateContent''" "'':streamGenerateContent''" u]
  by (auto simp: ensure_gemini_stream_sse_def Let_def)

lemma well_sent_simps [simp]:
  "all_well_sent env rq (st\<lparr>rq_gw := gw\<rparr>) = all_well_sent env rq st"
  "all_well_sent env rq (st\<lparr>rq_retries := n\<rparr>) = all_well_sent env rq st"
  "all_well_sent env rq (endpoint_failure r reason tn st) = all_well_sent env rq st"
  by (simp_all add: all_well_sent_def)

lemma well_sent_append:
  "all_well_sent env rq st \<Longrightarrow> well_sent env rq (rq_fallback st) s \<Longrightarrow>
   all_well_sent env rq (st\<lparr>rq_sent := rq_sent st @ [s]\<rparr>)"
  by (auto simp: all_well_sent_def)

lemma forward_sent:
  assumes "forward env rq tn streaming r st = Some (st', res)" and r: "r \<in> set (cq_rapis rq)"
    and ok: "all_well_sent env rq st"
  shows "all_well_sent env rq st'"
proof -
  define fmt where "fmt = pick_target_format (ge_rt env) r (cq_format rq)"
  define st1 where "st1 = (if ra_id r \<noteq> ra_id (hd (cq_rapis rq)) then st\<lparr>rq_fallback := True\<rparr> else st)"
  define url where "url = (if streaming \<and> fmt = FormatGemini \<and> is_google_native_base_url env (ra_base_url r)
    then ensure_gemini_stream_sse (resolve_upstream_url (ge_rt env) r fmt) else resolve_upstream_url (ge_rt env) r fmt)"
  have ok1: "all_well_sent env rq st1" using ok by (auto simp: st1_def all_well_sent_def well_sent_def)
  show ?thesis
  proof (cases "resolve_upstream_url (ge_rt env) r fmt = []")
    case True
    with assms show ?thesis by (auto simp: forward_def fmt_def Let_def)
  next
    case False
    have url: "url \<noteq> []" using ensure_sse_nonempty [OF False] False by (auto simp: url_def)
    have f: "forward env rq tn streaming r st =
      (case upstream_body (up_codec env) rq r fmt of
         Panicked \<Rightarrow> Some (st1, Inl Crashed)
       | Returned (Inl err) \<Rightarrow> Some (endpoint_failure r (''convert error: '' @ err) tn st1, Inl Again)
       | Returned (Inr body) \<Rightarrow>
           (let st2 = st1\<lparr>rq_sent := rq_sent st1 @ [\<lparr>st_rapi = ra_id r, st_url = url, st_format = fmt, st_body = body\<rparr>]\<rparr>
            in case try_key_for_rapi (gw_env.truncate env) r (cq_session rq) (tn_attempts tn) (rq_gw st2) of
                 None \<Rightarrow> None
               | Some (gw, n, PoolUnavailable) \<Rightarrow>
                   Some (st2\<lparr>rq_gw := handle_all_keys_unavailable r (tn_pool tn) gw,
                            rq_retries := rq_retries st2 + 1\<rparr>, Inl Again)
               | Some (gw, n, Served key resp) \<Rightarrow> Some (st2\<lparr>rq_gw := gw\<rparr>, Inr (fmt, resp))))"
      using False unfolding forward_def fmt_def [symmetric] st1_def url_def Let_def by simp
    show ?thesis
    proof (cases "upstream_body (up_codec env) rq r fmt")
      case (Returned b)
      show ?thesis
      proof (cases b)
        case (Inr body)
        let ?s = "\<lparr>st_rapi = ra_id r, st_url = url, st_format = fmt, st_body = body\<rparr>"
        have "well_sent env rq (rq_fallback st1) ?s"
          unfolding well_sent_def using r url Returned Inr
          by (intro conjI bexI [of _ r]) (simp_all add: fmt_def [symmetric] st1_def)
        from well_sent_append [OF ok1 this] show ?thesis using assms(1) Returned Inr
          unfolding f by (auto simp: Let_def split: option.splits prod.splits try_result.splits)
      qed (use assms(1) f Returned ok1 in auto)
    qed (use assms(1) f ok1 in simp)
  qed
qed

lemma serve_sent [simp]:
  "rq_sent (fst (serve_response env rq tn r fmt resp st)) = rq_sent st"
  "rq_fallback (fst (serve_response env rq tn r fmt resp st)) = rq_fallback st"
  "rq_sent (fst (serve_stream env rq tn r fmt resp st)) = rq_sent st"
  "rq_fallback (fst (serve_stream env rq tn r fmt resp st)) = rq_fallback st"
  by (simp_all add: serve_response_def serve_stream_def Let_def split_beta split: outcome_or_panic.split)
lemma plain_turn_parts:
  assumes "plain_turn env rq tn st = Some (st', e)"
  obtains (ended) fail where "select_backend env rq tn fail st = Some (st', Inl e)"
  | (failed) fail st1 r where "select_backend env rq tn fail st = Some (st1, Inr r)"
      "forward env rq tn False r st1 = Some (st', Inl e)"
  | (served) fail st1 r st2 fmt resp where "select_backend env rq tn fail st = Some (st1, Inr r)"
      "forward env rq tn False r st1 = Some (st2, Inr (fmt, resp))" "serve_response env rq tn r fmt resp st2 = (st', e)"
  using assms by (auto simp: plain_turn_def split: option.splits prod.splits sum.splits)

lemma stream_turn_parts:
  assumes "stream_turn env rq tn st = Some (st', e)"
  obtains (ended) fail where "select_backend env rq tn fail st = Some (st', Inl e)"
  | (failed) fail st1 r where "select_backend env rq tn fail st = Some (st1, Inr r)"
      "forward env rq tn True r st1 = Some (st', Inl e)"
  | (served) fail st1 r st2 fmt resp where "select_backend env rq tn fail st = Some (st1, Inr r)"
      "forward env rq tn True r st1 = Some (st2, Inr (fmt, resp))" "serve_stream env rq tn r fmt resp st2 = (st', e)"
  using assms by (auto simp: stream_turn_def split: option.splits prod.splits sum.splits)

lemma turn_sent:
  assumes "all_well_sent env rq st"
  shows "plain_turn env rq tn st = Some (st', e) \<Longrightarrow> all_well_sent env rq st'"
    and "stream_turn env rq tn st = Some (st', e) \<Longrightarrow> all_well_sent env rq st'"
proof -
  have sel: "all_well_sent env rq st1" "\<And>r. res = Inr r \<Longrightarrow> r \<in> set (cq_rapis rq)"
    if "select_backend env rq tn fail st = Some (st1, res)" for fail st1 res
    using select_cases [OF that] assms by (auto simp: quiet_def all_well_sent_def)
  have fwd: "all_well_sent env rq st2"
    if "select_backend env rq tn fail st = Some (st1, Inr r)" "forward env rq tn s r st1 = Some (st2, res)"
    for fail st1 r s st2 res
    using forward_sent [OF that(2) sel(2) [OF that(1) refl] sel(1) [OF that(1)]] .
  have serve: "all_well_sent env rq (fst (serve_response env rq tn r fmt resp st2)) = all_well_sent env rq st2"
    "all_well_sent env rq (fst (serve_stream env rq tn r fmt resp st2)) = all_well_sent env rq st2" for r fmt resp st2
    by (simp_all add: all_well_sent_def)
  show "all_well_sent env rq st'" if "plain_turn env rq tn st = Some (st', e)"
    using that
  proof (cases rule: plain_turn_parts)
    case (served fail st1 r st2 fmt resp)
    with fwd serve(1) [of r fmt resp st2] show ?thesis by simp
  qed (use sel fwd in blast)+
  show "all_well_sent env rq st'" if "stream_turn env rq tn st = Some (st', e)"
    using that
  proof (cases rule: stream_turn_parts)
    case (served fail st1 r st2 fmt resp)
    with fwd serve(2) [of r fmt resp st2] show ?thesis by simp
  qed (use sel fwd in blast)+
qed

interpretation plain_sent: retry_loop "plain_turn env rq" "\<lambda>st st'. all_well_sent env rq st \<longrightarrow> all_well_sent env rq st'" for env rq
  by unfold_locales (use turn_sent in blast)+

interpretation streaming_sent: retry_loop "stream_turn env rq" "\<lambda>st st'. all_well_sent env rq st \<longrightarrow> all_well_sent env rq st'"
  for env rq
  by unfold_locales (use turn_sent in blast)+

text \<open>C30: Every request sent upstream goes to an endpoint of the model's chain, in the format chosen for that
  endpoint, with the body converted for it and its own model name; and unless the request is
  flagged as a fallback it went to the first endpoint of the chain only.\<close>

theorem sent_requests_formed:
  assumes "handle_non_streaming_request env rq turns st = Some (st', e) \<or>
      handle_streaming_request env rq can_flush turns st = Some (st', e)"
    and "rq_sent st = []"
  shows "\<forall>s \<in> set (rq_sent st').
    (\<exists>r \<in> set (cq_rapis rq). st_rapi s = ra_id r \<and> st_url s \<noteq> [] \<and>
        st_format s = pick_target_format (ge_rt env) r (cq_format rq) \<and>
        upstream_body (up_codec env) rq r (st_format s) = Returned (Inr (st_body s))) \<and>
    (\<not> rq_fallback st' \<longrightarrow> st_rapi s = ra_id (hd (cq_rapis rq)))"
proof -
  let ?I = "all_well_sent env rq"
  have start: "?I st" "?I (on_writer f st)" for f using assms(2) by (simp_all add: all_well_sent_def)
  have "?I st'"
  proof (cases "handle_non_streaming_request env rq turns st = Some (st', e)")
    case True
    from plain_sent.loop_end [OF this [unfolded handle_non_streaming_request_def]] start(1) turn_sent(1)
    show ?thesis by blast
  next
    case False
    with assms(1) have s: "handle_streaming_request env rq can_flush turns st = Some (st', e)" by blast
    show ?thesis
    proof (cases can_flush)
      case True
      with s have "request_loop (stream_turn env rq) turns 0 (on_writer stream_headers st) = Some (st', e)"
        by (simp add: handle_streaming_request_def)
      from streaming_sent.loop_end [OF this] start(2) turn_sent(2) show ?thesis by blast
    qed (use s start(2) in \<open>auto simp: handle_streaming_request_def\<close>)
  qed
  then show ?thesis by (simp add: all_well_sent_def well_sent_def)
qed

section \<open>Requests refused before routing\<close>

definition refusal :: "int \<Rightarrow> (writer \<Rightarrow> writer) \<Rightarrow> bool" where
  "refusal status answer \<longleftrightarrow>
     wr_status (answer new_writer) = Some status \<and> wr_body (answer new_writer) \<noteq> []"

lemma refusals [simp]:
  "refusal status (http_error text status)"
  "refusal status (write_gateway_json_error codec status msg ty)"
  by (simp_all add: refusal_def http_error_def write_gateway_json_error_def write_body_def write_header_def
      put_header_def new_writer_def Let_def)

lemma parse_refused:
  "parse_incoming env dec inc body = Returned (Inl (status, answer)) \<Longrightarrow> status = 400 \<and> refusal status answer"
  by (auto simp: parse_incoming_def Let_def split: if_splits sum.splits outcome_or_panic.splits)

lemma route_refused:
  "route env db model = Inl (status, answer) \<Longrightarrow> refusal status answer \<and> status \<in> {401, 503} \<and>
     (status = 401 \<longleftrightarrow> gd_lapi db (to_lower (rt_lower (ge_rt env)) model) = None)"
  by (auto simp: route_def Let_def split: if_splits option.splits)

lemma route_accepted:
  "route env db model = Inr x \<Longrightarrow> gd_lapi db (to_lower (rt_lower (ge_rt env)) model) \<noteq> None"
  by (auto simp: route_def Let_def split: if_splits option.splits)

lemma handle_routed:
  assumes "in_method inc = ''POST''" and "in_body inc = Inr body"
    and "parse_incoming env dec inc body = Returned (Inr (canonical, req, s))" and "route env db (pr_model req) = Inr x"
    and "handle_chat_completions env dec db inc can_flush turns gw = Some (st, trends, Done status)"
  shows "trends \<noteq> []"
  using assms
  by (auto simp: handle_chat_completions_def Let_def simp del: split_paired_All split: prod.splits option.splits if_splits)

lemma new_request_simps [simp]:
  "rq_gw (new_request_state gw w) = gw" "rq_sent (new_request_state gw w) = []"
  "rq_metrics (new_request_state gw w) = []" "rq_writer (new_request_state gw w) = w"
  by (simp_all add: new_request_state_def)

text \<open>C31: A request the handler refuses before it picks an endpoint (method, size, format, unknown or
  disabled model, no endpoint) leaves the scheduler, the blacklist, the metrics and the trends as they were, sends nothing
  upstream, and gets a status of its own with a body; no other request is answered without an attempt
  to pick an endpoint.\<close>

theorem refused_request_untouched:
  assumes "handle_chat_completions env dec db inc can_flush turns gw = Some (st, trends, Done status)"
    and "trends = []"
  shows "rq_gw st = gw \<and> rq_sent st = [] \<and> rq_metrics st = [] \<and>
    status \<in> {400, 401, 405, 413, 503} \<and> wr_status (rq_writer st) = Some status \<and> wr_body (rq_writer st) \<noteq> [] \<and>
    (status = 401 \<longleftrightarrow> in_method inc = ''POST'' \<and> (\<exists>body canonical req s. in_body inc = Inr body \<and>
       parse_incoming env dec inc body = Returned (Inr (canonical, req, s)) \<and>
       gd_lapi db (to_lower (rt_lower (ge_rt env)) (pr_model req)) = None))"
proof -
  have reply: ?thesis if "st = on_writer answer (new_request_state gw new_writer)" "refusal status answer"
    "status \<in> {400, 401, 405, 413, 503}"
    "status = 401 \<longleftrightarrow> in_method inc = ''POST'' \<and> (\<exists>body canonical req s. in_body inc = Inr body \<and>
       parse_incoming env dec inc body = Returned (Inr (canonical, req, s)) \<and>
       gd_lapi db (to_lower (rt_lower (ge_rt env)) (pr_model req)) = None)" for answer
    using that by (simp add: refusal_def)
  show ?thesis
  proof (cases "in_method inc = ''POST''")
    case False
    with assms show ?thesis by (intro reply) (auto simp: handle_chat_completions_def Let_def)
  next
    case post: True
    show ?thesis
    proof (cases "in_body inc")
      case (Inl big)
      show ?thesis
      proof (cases big)
        case True
        with assms post Inl show ?thesis by (intro reply) (auto simp: handle_chat_completions_def Let_def)
      next
        case False
        with assms post Inl show ?thesis by (intro reply) (auto simp: handle_chat_completions_def Let_def)
      qed
    next
      case body: (Inr body)
      show ?thesis
      proof (cases "parse_incoming env dec inc body")
        case Panicked
        with assms post body show ?thesis by (simp add: handle_chat_completions_def Let_def)
      next
        case (Returned res)
        show ?thesis
        proof (cases res)
          case (Inl a)
          obtain code answer where a: "a = (code, answer)" by fastforce
          from parse_refused [OF Returned [unfolded Inl a]] assms post body Returned Inl a show ?thesis
            by (intro reply [of answer]) (auto simp: handle_chat_completions_def Let_def)
        next
          case (Inr c)
          obtain canonical req s where c: "c = (canonical, req, s)" by (cases c)
          show ?thesis
          proof (cases "route env db (pr_model req)")
            case (Inl a)
            obtain code answer where a: "a = (code, answer)" by fastforce
            from route_refused [OF Inl [unfolded a]] assms post body Returned Inr c Inl a show ?thesis
              by (intro reply [of answer]) (auto simp: handle_chat_completions_def Let_def)
          next
            case (Inr x)
            from handle_routed [OF post body Returned [unfolded \<open>res = Inr c\<close> c] Inr assms(1)] assms(2)
            show ?thesis by simp
          qed
        qed
      qed
    qed
  qed
qed

section \<open>A client that hangs up\<close>

text \<open>C33: A call that fails because the client went away (\<open>context canceled\<close>) is taken for a failure of the key: a
  key that could still be used is taken out of the pool for the cooldown, for every other client too.\<close>

theorem client_cancel_cools_key:
  assumes "try_pass env r session a ks gw = (gw', Inl ks')" and "at_outcome a = UpstreamError ''context canceled'' False"
    and "gateway_inv gw" and "distinct (map pk_id ks)" and "fails_past env len hi a"
    and "shortest_cooldown (mg_ecfg (gw_sched gw)) (bk_ttl (gw_blocks gw)) len"
  shows "\<exists>k \<in> set ks. \<not> stays_out r (at_filter a) hi k gw \<and> stays_out r (at_mark a) hi k gw'"
proof -
  have "inj_on pk_id (set ks)" using assms(4) by (simp only: distinct_map)
  from try_pass_again(1,3) [OF assms(1,3,4) subset_refl this assms(5,6)] show ?thesis
    by blast
qed

section \<open>Concrete requests\<close>

lemma fresh_filter:
  "bs = load_key_model_blocks 0 None 1 \<Longrightarrow> snd (filter_blocked_keys [sample_key 1] i t bs) = [sample_key 1]"
  unfolding filter_blocked_keys_def key_blocks.drop_result
  by (simp add: block_view_def load_key_model_blocks_def block_lookup_def)

lemma fresh_pick:
  assumes "mg_keys m = []"
  shows "snd (pick_available_key [sample_key 1] session 100 m) = Inr (sample_key 1)"
proof -
  have "key_st_of 1 100 m = (fst (new_key 1 (mg_ecfg m) (mg_has_store m) 100),
      snd (new_key 1 (mg_ecfg m) (mg_has_store m) 100), mg_world m)"
    by (simp add: key_st_of_def key_entity_locked_def assms Let_def)
  moreover have "key_row_usable (sample_key 1) 100"
    by (simp add: sample_key_def zero_key_def key_row_usable_def past_expiry_def)
  moreover have "pk_id (sample_key 1) = 1" by (simp add: sample_key_def)
  ultimately have v: "fst (key_verdict 100 m (sample_key 1))"
    by (simp add: key_sync_usable new_key_def key_pickable_def)
  obtain rot where "snd (pick_available_key [sample_key 1] session 100 m) =
      (case find (\<lambda>k. fst (key_verdict 100 m k)) (drop rot (sort_keys [sample_key 1]) @ take rot (sort_keys [sample_key 1])) of
       Some k \<Rightarrow> Inr k
     | None \<Rightarrow> Inl (ErrAllKeysUnavailable, earliest (map (\<lambda>k. snd (key_verdict 100 m k))
         (drop rot (sort_keys [sample_key 1]) @ take rot (sort_keys [sample_key 1])))))"
    using pick_key_result [of "[sample_key 1]" session 100 m] by auto
  moreover have "drop rot [sample_key 1] @ take rot [sample_key 1] = [sample_key 1]" by (cases rot) auto
  moreover have "sort_keys [sample_key 1] = [sample_key 1]" by (simp add: sort_keys_def stable_sort_def)
  ultimately show ?thesis using v by simp
qed

lemma fresh_pass:
  assumes "mg_keys (gw_sched gw) = []" and "gw_blocks gw = load_key_model_blocks 0 None 1"
  shows "snd (try_pass env r session (sample_attempt 200) [sample_key 1] gw) =
     Inr (Served (sample_key 1) \<lparr>rs_status = 200, rs_header = \<lambda>_. [], rs_body = []\<rparr>)"
  using fresh_filter [OF assms(2)] fresh_pick [OF assms(1)]
  by (simp add: try_pass_def Let_def split_beta sample_attempt_def is_success_def)

definition live_endpoint :: rapi where
  "live_endpoint = zero_rapi\<lparr>ra_id := 7, ra_platform_id := 1, ra_enabled := True, ra_available := True,
     ra_base_url := ''http://u'', ra_keys := [sample_key 1]\<rparr>"

definition sample_turn :: turn where
  "sample_turn = \<lparr>tn_pick = 100, tn_wakes = \<lambda>_. \<lparr>wk_ctx = CtxOk, wk_now = 100, wk_others = []\<rparr>,
     tn_attempts = \<lambda>_. sample_attempt 200, tn_pool = 100, tn_record = 100, tn_mark = 100, tn_latency = 5,
     tn_response = (100, 100), tn_events = \<lambda>_. 100, tn_chunks = [(100, ''data: x'')], tn_gone = \<lambda>_. False,
     tn_read_failed = False\<rparr>"

definition sample_request :: request where
  "sample_request = \<lparr>cq_lapi = 3, cq_rapis = [live_endpoint], cq_format = ''openai'', cq_original = ''{}'',
     cq_canonical = ''{}'', cq_request = \<lparr>pr_model = ''m'', pr_messages = [], pr_stream = False\<rparr>, cq_session = []\<rparr>"

definition sample_state :: request_state where
  "sample_state = new_request_state sample_gateway new_writer"

lemma sample_select:
  obtains m where "mg_keys m = []"
    and "select_backend env sample_request sample_turn fail (on_writer f sample_state) =
      Some (on_sched (\<lambda>_. m) (on_writer f sample_state), Inr live_endpoint)"
proof -
  let ?m = "new_manager default_config True"
  have st: "rapi_st_of 7 100 ?m = (fst (new_rapi 7 (mg_ecfg ?m) True 100), snd (new_rapi 7 (mg_ecfg ?m) True 100), new_world)"
    by (simp add: rapi_st_of_def rapi_entity_locked_def new_manager_def Let_def)
  have "pick_available (ge_rt env) [live_endpoint] ''openai'' 100 ?m =
      (put_rapi 7 (rapi_st_of 7 100 ?m) ?m, Inr live_endpoint)"
    by (simp add: pick_available_def stable_sort_def touch_counters_def live_endpoint_def st rapi_pickable_def new_rapi_def)
  moreover have "mg_keys (put_rapi 7 (rapi_st_of 7 100 ?m) ?m) = []"
    by (simp add: put_rapi_def new_manager_def split_beta Let_def)
  ultimately show thesis using that [of "put_rapi 7 (rapi_st_of 7 100 ?m) ?m"]
    by (simp add: select_backend_def sample_request_def sample_turn_def sample_state_def sample_gateway_def)
qed

lemma sample_forward:
  assumes "mg_keys (gw_sched (rq_gw st)) = []" and "gw_blocks (rq_gw st) = load_key_model_blocks 0 None 1"
  obtains gw where "forward sample_upstream sample_request sample_turn streaming live_endpoint st =
    Some (st\<lparr>rq_sent := rq_sent st @ [\<lparr>st_rapi = 7, st_url = resolve_upstream_url (ge_rt sample_upstream) live_endpoint ''openai'',
        st_format = ''openai'', st_body = ''{}''\<rparr>], rq_gw := gw\<rparr>,
      Inr (''openai'', \<lparr>rs_status = 200, rs_header = \<lambda>_. [], rs_body = []\<rparr>))"
proof -
  let ?resp = "\<lparr>rs_status = 200, rs_header = \<lambda>_. [], rs_body = []\<rparr> :: response"
  have fmt: "pick_target_format (ge_rt sample_upstream) live_endpoint ''openai'' = ''openai''"
    by (simp add: pick_target_format_def supports_api_format_def live_endpoint_def zero_rapi_def parse_formats_def)
  have url: "resolve_upstream_url (ge_rt sample_upstream) live_endpoint ''openai'' \<noteq> []"
    by (simp add: resolve_upstream_url_def live_endpoint_def zero_rapi_def build_url_def build_urls_def Let_def)
  have body: "upstream_body (up_codec sample_upstream) sample_request live_endpoint ''openai'' = Returned (Inr ''{}'')"
    by (simp add: upstream_body_def sample_request_def live_endpoint_def zero_rapi_def replace_model_field_def)
  obtain gw where "try_pass (gw_env.truncate sample_upstream) live_endpoint [] (sample_attempt 200) [sample_key 1] (rq_gw st) =
      (gw, Inr (Served (sample_key 1) ?resp))"
    using fresh_pass [OF assms] by (metis prod.collapse)
  then have "try_key_for_rapi (gw_env.truncate sample_upstream) live_endpoint [] (\<lambda>_. sample_attempt 200) (rq_gw st) =
      Some (gw, 0, Served (sample_key 1) ?resp)"
    by (simp add: try_key_for_rapi_def try_loop.simps live_endpoint_def)
  with fmt url body show thesis using that [of gw]
    by (simp add: forward_def sample_request_def sample_turn_def Let_def live_endpoint_def)
qed

lemma on_writer_same [simp]: "on_writer (\<lambda>w. w) st = st"
  by (simp add: on_writer_def)

lemma sample_plain:
  "\<exists>st'. handle_non_streaming_request sample_upstream sample_request (\<lambda>_. sample_turn) sample_state = Some (st', Done 200)"
proof -
  let ?fail = "\<lambda>msg. write_gateway_json_error (up_codec sample_upstream) 503 msg ''service_unavailable''"
  obtain m where m: "mg_keys m = []" and sel: "select_backend sample_upstream sample_request sample_turn ?fail
      (on_writer (\<lambda>w. w) sample_state) = Some (on_sched (\<lambda>_. m) (on_writer (\<lambda>w. w) sample_state), Inr live_endpoint)"
    by (rule sample_select)
  have "mg_keys (gw_sched (rq_gw (on_sched (\<lambda>_. m) sample_state))) = []"
    "gw_blocks (rq_gw (on_sched (\<lambda>_. m) sample_state)) = load_key_model_blocks 0 None 1"
    using m by (simp_all add: sample_state_def sample_gateway_def)
  from sample_forward [OF this] obtain st2 where
    f: "forward sample_upstream sample_request sample_turn False live_endpoint (on_sched (\<lambda>_. m) sample_state) =
      Some (st2, Inr (''openai'', \<lparr>rs_status = 200, rs_header = \<lambda>_. [], rs_body = []\<rparr>))" by metis
  let ?r = "serve_response sample_upstream sample_request sample_turn live_endpoint ''openai''
    \<lparr>rs_status = 200, rs_header = \<lambda>_. [], rs_body = []\<rparr> st2"
  have "plain_turn sample_upstream sample_request sample_turn sample_state = Some ?r"
    using sel f by (simp add: plain_turn_def)
  moreover have "snd ?r = Done 200"
    by (simp add: serve_response_def client_body_def sample_request_def Let_def)
  ultimately show ?thesis
    by (auto simp: handle_non_streaming_request_def request_loop.simps split_beta intro!: exI [of _ "fst ?r"] prod_eqI)
qed

lemma sample_stream:
  "\<exists>st'. handle_streaming_request sample_upstream sample_request True (\<lambda>_. sample_turn) sample_state = Some (st', Done 200)"
proof -
  let ?st = "on_writer stream_headers sample_state"
  obtain m where m: "mg_keys m = []" and sel: "select_backend sample_upstream sample_request sample_turn
      (send_error_stream (up_codec sample_upstream)) ?st = Some (on_sched (\<lambda>_. m) ?st, Inr live_endpoint)"
    by (rule sample_select)
  have "mg_keys (gw_sched (rq_gw (on_sched (\<lambda>_. m) ?st))) = []"
    "gw_blocks (rq_gw (on_sched (\<lambda>_. m) ?st)) = load_key_model_blocks 0 None 1"
    using m by (simp_all add: sample_state_def sample_gateway_def)
  from sample_forward [OF this] obtain st2 where
    f: "forward sample_upstream sample_request sample_turn True live_endpoint (on_sched (\<lambda>_. m) ?st) =
      Some (st2, Inr (''openai'', \<lparr>rs_status = 200, rs_header = \<lambda>_. [], rs_body = []\<rparr>))" by metis
  let ?r = "serve_stream sample_upstream sample_request sample_turn live_endpoint ''openai''
    \<lparr>rs_status = 200, rs_header = \<lambda>_. [], rs_body = []\<rparr> st2"
  have "stream_turn sample_upstream sample_request sample_turn ?st = Some ?r"
    using sel f by (simp add: stream_turn_def)
  moreover have "snd ?r = Done 200"
    by (simp add: serve_stream_def stream_answer_def sample_request_def sample_turn_def Let_def)
  ultimately show ?thesis
    by (auto simp: handle_streaming_request_def request_loop.simps split_beta intro!: exI [of _ "fst ?r"] prod_eqI)
qed

theorem plain_request_answered_witness:
  "\<exists>st' body. handle_non_streaming_request sample_upstream sample_request (\<lambda>_. sample_turn) sample_state = Some (st', Done 200) \<and>
     length (rq_metrics st') = 1 \<and>
     rq_writer st' = write_body body (put_header ''Content-Type'' ''application/json'' new_writer)"
proof -
  obtain st' where h: "handle_non_streaming_request sample_upstream sample_request (\<lambda>_. sample_turn) sample_state =
      Some (st', Done 200)" using sample_plain by blast
  from plain_request_answered [OF h] h show ?thesis
    by (auto simp: sample_state_def)
qed

lemma plain_status_always_200_witness:
  "\<exists>st'. handle_non_streaming_request sample_upstream sample_request (\<lambda>_. sample_turn) sample_state = Some (st', Done 200) \<and>
     wr_status (rq_writer st') = Some 200"
proof -
  obtain st' where h: "handle_non_streaming_request sample_upstream sample_request (\<lambda>_. sample_turn) sample_state =
      Some (st', Done 200)" using sample_plain by blast
  have "wr_status (rq_writer sample_state) = None" by (simp add: sample_state_def new_writer_def)
  from plain_status_always_200 [OF h _ this] h show ?thesis by simp
qed

theorem stream_single_source_witness:
  "\<exists>st' i. handle_streaming_request sample_upstream sample_request True (\<lambda>_. sample_turn) sample_state = Some (st', Done 200) \<and>
     streamed sample_upstream sample_request ((\<lambda>_. sample_turn) (i :: nat)) (stream_headers new_writer) (rq_writer st')"
proof -
  obtain st' where h: "handle_streaming_request sample_upstream sample_request True (\<lambda>_. sample_turn) sample_state =
      Some (st', Done 200)" using sample_stream by blast
  from stream_single_source [OF h] h show ?thesis by (auto simp: sample_state_def)
qed

lemma sample_config:
  "cc_default (mg_ecfg (new_manager default_config b)) = 10 * nsec_second"
  "0 < cc_max (mg_ecfg (new_manager default_config b))" "mg_rapis (new_manager default_config b) = []"
  by (simp_all add: new_manager_def default_config_def Let_def)

theorem empty_stream_counted_witness:
  "\<exists>st'. serve_stream sample_upstream sample_request (sample_turn\<lparr>tn_chunks := []\<rparr>) live_endpoint ''openai''
      \<lparr>rs_status = 200, rs_header = \<lambda>_. [], rs_body = []\<rparr> sample_state = (st', Again) \<and> length (rq_metrics st') = 1 \<and>
    \<not> fst (rapi_verdict (tn_mark sample_turn) (gw_sched (rq_gw st')) live_endpoint)"
proof -
  let ?t = "sample_turn\<lparr>tn_chunks := []\<rparr>"
  have s: "stream_answer sample_upstream sample_request ?t ''openai'' (rq_writer sample_state) =
      (rq_writer sample_state, False, False)"
    by (simp add: stream_answer_def sample_request_def)
  have l: "live_at (ra_id live_endpoint) (tn_mark ?t) (gw_sched (rq_gw sample_state))"
    by (simp add: live_at_def rapi_st_of_def rapi_entity_locked_def new_rapi_def sample_state_def sample_gateway_def
        sample_turn_def sample_config Let_def)
  have "tn_mark sample_turn < backoff_until (ra_id live_endpoint) (tn_mark ?t) (gw_sched (rq_gw sample_state))"
    by (simp add: backoff_until_def rapi_st_of_def rapi_entity_locked_def new_rapi_def sample_state_def sample_gateway_def
        sample_turn_def backoff_spec_def sample_config Let_def)
  with empty_stream_counted [OF s l refl, of "\<lparr>rs_status = 200, rs_header = \<lambda>_. [], rs_body = []\<rparr>"]
  show ?thesis by (auto simp: sample_state_def)
qed

theorem sent_requests_formed_witness:
  "\<exists>st'. handle_non_streaming_request sample_upstream sample_request (\<lambda>_. sample_turn) sample_state = Some (st', Done 200) \<and>
     st_rapi ` set (rq_sent st') \<subseteq> {7}"
proof -
  obtain st' where h: "handle_non_streaming_request sample_upstream sample_request (\<lambda>_. sample_turn) sample_state =
      Some (st', Done 200)" using sample_plain by blast
  have "rq_sent sample_state = []" by (simp add: sample_state_def)
  from sent_requests_formed [where can_flush = True, OF disjI1 [OF h] this] h show ?thesis
    by (auto simp: sample_request_def live_endpoint_def)
qed

theorem refused_request_untouched_witness:
  "\<forall>dec db. \<exists>st. handle_chat_completions sample_upstream dec db \<lparr>in_method = ''GET'', in_path = [], in_body = Inr [], in_session = []\<rparr>
      True (\<lambda>_. sample_turn) sample_gateway = Some (st, [], Done 405) \<and>
    rq_gw st = sample_gateway \<and> wr_status (rq_writer st) = Some 405"
proof (intro allI)
  fix dec db
  let ?inc = "\<lparr>in_method = ''GET'', in_path = [], in_body = Inr [], in_session = []\<rparr> :: incoming"
  obtain st where h: "handle_chat_completions sample_upstream dec db ?inc True (\<lambda>_. sample_turn) sample_gateway =
      Some (st, [], Done 405)" by (simp add: handle_chat_completions_def Let_def)
  from refused_request_untouched [OF h refl] h
  show "\<exists>st. handle_chat_completions sample_upstream dec db ?inc True (\<lambda>_. sample_turn) sample_gateway = Some (st, [], Done 405) \<and>
      rq_gw st = sample_gateway \<and> wr_status (rq_writer st) = Some 405" by blast
qed

theorem client_cancel_cools_key_witness:
  "\<exists>gw'. fst (try_pass sample_env live_endpoint [] ((sample_attempt 200)\<lparr>at_outcome := UpstreamError ''context canceled'' False\<rparr>)
      [sample_key 1] sample_gateway) = gw' \<and> stays_out live_endpoint 100 100 (sample_key 1) gw'"
proof -
  let ?a = "(sample_attempt 200)\<lparr>at_outcome := UpstreamError ''context canceled'' False\<rparr>"
  have "mg_keys (gw_sched sample_gateway) = []" "gw_blocks sample_gateway = load_key_model_blocks 0 None 1"
    by (simp_all add: sample_gateway_def new_manager_def Let_def)
  from fresh_filter [OF this(2)] fresh_pick [OF this(1)]
  obtain gw' where p: "try_pass sample_env live_endpoint [] ?a [sample_key 1] sample_gateway = (gw', Inl [sample_key 1])"
    by (auto simp: try_pass_def Let_def split_beta sample_attempt_def)
  have "fails_past sample_env 1 100 ?a" by (simp add: fails_past_def sample_attempt_def)
  from client_cancel_cools_key [OF p _ sample_inv _ this sample_short] p show ?thesis
    by (auto simp: sample_attempt_def)
qed

end
