(* ===== verification/Recovery.thy ===== *)
theory Recovery
  imports Probe GatewayProps
begin

text \<open>
  The recovery passes of the gateway, \<open>internal/gateway/gateway.go\<close> (\<open>RecoverUnhealthyRAPIs\<close>,
  \<open>RecoverPlatformRAPIs\<close>, \<open>RecoverRAPIs\<close>, \<open>recoverRAPIs\<close>, \<open>probePlatform\<close>): endpoints persisted as unavailable are
  probed and the ones that answer are restored.

  The workers of a pass run concurrently, each makes its marks after its probe; a pass is the workers one
  after the other, in the order \<open>order\<close> in which they end. The HTTP exchange of a probe and the clock
  readings of a worker are its \<open>probe_run\<close>. The writes to the database are the list \<open>rv_calls\<close>; an error there is only logged.
\<close>

section \<open>State\<close>

datatype recovery_call = SetAvailable int | UpdateFormats int string

record recovery_state =
  rv_sched :: manager
  rv_running :: bool
  rv_calls :: "recovery_call list"

record retry_item =
  ri_id :: int
  ri_alias :: string
  ri_platform :: string
  ri_reason :: string
  ri_duration_ms :: int

record retry_report =
  rp_probed :: int
  rp_recovered :: "retry_item list"
  rp_failed :: "retry_item list"

definition empty_report :: retry_report where
  "empty_report = \<lparr>rp_probed = 0, rp_recovered = [], rp_failed = []\<rparr>"

record probe_run =
  pr_pool_now :: instant
  pr_rows_now :: instant
  pr_exchange :: "string \<Rightarrow> api_format \<Rightarrow> string \<Rightarrow> probe_outcome"
  pr_order :: "api_format list"
  pr_duration_ms :: int
  pr_mark_now :: instant

section \<open>Platforms\<close>

datatype list_outcome = ListBuildFailed string | ListFailed string | ListStatus int

definition platform_probe_url :: "upstream_env \<Rightarrow> platform \<Rightarrow> string \<Rightarrow> string" where
  "platform_probe_url env p token =
     (if is_google_native_base_url env (pt_base_url p) then build_google_list_models_url (pt_base_url p) token
      else normalize_models_base_url (pt_base_url p) @ ''/v1/models'')"

definition platform_probe_headers :: "upstream_env \<Rightarrow> platform \<Rightarrow> string \<Rightarrow> header_map" where
  "platform_probe_headers env p token =
     set_header ''Content-Type'' ''application/json''
       (if is_google_native_base_url env (pt_base_url p) then set_header ''x-goog-api-key'' token []
        else set_header ''Authorization'' (''Bearer '' @ token) [])"

fun probe_platform :: "list_outcome \<Rightarrow> bool \<times> string" where
  "probe_platform (ListBuildFailed err) = (False, err)"
| "probe_platform (ListFailed err) = (False, err)"
| "probe_platform (ListStatus status) =
     (if status \<noteq> 200 then (False, ''platform returned '' @ int_str status) else (True, []))"

definition on_platform :: "int \<Rightarrow> bool \<Rightarrow> instant \<Rightarrow> (platform_st \<Rightarrow> platform_st) \<Rightarrow> manager \<Rightarrow> manager" where
  "on_platform i available now f m =
     (let (m, e) = platform_entity i available now m;
          (c, d, w) = f (fst e, snd e, mg_world m)
      in m\<lparr>mg_platforms := AList.update i (c, d) (mg_platforms m), mg_world := w\<rparr>)"

text \<open>What the request to the list of models gives, per platform, and when its result is marked.\<close>

definition recover_platform :: "(int \<Rightarrow> list_outcome) \<Rightarrow> (int \<Rightarrow> instant) \<Rightarrow> platform \<Rightarrow> manager \<times> int list
    \<Rightarrow> manager \<times> int list" where
  "recover_platform answers now p acc =
     (let (m, failed) = acc; i = pt_id p in
      if \<not> pt_enabled p \<or> pt_available p then acc
      else if fst (probe_platform (answers i))
      then (on_platform i (pt_available p) (now i) (platform_detect_success (now i)) m, failed)
      else (on_platform i (pt_available p) (now i) (platform_detect_failure (now i)) m, failed @ [i]))"

section \<open>Endpoints\<close>

definition probe_token :: "(int \<Rightarrow> platform_key list option) \<Rightarrow> probe_run \<Rightarrow> rapi \<Rightarrow> string" where
  "probe_token get_keys run r =
     (let token = first_usable_from_keys (ra_keys r) (pr_pool_now run) in
      if token = [] then first_usable_key (get_keys (ra_platform_id r)) (ra_token r) (pr_rows_now run) else token)"

definition retry_item_of :: "rapi \<Rightarrow> string \<Rightarrow> int \<Rightarrow> retry_item" where
  "retry_item_of r reason ms =
     \<lparr>ri_id = ra_id r, ri_alias = ra_alias r, ri_platform = ra_platform_name r, ri_reason = reason,
      ri_duration_ms = ms\<rparr>"

text \<open>The exchange of a probe depends on the credential it is made with.\<close>

definition probe_results :: "(int \<Rightarrow> platform_key list option) \<Rightarrow> probe_run \<Rightarrow> rapi \<Rightarrow> detect_result list" where
  "probe_results get_keys run r =
     detect_formats (pr_exchange run (probe_token get_keys run r)) (pr_order run) (ra_base_url r) (ra_model r)"

definition recover_worker :: "json_codec \<Rightarrow> (int \<Rightarrow> platform_key list option) \<Rightarrow> int list \<Rightarrow> (rapi \<Rightarrow> probe_run) \<Rightarrow> rapi
    \<Rightarrow> recovery_state \<times> retry_report \<Rightarrow> recovery_state \<times> retry_report" where
  "recover_worker codec get_keys failed_platforms runs r acc =
     (let (st, rep) = acc; run = runs r; fail = (\<lambda>reason.
            rep\<lparr>rp_failed := rp_failed rep @ [retry_item_of r reason (pr_duration_ms run)]\<rparr>) in
      if ra_platform_id r \<in> set failed_platforms then (st, fail ''platform unavailable'')
      else
        (let supported = supported_formats (probe_results get_keys run r) in
         if supported = [] then (st, fail ''no supported format responded'')
         else (st\<lparr>rv_sched := revalidate_rapi (ra_id r) (pr_mark_now run) (rv_sched st),
                  rv_calls := rv_calls st @ [SetAvailable (ra_id r), UpdateFormats (ra_id r) (formats_to_json codec supported)]\<rparr>,
               rep\<lparr>rp_recovered := rp_recovered rep @ [retry_item_of r [] (pr_duration_ms run)]\<rparr>)))"

definition recover_rapis_from :: "json_codec \<Rightarrow> (int \<Rightarrow> platform_key list option) \<Rightarrow> int list \<Rightarrow> (rapi \<Rightarrow> probe_run)
    \<Rightarrow> (rapi list \<Rightarrow> rapi list) \<Rightarrow> rapi list \<Rightarrow> recovery_state \<Rightarrow> recovery_state \<times> retry_report" where
  "recover_rapis_from codec get_keys failed_platforms runs order unhealthy st =
     (let loaded = load_keys_for_rapis get_keys unhealthy in
      fold (recover_worker codec get_keys failed_platforms runs) (order loaded)
        (st, empty_report\<lparr>rp_probed := int (length unhealthy)\<rparr>))"

section \<open>The passes\<close>

text \<open>A second pass while one runs does nothing. \<open>guarded\<close> is the flag around a pass.\<close>

definition guarded :: "(recovery_state \<Rightarrow> recovery_state \<times> retry_report) \<Rightarrow> recovery_state
    \<Rightarrow> recovery_state \<times> retry_report" where
  "guarded pass st =
     (if rv_running st then (st, empty_report)
      else (let (st, rep) = pass (st\<lparr>rv_running := True\<rparr>) in (st\<lparr>rv_running := False\<rparr>, rep)))"

definition unavailable_rapis :: "(rapi \<Rightarrow> bool) \<Rightarrow> rapi list option \<Rightarrow> rapi list" where
  "unavailable_rapis wanted rapis =
     filter (\<lambda>r. wanted r \<and> ra_enabled r \<and> \<not> ra_available r) (case rapis of None \<Rightarrow> [] | Some rs \<Rightarrow> rs)"

definition normalize_probe :: "int \<Rightarrow> int \<Rightarrow> int \<times> duration" where
  "normalize_probe concurrency per_probe_timeout_sec =
     (let t = wrap64 (per_probe_timeout_sec * nsec_second) in
      (if concurrency < 1 then 1 else concurrency, if t \<le> 0 then 15 * nsec_second else t))"

definition recover_unhealthy_rapis :: "json_codec \<Rightarrow> (int \<Rightarrow> platform_key list option) \<Rightarrow> platform list option \<Rightarrow> rapi list option
    \<Rightarrow> (int \<Rightarrow> list_outcome) \<Rightarrow> (int \<Rightarrow> instant) \<Rightarrow> (rapi \<Rightarrow> probe_run) \<Rightarrow> (rapi list \<Rightarrow> rapi list) \<Rightarrow> recovery_state
    \<Rightarrow> recovery_state \<times> retry_report" where
  "recover_unhealthy_rapis codec get_keys platforms rapis answers now runs order =
     guarded (\<lambda>st.
       let (m, failed) = fold (recover_platform answers now) (case platforms of None \<Rightarrow> [] | Some ps \<Rightarrow> ps) (rv_sched st, [])
       in recover_rapis_from codec get_keys failed runs order (unavailable_rapis (\<lambda>_. True) rapis) (st\<lparr>rv_sched := m\<rparr>))"

definition recover_platform_rapis :: "json_codec \<Rightarrow> (int \<Rightarrow> platform_key list option) \<Rightarrow> rapi list option \<Rightarrow> int
    \<Rightarrow> (rapi \<Rightarrow> probe_run) \<Rightarrow> (rapi list \<Rightarrow> rapi list) \<Rightarrow> recovery_state \<Rightarrow> recovery_state \<times> retry_report" where
  "recover_platform_rapis codec get_keys rapis platform_id runs order =
     guarded (recover_rapis_from codec get_keys [] runs order (unavailable_rapis (\<lambda>r. ra_platform_id r = platform_id) rapis))"

definition recover_rapis :: "json_codec \<Rightarrow> (int \<Rightarrow> platform_key list option) \<Rightarrow> rapi list option \<Rightarrow> int list
    \<Rightarrow> (rapi \<Rightarrow> probe_run) \<Rightarrow> (rapi list \<Rightarrow> rapi list) \<Rightarrow> recovery_state \<Rightarrow> recovery_state \<times> retry_report" where
  "recover_rapis codec get_keys rapis ids runs order =
     guarded (recover_rapis_from codec get_keys [] runs order (unavailable_rapis (\<lambda>r. ra_id r \<in> set ids) rapis))"

section \<open>What a pass does\<close>

text \<open>An endpoint comes back when its platform did not fail and some candidate address of some format
  answers with anything but 400, 404 and 405, before a time-out.\<close>

definition run_answers :: "(int \<Rightarrow> platform_key list option) \<Rightarrow> probe_run \<Rightarrow> rapi \<Rightarrow> bool" where
  "run_answers get_keys run r \<longleftrightarrow>
     (let exchange = pr_exchange run (probe_token get_keys run r) in
      \<exists>f \<in> set (pr_order run). case find (\<lambda>u. proves_endpoint (exchange f u) \<or> gives_up (exchange f u))
          (build_urls (ra_base_url r) (ra_model r) f) of
        None \<Rightarrow> False | Some u \<Rightarrow> proves_endpoint (exchange f u))"

lemma probe_format_supported:
  "dr_supported (probe_format ex base model f) \<longleftrightarrow>
     (case find (\<lambda>u. proves_endpoint (ex f u) \<or> gives_up (ex f u)) (build_urls base model f) of
        None \<Rightarrow> False | Some u \<Rightarrow> proves_endpoint (ex f u))"
  using probe_candidates_spec [of f "ex f" "build_urls base model f" "[]"]
  by (auto simp: probe_format_def split: option.splits)

lemma probe_results_supported: "supported_formats (probe_results get_keys run r) \<noteq> [] \<longleftrightarrow> run_answers get_keys run r"
  unfolding supported_formats_def probe_results_def detect_formats_def run_answers_def
  by (auto simp: filter_empty_conv probe_format_supported Let_def)

definition comes_back :: "(int \<Rightarrow> platform_key list option) \<Rightarrow> int list \<Rightarrow> (rapi \<Rightarrow> probe_run) \<Rightarrow> rapi \<Rightarrow> bool" where
  "comes_back get_keys failed runs r \<longleftrightarrow> ra_platform_id r \<notin> set failed \<and> run_answers get_keys (runs r) r"

definition restore_calls :: "json_codec \<Rightarrow> (int \<Rightarrow> platform_key list option) \<Rightarrow> (rapi \<Rightarrow> probe_run) \<Rightarrow> rapi \<Rightarrow> recovery_call list" where
  "restore_calls codec get_keys runs r =
     [SetAvailable (ra_id r),
      UpdateFormats (ra_id r) (formats_to_json codec (supported_formats (probe_results get_keys (runs r) r)))]"

definition revalidate_one :: "(rapi \<Rightarrow> probe_run) \<Rightarrow> rapi \<Rightarrow> manager \<Rightarrow> manager" where
  "revalidate_one runs r = revalidate_rapi (ra_id r) (pr_mark_now (runs r))"

lemma worker_eq:
  "recover_worker codec get_keys failed runs r (st, rep) =
     (if comes_back get_keys failed runs r
      then (st\<lparr>rv_sched := revalidate_one runs r (rv_sched st), rv_calls := rv_calls st @ restore_calls codec get_keys runs r\<rparr>,
            rep\<lparr>rp_recovered := rp_recovered rep @ [retry_item_of r [] (pr_duration_ms (runs r))]\<rparr>)
      else (st, rep\<lparr>rp_failed := rp_failed rep @ [retry_item_of r
              (if ra_platform_id r \<in> set failed then ''platform unavailable'' else ''no supported format responded'')
              (pr_duration_ms (runs r))]\<rparr>))"
  using probe_results_supported [of get_keys "runs r" r]
  by (auto simp: recover_worker_def comes_back_def restore_calls_def revalidate_one_def Let_def)

lemma workers_fold:
  "fold (recover_worker codec get_keys failed runs) rs (st, rep) = (st', rep') \<Longrightarrow>
   rv_sched st' = fold (revalidate_one runs) (filter (comes_back get_keys failed runs) rs) (rv_sched st) \<and>
   rv_calls st' = rv_calls st @ concat (map (restore_calls codec get_keys runs) (filter (comes_back get_keys failed runs) rs)) \<and>
   map ri_id (rp_recovered rep') = map ri_id (rp_recovered rep) @ map ra_id (filter (comes_back get_keys failed runs) rs) \<and>
   map ri_id (rp_failed rep') = map ri_id (rp_failed rep) @ map ra_id (filter (\<lambda>r. \<not> comes_back get_keys failed runs r) rs) \<and>
   rp_probed rep' = rp_probed rep \<and> rv_running st' = rv_running st"
proof (induction rs arbitrary: st rep)
  case (Cons r rs)
  from Cons.prems Cons.IH show ?case by (fastforce simp: worker_eq retry_item_of_def split: if_splits)
qed simp

lemma revalidate_state:
  "m_state (fst (rapi_revalidate now st)) = (if m_state (fst st) = Invalidated then Healthy else m_state (fst st))"
  by (cases st) (auto simp: rapi_revalidate_def op_simps)
definition restored :: "manager \<Rightarrow> int \<Rightarrow> bool" where
  "restored m i \<longleftrightarrow> (\<exists>e. map_of (mg_rapis m) i = Some e \<and> m_state (fst e) \<noteq> Invalidated)"

lemma revalidated_lookup:
  "map_of (mg_rapis (revalidate_one runs r m)) =
     (map_of (mg_rapis m))(ra_id r \<mapsto> (fst (rapi_revalidate (pr_mark_now (runs r)) (rapi_st_of (ra_id r) (pr_mark_now (runs r)) m)),
        fst (snd (rapi_revalidate (pr_mark_now (runs r)) (rapi_st_of (ra_id r) (pr_mark_now (runs r)) m)))))"
  by (simp add: revalidate_one_def revalidate_rapi_def on_rapi_def put_rapi_def update_conv')

lemma revalidated_one:
  "restored (revalidate_one runs r m) i \<longleftrightarrow> i = ra_id r \<or> restored m i"
  by (auto simp: restored_def revalidated_lookup revalidate_state)

lemma revalidated_all: "restored (fold (revalidate_one runs) rs m) i \<longleftrightarrow> i \<in> ra_id ` set rs \<or> restored m i"
  by (induction rs arbitrary: m) (auto simp: revalidated_one)

lemma revalidated_others:
  "i \<notin> ra_id ` set rs \<Longrightarrow> map_of (mg_rapis (fold (revalidate_one runs) rs m)) i = map_of (mg_rapis m) i"
  by (induction rs arbitrary: m) (auto simp: revalidated_lookup)

lemma recover_platform_rapis_same:
  "mg_rapis (fst (fold (recover_platform answers now) ps (m, failed))) = mg_rapis m"
proof (induction ps arbitrary: m failed)
  case (Cons p ps)
  then show ?case by (simp add: recover_platform_def on_platform_def platform_entity_def Let_def split_beta)
qed simp

lemma recover_platform_failed:
  "snd (fold (recover_platform answers now) ps (m, failed)) = failed @ map pt_id
     (filter (\<lambda>p. pt_enabled p \<and> \<not> pt_available p \<and> \<not> fst (probe_platform (answers (pt_id p)))) ps)"
  by (induction ps arbitrary: m failed) (simp_all add: recover_platform_def Let_def)

lemma mset_map_split: "mset (map f xs) = mset (map f (filter P xs)) + mset (map f (filter (\<lambda>x. \<not> P x) xs))"
  by (induction xs) auto

lemma recover_platform_others:
  "mg_keys (fst (fold (recover_platform answers now) ps (m, failed))) = mg_keys m \<and>
   (i \<in> pt_id ` set (filter (\<lambda>p. pt_enabled p \<and> \<not> pt_available p) ps) \<or>
    map_of (mg_platforms (fst (fold (recover_platform answers now) ps (m, failed)))) i = map_of (mg_platforms m) i)"
proof (induction ps arbitrary: m failed)
  case (Cons p ps)
  have "mg_keys (fst (recover_platform answers now p (m, failed))) = mg_keys m"
    "i = pt_id p \<and> pt_enabled p \<and> \<not> pt_available p \<or>
     map_of (mg_platforms (fst (recover_platform answers now p (m, failed)))) i = map_of (mg_platforms m) i"
    by (auto simp: recover_platform_def on_platform_def platform_entity_def Let_def split_beta update_conv')
  with Cons.IH [of "fst (recover_platform answers now p (m, failed))" "snd (recover_platform answers now p (m, failed))"]
  show ?case by auto
qed simp

lemma revalidated_rest:
  "mg_keys (fold (revalidate_one runs) rs m) = mg_keys m" "mg_platforms (fold (revalidate_one runs) rs m) = mg_platforms m"
  by (induction rs arbitrary: m) (simp_all add: revalidate_one_def revalidate_rapi_def on_rapi_def put_rapi_def)

text \<open>A pass over the loaded endpoints, whatever the order in which its workers end.\<close>

lemma recover_from_exact:
  assumes "mset (order (load_keys_for_rapis get_keys rs)) = mset (load_keys_for_rapis get_keys rs)"
    and "recover_rapis_from codec get_keys failed runs order rs st = (st', rep)"
    and "loaded = load_keys_for_rapis get_keys rs" and "back = comes_back get_keys failed runs"
  shows "rp_probed rep = int (length rs)"
    and "mset (map ri_id (rp_recovered rep)) = mset (map ra_id (filter back loaded))"
    and "mset (map ri_id (rp_failed rep)) = mset (map ra_id (filter (\<lambda>r. \<not> back r) loaded))"
    and "mset (rv_calls st') = mset (rv_calls st) + mset (concat (map (restore_calls codec get_keys runs) (filter back loaded)))"
    and "restored (rv_sched st') i \<longleftrightarrow> i \<in> ra_id ` set (filter back loaded) \<or> restored (rv_sched st) i"
    and "i \<notin> ra_id ` set (filter back loaded) \<Longrightarrow> map_of (mg_rapis (rv_sched st')) i = map_of (mg_rapis (rv_sched st)) i"
    and "rv_running st' = rv_running st"
    and "mg_keys (rv_sched st') = mg_keys (rv_sched st)" "mg_platforms (rv_sched st') = mg_platforms (rv_sched st)"
proof -
  have "fold (recover_worker codec get_keys failed runs) (order loaded) (st, empty_report\<lparr>rp_probed := int (length rs)\<rparr>) = (st', rep)"
    using assms(2) by (simp add: recover_rapis_from_def assms(3) Let_def)
  note f = workers_fold [OF this, folded assms(4)]
  have o: "mset (order loaded) = mset loaded" "set (order loaded) = set loaded"
    using assms(1,3) mset_eq_setD by auto
  then have c: "mset (concat (map g (filter P (order loaded)))) = mset (concat (map g (filter P loaded)))" for g :: "rapi \<Rightarrow> recovery_call list" and P
    by (simp add: mset_concat flip: sum_mset_sum_list)
  show "rp_probed rep = int (length rs)" "rv_running st' = rv_running st" using f by simp_all
  show "mg_keys (rv_sched st') = mg_keys (rv_sched st)" "mg_platforms (rv_sched st') = mg_platforms (rv_sched st)"
    using f by (simp_all add: revalidated_rest)
  show "mset (map ri_id (rp_recovered rep)) = mset (map ra_id (filter back loaded))"
    "mset (map ri_id (rp_failed rep)) = mset (map ra_id (filter (\<lambda>r. \<not> back r) loaded))"
    using f o(1) by (simp_all add: empty_report_def)
  show "mset (rv_calls st') = mset (rv_calls st) + mset (concat (map (restore_calls codec get_keys runs) (filter back loaded)))"
    using f c by simp
  show "restored (rv_sched st') i \<longleftrightarrow> i \<in> ra_id ` set (filter back loaded) \<or> restored (rv_sched st) i"
    using f o(2) by (simp add: revalidated_all)
  show "map_of (mg_rapis (rv_sched st')) i = map_of (mg_rapis (rv_sched st)) i" if "i \<notin> ra_id ` set (filter back loaded)"
    using f o(2) that by (simp add: revalidated_others)
qed

lemma guarded_run:
  "\<not> rv_running st \<Longrightarrow> guarded pass st = (st', rep) \<Longrightarrow>
   \<exists>st''. pass (st\<lparr>rv_running := True\<rparr>) = (st'', rep) \<and> st' = st''\<lparr>rv_running := False\<rparr>"
  by (auto simp: guarded_def split: prod.splits)

text \<open>C34: A recovery pass that is not refused by the running one probes exactly the enabled endpoints persisted
  as unavailable, and restores exactly those whose platform did not fail its own probe and of which some format
  answers: these are reported as recovered, set available with the formats that answered, and no longer
  invalidated in the scheduler. All others are reported as failed and no endpoint write is made for them. No other
  endpoint entity and no key entity changes, and of the platform entities only those of the enabled platforms
  persisted as unavailable, which the pass probes first; and the flag is free again. The order in which the concurrent
  workers end does not matter.\<close>

theorem recovery_exact:
  assumes "\<not> rv_running st"
    and "\<And>rs. mset (order rs) = mset rs"
    and "recover_unhealthy_rapis codec get_keys (Some platforms) (Some rapis) answers now runs order st = (st', rep)"
    and "probed = load_keys_for_rapis get_keys (filter (\<lambda>r. ra_enabled r \<and> \<not> ra_available r) rapis)"
    and "down = map pt_id (filter (\<lambda>p. pt_enabled p \<and> \<not> pt_available p \<and> answers (pt_id p) \<noteq> ListStatus 200) platforms)"
    and "back = filter (\<lambda>r. ra_platform_id r \<notin> set down \<and> run_answers get_keys (runs r) r) probed"
  shows "rp_probed rep = int (length probed) \<and>
    mset (map ri_id (rp_recovered rep)) = mset (map ra_id back) \<and>
    mset (map ri_id (rp_failed rep)) = mset (map ra_id probed) - mset (map ra_id back) \<and>
    mset (rv_calls st') = mset (rv_calls st) + mset (concat (map (restore_calls codec get_keys runs) back)) \<and>
    (restored (rv_sched st') i \<longleftrightarrow> i \<in> ra_id ` set back \<or> restored (rv_sched st) i) \<and>
    (i \<in> ra_id ` set back \<or> map_of (mg_rapis (rv_sched st')) i = map_of (mg_rapis (rv_sched st)) i) \<and>
    mg_keys (rv_sched st') = mg_keys (rv_sched st) \<and>
    (j \<in> pt_id ` set (filter (\<lambda>p. pt_enabled p \<and> \<not> pt_available p) platforms) \<or>
     map_of (mg_platforms (rv_sched st')) j = map_of (mg_platforms (rv_sched st)) j) \<and>
    \<not> rv_running st'"
proof -
  let ?un = "filter (\<lambda>r. ra_enabled r \<and> \<not> ra_available r) rapis"
  let ?pf = "fold (recover_platform answers now) platforms (rv_sched st, [])"
  obtain st1 where run: "recover_rapis_from codec get_keys (snd ?pf) runs order ?un
      (st\<lparr>rv_running := True, rv_sched := fst ?pf\<rparr>) = (st1, rep)" and st': "st' = st1\<lparr>rv_running := False\<rparr>"
    using guarded_run [OF assms(1) assms(3) [unfolded recover_unhealthy_rapis_def]]
    by (auto simp: unavailable_rapis_def split_beta)
  have up: "fst (probe_platform a) \<longleftrightarrow> a = ListStatus 200" for a by (cases a) auto
  have down: "snd ?pf = down" by (simp add: recover_platform_failed up assms(5))
  note e = recover_from_exact [OF assms(2) run [unfolded down] refl refl, folded assms(4)]
  have b: "filter (comes_back get_keys down runs) probed = back"
    by (simp add: assms(6) comes_back_def [abs_def])
  have "restored (fst ?pf) i \<longleftrightarrow> restored (rv_sched st) i" "map_of (mg_rapis (fst ?pf)) = map_of (mg_rapis (rv_sched st))"
    by (simp_all add: restored_def recover_platform_rapis_same)
  moreover have "mset (map ra_id (filter (\<lambda>r. \<not> comes_back get_keys down runs r) probed)) = mset (map ra_id probed) - mset (map ra_id back)"
    by (simp only: mset_map_split [of ra_id probed "comes_back get_keys down runs"] b add_diff_cancel_left')
  moreover have "length probed = length ?un" by (simp add: assms(4) load_keys_for_rapis_def)
  moreover note m = calculation
  show ?thesis
  proof (intro conjI)
    show "rp_probed rep = int (length probed)" using e(1) m(4) by simp
    show "mset (map ri_id (rp_recovered rep)) = mset (map ra_id back)" using e(2) by (simp only: b)
    show "mset (map ri_id (rp_failed rep)) = mset (map ra_id probed) - mset (map ra_id back)" using e(3) m(3) by (simp only:)
    show "mset (rv_calls st') = mset (rv_calls st) + mset (concat (map (restore_calls codec get_keys runs) back))"
      using e(4) by (simp add: b st')
    show "restored (rv_sched st') i \<longleftrightarrow> i \<in> ra_id ` set back \<or> restored (rv_sched st) i"
      using e(5) [of i] m(1) by (simp add: b st')
    show "i \<in> ra_id ` set back \<or> map_of (mg_rapis (rv_sched st')) i = map_of (mg_rapis (rv_sched st)) i"
      using e(6) [of i] m(2) by (simp add: b st') blast
    note others = recover_platform_others [of answers now platforms "rv_sched st" "[]"]
    show "mg_keys (rv_sched st') = mg_keys (rv_sched st)"
      using e(8) others by (simp add: st')
    show "j \<in> pt_id ` set (filter (\<lambda>p. pt_enabled p \<and> \<not> pt_available p) platforms) \<or>
      map_of (mg_platforms (rv_sched st')) j = map_of (mg_platforms (rv_sched st)) j"
      using e(9) others [of j] by (simp add: st')
    show "\<not> rv_running st'" by (simp add: st')
  qed
qed

text \<open>C35: An endpoint whose own pool has no usable key is restored all the same when the platform answers a probe
  made with any other credential (a key outside the whitelist of the endpoint, or the platform token), and an
  answer 401 counts: although no request can be served, the endpoint is set available, reported as recovered
  and not invalidated any more.\<close>

theorem dead_pool_revived:
  assumes "\<not> rv_running st" and "\<And>rs. mset (order rs) = mset rs"
    and "recover_platform_rapis codec get_keys (Some rapis) (ra_platform_id r) runs order st = (st', rep)"
    and "r \<in> set rapis" and "ra_enabled r" and "\<not> ra_available r"
    and "\<And>k now. k \<in> set (ra_keys (hd (load_keys_for_rapis get_keys [r]))) \<Longrightarrow> \<not> key_row_usable k now"
    and "\<And>r'. runs r' = run" and "pr_order run \<noteq> []"
    and "\<And>f u. \<exists>status. status \<notin> {400, 404, 405} \<and>
      pr_exchange run (first_usable_key (get_keys (ra_platform_id r)) (ra_token r) (pr_rows_now run)) f u = Answered status"
  shows "ra_id r \<in> set (map ri_id (rp_recovered rep)) \<and> SetAvailable (ra_id r) \<in> set (rv_calls st') \<and>
    restored (rv_sched st') (ra_id r)"
proof -
  let ?un = "filter (\<lambda>q. ra_platform_id q = ra_platform_id r \<and> ra_enabled q \<and> \<not> ra_available q) rapis"
  let ?l = "hd (load_keys_for_rapis get_keys [r])"
  let ?F = "filter (comes_back get_keys [] runs) (load_keys_for_rapis get_keys ?un)"
  obtain st1 where run: "recover_rapis_from codec get_keys [] runs order ?un (st\<lparr>rv_running := True\<rparr>) = (st1, rep)"
    and st': "st' = st1\<lparr>rv_running := False\<rparr>"
    using guarded_run [OF assms(1) assms(3) [unfolded recover_platform_rapis_def]]
    by (auto simp: unavailable_rapis_def)
  note e = recover_from_exact [OF assms(2) run refl refl]
  have same: "ra_id ?l = ra_id r" "ra_platform_id ?l = ra_platform_id r" "ra_token ?l = ra_token r"
    by (simp_all add: load_keys_for_rapis_def)
  have "first_usable_from_keys (ra_keys ?l) now = []" for now
    using assms(7) by (auto simp: first_usable_from_keys_def find_Some_iff split: option.splits)
  then have token: "probe_token get_keys run ?l = first_usable_key (get_keys (ra_platform_id r)) (ra_token r) (pr_rows_now run)"
    by (simp add: probe_token_def same)
  have "proves_endpoint (pr_exchange run (probe_token get_keys run ?l) f u)" for f u
    using assms(10) [of f u] unfolding token by force
  then have "run_answers get_keys run ?l"
    using assms(9) by (cases "pr_order run") (auto simp: run_answers_def Let_def build_urls_def)
  then have cb: "comes_back get_keys [] runs ?l" by (simp add: comes_back_def assms(8))
  have "?l \<in> set (load_keys_for_rapis get_keys ?un)"
    using assms(4-6) by (auto simp: load_keys_for_rapis_def)
  with cb have l: "?l \<in> set ?F" by simp
  then have "ra_id ?l \<in> ra_id ` set ?F" by (rule imageI)
  then have in_F: "ra_id r \<in> ra_id ` set ?F" by (simp only: same)
  have "ra_id r \<in># mset (map ri_id (rp_recovered rep))" using in_F by (simp only: e(2) set_mset_mset set_map)
  moreover have "SetAvailable (ra_id ?l) \<in># mset (concat (map (restore_calls codec get_keys runs) ?F))"
    using l by (simp only: set_mset_mset set_concat set_map) (force simp only: restore_calls_def list.set)
  then have "SetAvailable (ra_id r) \<in># mset (rv_calls st1)" by (simp only: e(4) same set_mset_union Un_iff simp_thms)
  moreover have "restored (rv_sched st1) (ra_id r)" using in_F by (simp only: e(5) simp_thms)
  ultimately show ?thesis by (simp add: st')
qed
section \<open>Concrete passes\<close>

definition sample_run :: "int \<Rightarrow> probe_run" where
  "sample_run status = \<lparr>pr_pool_now = 100, pr_rows_now = 100, pr_exchange = \<lambda>_ _ _. Answered status,
     pr_order = [FormatOpenAI], pr_duration_ms = 3, pr_mark_now = 100\<rparr>"

definition down_endpoint :: "int \<Rightarrow> int \<Rightarrow> rapi" where
  "down_endpoint i p = zero_rapi\<lparr>ra_id := i, ra_platform_id := p, ra_enabled := True, ra_available := False,
     ra_base_url := ''http://u'', ra_key_ids := ''1''\<rparr>"

definition sample_platform :: platform where
  "sample_platform = \<lparr>pt_id = 2, pt_name = [], pt_base_url = ''http://p'', pt_token = [], pt_notes = [],
     pt_custom_headers = [], pt_supported_formats = [], pt_format_endpoints = [], pt_login_account = [],
     pt_last_token_fetch = 0, pt_enabled = True, pt_available = False, pt_created_at = 0, pt_updated_at = 0\<rparr>"

definition idle_recovery :: recovery_state where
  "idle_recovery = \<lparr>rv_sched = new_manager default_config False, rv_running = False, rv_calls = []\<rparr>"

lemma sample_run_answers: "status \<notin> {400, 404, 405} \<Longrightarrow> run_answers get_keys (sample_run status) r"
  by (simp add: run_answers_def sample_run_def build_urls_def Let_def)

theorem recovery_exact_witness:
  "\<exists>st' rep. recover_unhealthy_rapis (up_codec sample_upstream) (\<lambda>_. None) (Some [sample_platform]) (Some [down_endpoint 7 1, down_endpoint 8 2])
      (\<lambda>_. ListStatus 500) (\<lambda>_. 100) (\<lambda>_. sample_run 200) rev idle_recovery = (st', rep) \<and>
     rp_probed rep = 2 \<and> mset (map ri_id (rp_recovered rep)) = {#7#} \<and> mset (map ri_id (rp_failed rep)) = {#8#} \<and>
     restored (rv_sched st') 7"
proof -
  obtain st' rep where run: "recover_unhealthy_rapis (up_codec sample_upstream) (\<lambda>_. None) (Some [sample_platform]) (Some [down_endpoint 7 1, down_endpoint 8 2])
      (\<lambda>_. ListStatus 500) (\<lambda>_. 100) (\<lambda>_. sample_run 200) rev idle_recovery = (st', rep)"
    by (metis prod.collapse)
  note e = recovery_exact [OF _ _ run refl refl refl, of 7 0]
  show ?thesis using run e
    by (simp add: idle_recovery_def sample_platform_def load_keys_for_rapis_def down_endpoint_def sample_run_answers)
qed

definition whitelisted_keys :: "platform_key list" where
  "whitelisted_keys = [(sample_key 1)\<lparr>pk_enabled := False\<rparr>, (sample_key 2)\<lparr>pk_token := ''other''\<rparr>]"

theorem dead_pool_revived_witness:
  "\<exists>st' rep. recover_platform_rapis (up_codec sample_upstream) (\<lambda>_. Some whitelisted_keys) (Some [down_endpoint 7 1]) 1
      (\<lambda>_. sample_run 401) rev idle_recovery = (st', rep) \<and>
     ra_keys (hd (load_keys_for_rapis (\<lambda>_. Some whitelisted_keys) [down_endpoint 7 1])) = [(sample_key 1)\<lparr>pk_enabled := False\<rparr>] \<and>
     7 \<in> set (map ri_id (rp_recovered rep)) \<and> SetAvailable 7 \<in> set (rv_calls st') \<and> restored (rv_sched st') 7"
proof -
  obtain st' rep where run: "recover_platform_rapis (up_codec sample_upstream) (\<lambda>_. Some whitelisted_keys) (Some [down_endpoint 7 1])
      (ra_platform_id (down_endpoint 7 1)) (\<lambda>_. sample_run 401) rev idle_recovery = (st', rep)"
    by (metis prod.collapse)
  have csv: "filter_keys_by_key_ids ks ''1'' = filter (\<lambda>k. pk_id k \<in> set [1]) ks" for ks
  proof -
    have t: "trim_space ''1'' = ''1''" by (rule trim_space_plain; use solid_chars in simp)
    moreover have "atoi ''1'' = Some 1" by code_simp
    ultimately have "allowed_ids ''1'' = [1]" by (simp add: allowed_ids_def)
    with t show ?thesis by (simp add: filter_keys_by_key_ids_def Let_def)
  qed
  have keys: "ra_keys (hd (load_keys_for_rapis (\<lambda>_. Some whitelisted_keys) [down_endpoint 7 1])) = [(sample_key 1)\<lparr>pk_enabled := False\<rparr>]"
    by (simp add: load_keys_for_rapis_def down_endpoint_def csv whitelisted_keys_def sample_key_def)
  have "ra_id (down_endpoint 7 1) = 7" "ra_platform_id (down_endpoint 7 1) = 1" by (simp_all add: down_endpoint_def)
  note at = this
  have "\<not> rv_running idle_recovery" "mset (rev rs) = mset rs" for rs :: "rapi list" by (simp_all add: idle_recovery_def)
  moreover have "down_endpoint 7 1 \<in> set [down_endpoint 7 1]" "ra_enabled (down_endpoint 7 1)" "\<not> ra_available (down_endpoint 7 1)"
    by (simp_all add: down_endpoint_def)
  moreover have "\<not> key_row_usable k now" if "k \<in> set (ra_keys (hd (load_keys_for_rapis (\<lambda>_. Some whitelisted_keys) [down_endpoint 7 1])))" for k now
    using that by (simp add: keys key_row_usable_def)
  moreover have "pr_order (sample_run 401) \<noteq> []"
    "\<exists>status. status \<notin> {400, 404, 405} \<and> pr_exchange (sample_run 401) token f u = Answered status" for token f u
    by (simp_all add: sample_run_def)
  ultimately have "ra_id (down_endpoint 7 1) \<in> set (map ri_id (rp_recovered rep)) \<and>
      SetAvailable (ra_id (down_endpoint 7 1)) \<in> set (rv_calls st') \<and> restored (rv_sched st') (ra_id (down_endpoint 7 1))"
    by (intro dead_pool_revived [OF _ _ run, where run = "sample_run 401"]) blast+
  then show ?thesis using run keys unfolding at by blast
qed

end
