(* ===== verification/Crypto.thy ===== *)
theory Crypto
  imports GoPrelude
begin

text \<open>
  The encryption of stored tokens, \<open>internal/crypto/crypto.go\<close>: the text format around AES-256-GCM, the
  handling of empty and legacy values, and the master key from the environment. AES, GCM and the random
  source are the standard library's: they are the parameter \<open>gcm\<close> and the nonce that was drawn.
\<close>

section \<open>Hexadecimal text\<close>

text \<open>\<open>hex.EncodeToString\<close> and \<open>hex.DecodeString\<close>.\<close>

definition hex_lower :: "nat \<Rightarrow> char" where
  "hex_lower n = char_of (if n < 10 then 48 + n else 87 + n)"

definition hex_encode :: "string \<Rightarrow> string" where
  "hex_encode s = concat (map (\<lambda>c. [hex_lower (of_char c div 16), hex_lower (of_char c mod 16)]) s)"

definition hex_value :: "char \<Rightarrow> nat option" where
  "hex_value c =
     (let n = of_char c in
      if 48 \<le> n \<and> n \<le> 57 then Some (n - 48)
      else if 97 \<le> n \<and> n \<le> 102 then Some (n - 87)
      else if 65 \<le> n \<and> n \<le> 70 then Some (n - 55)
      else None)"

fun hex_decode :: "string \<Rightarrow> string option" where
  "hex_decode [] = Some []"
| "hex_decode [c] = None"
| "hex_decode (a # b # s) =
     (case (hex_value a, hex_value b, hex_decode s) of
        (Some h, Some l, Some r) \<Rightarrow> Some (char_of (16 * h + l) # r)
      | _ \<Rightarrow> None)"

lemma hex_value_lower: "n < 16 \<Longrightarrow> hex_value (hex_lower n) = Some n"
  by (auto simp: hex_value_def hex_lower_def Let_def)

lemma hex_decode_encode: "hex_decode (hex_encode s) = Some s"
proof (induction s)
  case (Cons c s)
  have "of_char c < (256 :: nat)" by (metis of_char_mod_256 mod_less_divisor zero_less_numeral)
  then have "of_char c div 16 < (16 :: nat)" "16 * (of_char c div 16) + of_char c mod 16 = (of_char c :: nat)" by (simp_all add: less_mult_imp_div_less)
  with Cons show ?case by (simp add: hex_encode_def hex_value_lower)
qed (simp add: hex_encode_def)

section \<open>Values\<close>

datatype crypto_error = KeyNotInitialised | BadCipherKey | NoRandom | BadHex | TooShort | OpenFailed
  | MissingKey | KeyNotHex nat | KeyWrongLength nat

record gcm =
  gc_key_ok :: "string \<Rightarrow> bool"
  gc_nonce_size :: nat
  gc_seal :: "string \<Rightarrow> string \<Rightarrow> string \<Rightarrow> string"
  gc_open :: "string \<Rightarrow> string \<Rightarrow> string \<Rightarrow> string option"

definition encrypt_with_key :: "gcm \<Rightarrow> string option \<Rightarrow> string \<Rightarrow> string \<Rightarrow> crypto_error + string" where
  "encrypt_with_key g nonce plaintext key =
     (if plaintext = [] then Inr []
      else if key = [] then Inl KeyNotInitialised
      else if \<not> gc_key_ok g key then Inl BadCipherKey
      else (case nonce of
              None \<Rightarrow> Inl NoRandom
            | Some n \<Rightarrow> Inr (''enc:'' @ hex_encode (n @ gc_seal g key n plaintext))))"

definition decrypt_with_key :: "gcm \<Rightarrow> string \<Rightarrow> string \<Rightarrow> crypto_error + string" where
  "decrypt_with_key g ciphertext key =
     (if ciphertext = [] then Inr []
      else if \<not> has_prefix ciphertext ''enc:'' then Inr ciphertext
      else if key = [] then Inl KeyNotInitialised
      else (case hex_decode (trim_prefix ciphertext ''enc:'') of
              None \<Rightarrow> Inl BadHex
            | Some data \<Rightarrow>
                if \<not> gc_key_ok g key then Inl BadCipherKey
                else if length data < gc_nonce_size g then Inl TooShort
                else (case gc_open g key (take (gc_nonce_size g) data) (drop (gc_nonce_size g) data) of
                        None \<Rightarrow> Inl OpenFailed
                      | Some p \<Rightarrow> Inr p)))"

text \<open>The master key: \<open>env\<close> is the value of the environment variable, empty when it is not set.\<close>

definition load_key :: "string \<Rightarrow> crypto_error + string" where
  "load_key env =
     (let v = trim_space env in
      if v = [] then Inl MissingKey
      else (case hex_decode v of
              None \<Rightarrow> Inl (KeyNotHex (length v))
            | Some key \<Rightarrow> if length key \<noteq> 32 then Inl (KeyWrongLength (length key)) else Inr key))"

text \<open>\<open>Init\<close> replaces the active key only when a key was loaded.\<close>

definition crypto_init :: "string \<Rightarrow> string \<Rightarrow> crypto_error option \<times> string" where
  "crypto_init env active = (case load_key env of Inl e \<Rightarrow> (Some e, active) | Inr key \<Rightarrow> (None, key))"

definition encrypt :: "gcm \<Rightarrow> string option \<Rightarrow> string \<Rightarrow> string \<Rightarrow> crypto_error + string" where
  "encrypt g nonce active plaintext = encrypt_with_key g nonce plaintext active"

definition decrypt :: "gcm \<Rightarrow> string \<Rightarrow> string \<Rightarrow> crypto_error + string" where
  "decrypt g active ciphertext = decrypt_with_key g ciphertext active"

section \<open>Round trip\<close>

text \<open>What the standard library promises: opening what was sealed under the same key and nonce.\<close>

definition gcm_lawful :: "gcm \<Rightarrow> bool" where
  "gcm_lawful g \<longleftrightarrow> (\<forall>k n p. gc_key_ok g k \<and> length n = gc_nonce_size g \<longrightarrow> gc_open g k n (gc_seal g k n p) = Some p)"

lemma load_key_length: "load_key env = Inr key \<Longrightarrow> length key = 32 \<and> key \<noteq> []"
  by (auto simp: load_key_def Let_def split: option.splits if_splits)

lemma decrypt_encrypt:
  assumes "gcm_lawful g" and "gc_key_ok g key" and "key \<noteq> []" and "length n = gc_nonce_size g"
  shows "\<exists>c. encrypt g (Some n) key p = Inr c \<and> decrypt g key c = Inr p"
proof (cases "p = []")
  case True
  then show ?thesis by (simp add: encrypt_def encrypt_with_key_def decrypt_def decrypt_with_key_def)
next
  case False
  with False assms show ?thesis
    by (simp add: encrypt_def encrypt_with_key_def decrypt_def decrypt_with_key_def hex_decode_encode gcm_lawful_def
        has_prefix_def trim_prefix_def)
qed

text \<open>C38: A token stored under the loaded master key is read back as it was, the empty token included, and
  a non-empty one is never stored in the clear: the stored text carries the mark of an encrypted value. A value
  stored before there was encryption carries no mark and is read as it stands.\<close>

theorem stored_token_round_trip:
  assumes "gcm_lawful g" and "gc_key_ok g key" and "crypto_init env active = (None, key)"
    and "length n = gc_nonce_size g"
  shows "\<exists>c. encrypt g (Some n) key p = Inr c \<and> decrypt g key c = Inr p \<and>
    (p = [] \<and> c = [] \<or> p \<noteq> [] \<and> has_prefix c ''enc:'') \<and>
    (has_prefix q ''enc:'' \<or> decrypt g key q = Inr q)"
proof -
  have "key \<noteq> []" using assms(3) load_key_length by (auto simp: crypto_init_def split: sum.splits)
  from decrypt_encrypt [OF assms(1,2) this assms(4)] obtain c
    where c: "encrypt g (Some n) key p = Inr c" "decrypt g key c = Inr p" by blast
  moreover have "p = [] \<and> c = [] \<or> p \<noteq> [] \<and> has_prefix c ''enc:''"
    using c(1) by (auto simp: encrypt_def encrypt_with_key_def has_prefix_def split: if_splits)
  moreover have "has_prefix q ''enc:'' \<or> decrypt g key q = Inr q"
    by (simp add: decrypt_def decrypt_with_key_def)
  ultimately show ?thesis by blast
qed

definition sample_gcm :: gcm where
  "sample_gcm = \<lparr>gc_key_ok = (\<lambda>k. length k = 32), gc_nonce_size = 2, gc_seal = (\<lambda>k n p. rev p @ ''t''),
     gc_open = (\<lambda>k n d. if d \<noteq> [] \<and> last d = CHR ''t'' then Some (rev (butlast d)) else None)\<rparr>"

theorem stored_token_round_trip_witness:
  "\<exists>key c. crypto_init (concat (replicate 32 ''0f'')) [] = (None, key) \<and>
     encrypt sample_gcm (Some ''ab'') key ''secret'' = Inr c \<and> decrypt sample_gcm key c = Inr ''secret'' \<and>
     decrypt sample_gcm key ''plain'' = Inr ''plain''"
proof -
  let ?env = "concat (replicate 32 ''0f'') :: string"
  have "trim_space ?env = ?env" by (rule trim_space_plain; use solid_chars in \<open>simp add: numeral_eq_Suc\<close>)
  moreover have "hex_decode ?env = Some (replicate 32 CHR 0x0F)" by code_simp
  moreover have "?env \<noteq> []" by (simp add: numeral_eq_Suc)
  ultimately have "crypto_init ?env [] = (None, replicate 32 CHR 0x0F)"
    by (simp add: crypto_init_def load_key_def)
  moreover have "gcm_lawful sample_gcm" "gc_key_ok sample_gcm (replicate 32 CHR 0x0F)"
    "length ''ab'' = gc_nonce_size sample_gcm"
    by (simp_all add: gcm_lawful_def sample_gcm_def)
  ultimately show ?thesis using stored_token_round_trip [of sample_gcm _ ?env "[]" "''ab''" "''secret''" "''plain''"]
    by (auto simp: has_prefix_def)
qed

end
