(* ===== verification/LocalDb.thy ===== *)
theory LocalDb
  imports SchedCost Bundle Crypto
begin

text \<open>
  The local SQLite database, \<open>internal/db\<close>: the tables of definitions with the constraints of their
  schema (\<open>db.go\<close>, \<open>migrate_natural_keys.go\<close> in its final state), and the bindings of credentials to
  endpoints with the column \<open>key_ids\<close> derived from them (\<open>credential.go\<close>).

  A table is the list of its rows in the order of insertion. A statement is checked against the unique
  indexes and foreign keys when it ends, \<open>checked\<close>; a violation is its error and, as every write of the
  program is one transaction, leaves the database as it was. Deleting a row takes the rows that refer to
  it along (\<open>ON DELETE CASCADE\<close>). Other failures of SQLite (disk, locks) are left out. A binding has no
  number of its own here: nothing reads it.
\<close>

section \<open>Tables\<close>

record plat_row =
  xp_id :: int
  xp_name :: string
  xp_base_url :: string
  xp_token :: string
  xp_last_token_fetch :: "instant option"
  xp_enabled :: bool
  xp_available :: bool
  xp_notes :: string
  xp_supported_formats :: string
  xp_format_endpoints :: string
  xp_custom_headers :: string
  xp_login_account :: string
  xp_sort_order :: int
  xp_created_at :: instant
  xp_updated_at :: instant

record credential_row =
  xc_id :: int
  xc_platform_id :: int
  xc_token_hash :: "string option"
  xc_token :: string
  xc_label :: string
  xc_enabled :: bool
  xc_failure_type :: int
  xc_failure_reason :: string
  xc_failed_at :: "instant option"
  xc_expires_at :: "instant option"
  xc_is_free :: bool
  xc_sort_order :: int
  xc_created_at :: instant
  xc_updated_at :: instant

record rapi_row =
  xr_id :: int
  xr_alias :: string
  xr_model :: string
  xr_vendor :: string
  xr_series :: string
  xr_model_name :: string
  xr_version :: string
  xr_suffix :: string
  xr_platform_id :: int
  xr_enabled :: bool
  xr_available :: bool
  xr_unavailable_reason :: string
  xr_base_cost :: int
  xr_high_cost :: int
  xr_rpm_limit :: int
  xr_rph_limit :: int
  xr_rpd_limit :: int
  xr_tpm_limit :: int
  xr_tph_limit :: int
  xr_tpd_limit :: int
  xr_time_period_rules :: string
  xr_supported_formats :: string
  xr_custom_headers :: string
  xr_key_ids :: string
  xr_notes :: string
  xr_source :: string
  xr_sort_order :: int
  xr_created_at :: instant
  xr_updated_at :: instant

record lapi_row =
  xl_id :: int
  xl_alias :: string
  xl_notes :: string
  xl_enabled :: bool
  xl_vendor :: string
  xl_series :: string
  xl_model_name :: string
  xl_version :: string
  xl_suffix :: string
  xl_sort_order :: int
  xl_created_at :: instant

record binding_row =
  xb_rapi_id :: int
  xb_credential_id :: int
  xb_rpm_limit :: int
  xb_rph_limit :: int
  xb_rpd_limit :: int
  xb_tpm_limit :: int
  xb_tph_limit :: int
  xb_tpd_limit :: int
  xb_enabled :: bool

record order_row =
  xo_lapi_id :: int
  xo_rapi_id :: int
  xo_order_index :: int

record sync_state =
  sy_current_version :: int
  sy_last_good_version :: int
  sy_last_synced_at :: instant
  sy_source_url :: string

text \<open>\<open>db_seq_*\<close> are the numbers \<open>AUTOINCREMENT\<close> gives next. Of the blocks and the metrics only the keys
  matter here.\<close>

record local_db =
  db_platforms :: "plat_row list"
  db_credentials :: "credential_row list"
  db_rapis :: "rapi_row list"
  db_lapis :: "lapi_row list"
  db_bindings :: "binding_row list"
  db_orders :: "order_row list"
  db_blocks :: "(int \<times> int) list"
  db_metrics :: "(int \<times> int) list"
  db_sync :: "sync_state option"
  db_seq_platform :: int
  db_seq_credential :: int
  db_seq_rapi :: int
  db_seq_lapi :: int

definition empty_db :: local_db where
  "empty_db = \<lparr>db_platforms = [], db_credentials = [], db_rapis = [], db_lapis = [], db_bindings = [],
     db_orders = [], db_blocks = [], db_metrics = [], db_sync = None, db_seq_platform = 1, db_seq_credential = 1,
     db_seq_rapi = 1, db_seq_lapi = 1\<rparr>"

section \<open>Errors and statements\<close>

datatype db_error =
    UniqueFailed string
  | ForeignKeyFailed string
  | NoRows
  | BaseUrlTaken string
  | TokenTaken
  | PlatformHasRapis nat "string list"
  | RapiInChains "string list"
  | CryptoFailed crypto_error
  | BundleInvalid bundle_error
  | EmptyDefinitions
  | NullHash
  | CenterTokenEncrypted
  | HashMismatch string string
  | MissingReference string

definition and_then :: "'e + 'a \<Rightarrow> ('a \<Rightarrow> 'e + 'b) \<Rightarrow> 'e + 'b" where
  "and_then r f = (case r of Inl e \<Rightarrow> Inl e | Inr x \<Rightarrow> f x)"

fun each :: "('a \<Rightarrow> 's \<Rightarrow> 'e + 's) \<Rightarrow> 'a list \<Rightarrow> 's \<Rightarrow> 'e + 's" where
  "each f [] s = Inr s"
| "each f (x # xs) s = and_then (f x s) (each f xs)"

text \<open>A transaction commits its last state or rolls back.\<close>

definition transact :: "(local_db \<Rightarrow> db_error + local_db) \<Rightarrow> local_db \<Rightarrow> db_error option \<times> local_db" where
  "transact f db = (case f db of Inl e \<Rightarrow> (Some e, db) | Inr db' \<Rightarrow> (None, db'))"

definition unique_platforms :: "local_db \<Rightarrow> bool" where
  "unique_platforms db \<longleftrightarrow> distinct (map xp_base_url (filter (\<lambda>p. xp_base_url p \<noteq> []) (db_platforms db)))"

definition unique_credentials :: "local_db \<Rightarrow> bool" where
  "unique_credentials db \<longleftrightarrow> distinct (List.map_filter xc_token_hash (db_credentials db))"

definition unique_rapis :: "local_db \<Rightarrow> bool" where
  "unique_rapis db \<longleftrightarrow>
     distinct (map (\<lambda>r. (xr_platform_id r, xr_model r)) (filter (\<lambda>r. xr_model r \<noteq> []) (db_rapis db)))"

definition unique_lapis :: "local_db \<Rightarrow> bool" where
  "unique_lapis db \<longleftrightarrow> distinct (map xl_alias (db_lapis db))"

definition unique_bindings :: "local_db \<Rightarrow> bool" where
  "unique_bindings db \<longleftrightarrow> distinct (map (\<lambda>b. (xb_rapi_id b, xb_credential_id b)) (db_bindings db))"

definition unique_orders :: "local_db \<Rightarrow> bool" where
  "unique_orders db \<longleftrightarrow>
     distinct (map (\<lambda>x. (xo_lapi_id x, xo_rapi_id x)) (db_orders db)) \<and>
     distinct (map (\<lambda>x. (xo_lapi_id x, xo_order_index x)) (db_orders db))"

definition platform_ids :: "local_db \<Rightarrow> int list" where
  "platform_ids db = map xp_id (db_platforms db)"

definition credential_ids :: "local_db \<Rightarrow> int list" where
  "credential_ids db = map xc_id (db_credentials db)"

definition rapi_ids :: "local_db \<Rightarrow> int list" where
  "rapi_ids db = map xr_id (db_rapis db)"

definition lapi_ids :: "local_db \<Rightarrow> int list" where
  "lapi_ids db = map xl_id (db_lapis db)"

definition references_ok :: "local_db \<Rightarrow> bool" where
  "references_ok db \<longleftrightarrow>
     (\<forall>c \<in> set (db_credentials db). xc_platform_id c \<in> set (platform_ids db)) \<and>
     (\<forall>r \<in> set (db_rapis db). xr_platform_id r \<in> set (platform_ids db)) \<and>
     (\<forall>b \<in> set (db_bindings db). xb_rapi_id b \<in> set (rapi_ids db) \<and> xb_credential_id b \<in> set (credential_ids db)) \<and>
     (\<forall>x \<in> set (db_orders db). xo_lapi_id x \<in> set (lapi_ids db) \<and> xo_rapi_id x \<in> set (rapi_ids db))"

definition checked :: "local_db \<Rightarrow> db_error + local_db" where
  "checked db =
     (if \<not> unique_platforms db then Inl (UniqueFailed ''idx_platform_base_url'')
      else if \<not> unique_credentials db then Inl (UniqueFailed ''idx_credential_token_hash'')
      else if \<not> unique_rapis db then Inl (UniqueFailed ''idx_rapi_platform_model'')
      else if \<not> unique_lapis db then Inl (UniqueFailed ''lapi.alias'')
      else if \<not> unique_bindings db then Inl (UniqueFailed ''endpoint_credential'')
      else if \<not> unique_orders db then Inl (UniqueFailed ''lapi_rapi_order'')
      else if \<not> references_ok db then Inl (ForeignKeyFailed ''foreign key'')
      else Inr db)"

definition constraints :: "local_db \<Rightarrow> bool" where
  "constraints db \<longleftrightarrow> unique_platforms db \<and> unique_credentials db \<and> unique_rapis db \<and> unique_lapis db \<and>
     unique_bindings db \<and> unique_orders db \<and> references_ok db"

definition update_where :: "('a \<Rightarrow> bool) \<Rightarrow> ('a \<Rightarrow> 'a) \<Rightarrow> 'a list \<Rightarrow> 'a list" where
  "update_where p f rows = map (\<lambda>r. if p r then f r else r) rows"

section \<open>Deleting with what refers to it\<close>

definition delete_rapis :: "(rapi_row \<Rightarrow> bool) \<Rightarrow> local_db \<Rightarrow> local_db" where
  "delete_rapis p db =
     (let gone = map xr_id (filter p (db_rapis db)) in
      db\<lparr>db_rapis := filter (\<lambda>r. \<not> p r) (db_rapis db),
         db_bindings := filter (\<lambda>b. xb_rapi_id b \<notin> set gone) (db_bindings db),
         db_orders := filter (\<lambda>x. xo_rapi_id x \<notin> set gone) (db_orders db),
         db_metrics := filter (\<lambda>(r, l). r \<notin> set gone) (db_metrics db),
         db_blocks := filter (\<lambda>(k, r). r \<notin> set gone) (db_blocks db)\<rparr>)"

definition delete_credentials :: "(credential_row \<Rightarrow> bool) \<Rightarrow> local_db \<Rightarrow> local_db" where
  "delete_credentials p db =
     (let gone = map xc_id (filter p (db_credentials db)) in
      db\<lparr>db_credentials := filter (\<lambda>c. \<not> p c) (db_credentials db),
         db_bindings := filter (\<lambda>b. xb_credential_id b \<notin> set gone) (db_bindings db),
         db_blocks := filter (\<lambda>(k, r). k \<notin> set gone) (db_blocks db)\<rparr>)"

definition delete_platforms :: "(plat_row \<Rightarrow> bool) \<Rightarrow> local_db \<Rightarrow> local_db" where
  "delete_platforms p db =
     (let gone = map xp_id (filter p (db_platforms db));
          db = delete_rapis (\<lambda>r. xr_platform_id r \<in> set gone) db;
          db = delete_credentials (\<lambda>c. xc_platform_id c \<in> set gone) db
      in db\<lparr>db_platforms := filter (\<lambda>r. \<not> p r) (db_platforms db)\<rparr>)"

definition delete_lapis :: "(lapi_row \<Rightarrow> bool) \<Rightarrow> local_db \<Rightarrow> local_db" where
  "delete_lapis p db =
     (let gone = map xl_id (filter p (db_lapis db)) in
      db\<lparr>db_lapis := filter (\<lambda>l. \<not> p l) (db_lapis db),
         db_orders := filter (\<lambda>x. xo_lapi_id x \<notin> set gone) (db_orders db),
         db_metrics := filter (\<lambda>(r, l). l \<notin> set gone) (db_metrics db)\<rparr>)"

section \<open>Bindings and the derived column\<close>

text \<open>\<open>fmt.Sscanf(p, "%d", &id)\<close>: a sign, then the digits up to the first other byte.\<close>

definition scan_int :: "string \<Rightarrow> int option" where
  "scan_int s =
     (let (neg, ds) = (case s of
             [] \<Rightarrow> (False, [])
           | c # s' \<Rightarrow> if c = CHR ''-'' then (True, s') else if c = CHR ''+'' then (False, s') else (False, s));
          run = takeWhile (\<lambda>c. CHR ''0'' \<le> c \<and> c \<le> CHR ''9'') ds
      in if run = [] then None
         else case digits_value run 0 of
           None \<Rightarrow> None
         | Some n \<Rightarrow> let v = (if neg then - n else n) in if in_int64 v then Some v else None)"

definition parse_id_csv :: "string \<Rightarrow> int list" where
  "parse_id_csv s =
     List.map_filter (\<lambda>p. let p = trim_space p in if p = [] then None else scan_int p) (split_on (CHR '','') s)"

definition id_csv :: "int list \<Rightarrow> string" where
  "id_csv ids = join_with '','' (map int_str ids)"

text \<open>The credentials bound to an endpoint and enabled there, in ascending order.\<close>

definition bound_ids :: "int \<Rightarrow> local_db \<Rightarrow> int list" where
  "bound_ids i db = sort (map xb_credential_id (filter (\<lambda>b. xb_rapi_id b = i \<and> xb_enabled b) (db_bindings db)))"

definition refresh_where :: "(rapi_row \<Rightarrow> bool) \<Rightarrow> local_db \<Rightarrow> local_db" where
  "refresh_where p db =
     db\<lparr>db_rapis := update_where p (\<lambda>r. r\<lparr>xr_key_ids := id_csv (bound_ids (xr_id r) db)\<rparr>) (db_rapis db)\<rparr>"

definition refresh_key_ids :: "int list \<Rightarrow> local_db \<Rightarrow> local_db" where
  "refresh_key_ids ids = refresh_where (\<lambda>r. xr_id r \<in> set ids)"

definition refresh_key_ids_for_platform :: "int \<Rightarrow> local_db \<Rightarrow> local_db" where
  "refresh_key_ids_for_platform platform_id = refresh_where (\<lambda>r. xr_platform_id r = platform_id)"

text \<open>\<open>INSERT OR IGNORE\<close>: an existing pair is left as it is.\<close>

definition new_binding :: "int \<Rightarrow> int \<Rightarrow> binding_row" where
  "new_binding rapi_id credential_id =
     \<lparr>xb_rapi_id = rapi_id, xb_credential_id = credential_id, xb_rpm_limit = 0, xb_rph_limit = 0, xb_rpd_limit = 0,
      xb_tpm_limit = 0, xb_tph_limit = 0, xb_tpd_limit = 0, xb_enabled = True\<rparr>"

definition bind :: "int \<Rightarrow> int \<Rightarrow> local_db \<Rightarrow> local_db" where
  "bind rapi_id credential_id db =
     (if (rapi_id, credential_id) \<in> set (map (\<lambda>b. (xb_rapi_id b, xb_credential_id b)) (db_bindings db)) then db
      else db\<lparr>db_bindings := db_bindings db @ [new_binding rapi_id credential_id]\<rparr>)"

definition platform_credentials :: "int \<Rightarrow> local_db \<Rightarrow> int list" where
  "platform_credentials platform_id db =
     map xc_id (filter (\<lambda>c. xc_platform_id c = platform_id) (db_credentials db))"

definition wanted_ids :: "int \<Rightarrow> string \<Rightarrow> local_db \<Rightarrow> int list" where
  "wanted_ids platform_id key_ids_csv db =
     (let valid = platform_credentials platform_id db in
      if trim_space key_ids_csv = [] then valid
      else filter (\<lambda>i. i \<in> set valid) (parse_id_csv key_ids_csv))"

definition sync_bindings :: "int \<Rightarrow> int \<Rightarrow> string \<Rightarrow> local_db \<Rightarrow> db_error + local_db" where
  "sync_bindings rapi_id platform_id key_ids_csv db =
     (let want = wanted_ids platform_id key_ids_csv db;
          db = db\<lparr>db_bindings := filter (\<lambda>b. \<not> (xb_rapi_id b = rapi_id \<and> xb_credential_id b \<notin> set want)) (db_bindings db)\<rparr>
      in and_then (each (\<lambda>c db. checked (bind rapi_id c db)) want db)
           (\<lambda>db. Inr (refresh_key_ids [rapi_id] db)))"

definition bind_credential_to_platform :: "int \<Rightarrow> int \<Rightarrow> local_db \<Rightarrow> db_error + local_db" where
  "bind_credential_to_platform platform_id credential_id db =
     checked (fold (\<lambda>r. bind (xr_id r) credential_id) (filter (\<lambda>r. xr_platform_id r = platform_id) (db_rapis db)) db)"

end
