(* ===== verification/LocalStore.thy ===== *)
theory LocalStore
  imports LocalDb
begin

text \<open>
  The operations of the local store on platforms, endpoints, models, credentials and chains,
  \<open>internal/db/db.go\<close> and \<open>credential.go\<close>, with the queries the gateway and the dashboard read them by.

  \<open>db_env\<close> is what they call: encryption under the loaded key (\<open>Crypto\<close>; the nonce of an encryption is part
  of the function), SHA-256 in hexadecimal, \<open>net/url\<close> and the case tables. \<open>now\<close> is the reading of the clock,
  by Go or by SQLite. An operation returns its error or the database after its transaction.
\<close>

section \<open>Parameters\<close>

record parsed_url =
  pu_scheme :: string
  pu_host :: string
  pu_hostname :: string
  pu_port :: string
  pu_path :: string

record db_env =
  de_seal :: "string \<Rightarrow> crypto_error + string"
  de_open :: "string \<Rightarrow> crypto_error + string"
  de_sha :: "string \<Rightarrow> string"
  de_parse_url :: "string \<Rightarrow> parsed_url option"
  de_lower :: "string \<Rightarrow> string"

definition normalize_base_url :: "db_env \<Rightarrow> string \<Rightarrow> string" where
  "normalize_base_url env raw =
     (let s = trim_space raw in
      if s = [] then []
      else (case de_parse_url env s of
              None \<Rightarrow> trim_right_char CHR ''/'' s
            | Some u \<Rightarrow>
                if pu_host u = [] then trim_right_char CHR ''/'' s
                else
                  (let scheme = to_lower (de_lower env) (pu_scheme u);
                       host = to_lower (de_lower env) (pu_hostname u);
                       port = pu_port u;
                       host = (if port \<noteq> [] \<and> \<not> (scheme = ''https'' \<and> port = ''443'' \<or> scheme = ''http'' \<and> port = ''80'')
                               then host @ '':'' @ port else host)
                   in scheme @ ''://'' @ host @ trim_right_char CHR ''/'' (pu_path u))))"

definition token_hash :: "db_env \<Rightarrow> string \<Rightarrow> string" where
  "token_hash env token = (if token = [] then [] else take 16 (de_sha env token))"

definition token_hash_arg :: "db_env \<Rightarrow> string \<Rightarrow> string option" where
  "token_hash_arg env token = (let h = token_hash env token in if h \<noteq> [] then Some h else None)"

definition expires_arg :: "instant option \<Rightarrow> instant option" where
  "expires_arg t = (case t of None \<Rightarrow> None | Some t \<Rightarrow> if t = zero_time then None else Some t)"

definition seal :: "db_env \<Rightarrow> string \<Rightarrow> db_error + string" where
  "seal env token = (case de_seal env token of Inl e \<Rightarrow> Inl (CryptoFailed e) | Inr c \<Rightarrow> Inr c)"

definition unseal :: "db_env \<Rightarrow> string \<Rightarrow> db_error + string" where
  "unseal env token = (case de_open env token of Inl e \<Rightarrow> Inl (CryptoFailed e) | Inr p \<Rightarrow> Inr p)"

definition default_formats :: string where
  "default_formats = ''[\"openai\"]''"

section \<open>Platforms\<close>

definition insert_platform :: "plat_row \<Rightarrow> local_db \<Rightarrow> db_error + local_db \<times> int" where
  "insert_platform row db =
     (let i = db_seq_platform db in
      and_then (checked (db\<lparr>db_platforms := db_platforms db @ [row\<lparr>xp_id := i\<rparr>], db_seq_platform := i + 1\<rparr>))
        (\<lambda>db. Inr (db, i)))"

definition write_platform :: "int \<Rightarrow> (plat_row \<Rightarrow> plat_row) \<Rightarrow> local_db \<Rightarrow> db_error + local_db" where
  "write_platform i f db = checked (db\<lparr>db_platforms := update_where (\<lambda>p. xp_id p = i) f (db_platforms db)\<rparr>)"

definition create_platform :: "db_env \<Rightarrow> instant \<Rightarrow> platform \<Rightarrow> local_db \<Rightarrow> db_error + local_db \<times> int" where
  "create_platform env now p db =
     (let url = normalize_base_url env (pt_base_url p) in
      if url \<noteq> [] \<and> url \<in> set (map xp_base_url (db_platforms db)) then Inl (BaseUrlTaken url)
      else and_then (seal env (pt_token p)) (\<lambda>token.
        insert_platform \<lparr>xp_id = 0, xp_name = pt_name p, xp_base_url = url, xp_token = token,
          xp_last_token_fetch = Some now, xp_enabled = pt_enabled p, xp_available = pt_available p, xp_notes = pt_notes p,
          xp_supported_formats = (if pt_supported_formats p = [] then default_formats else pt_supported_formats p),
          xp_format_endpoints = pt_format_endpoints p, xp_custom_headers = pt_custom_headers p,
          xp_login_account = pt_login_account p, xp_sort_order = 0, xp_created_at = now, xp_updated_at = now\<rparr> db))"

definition update_platform :: "db_env \<Rightarrow> instant \<Rightarrow> platform \<Rightarrow> local_db \<Rightarrow> db_error + local_db" where
  "update_platform env now p db =
     (let url = normalize_base_url env (pt_base_url p) in
      if url \<noteq> [] \<and> url \<in> set (map xp_base_url (filter (\<lambda>q. xp_id q \<noteq> pt_id p) (db_platforms db))) then Inl (BaseUrlTaken url)
      else and_then (seal env (pt_token p)) (\<lambda>token.
        write_platform (pt_id p) (\<lambda>q. q\<lparr>xp_name := pt_name p, xp_base_url := url, xp_token := token,
          xp_enabled := pt_enabled p, xp_available := pt_available p, xp_notes := pt_notes p,
          xp_custom_headers := pt_custom_headers p,
          xp_supported_formats := (if pt_supported_formats p = [] then default_formats else pt_supported_formats p),
          xp_format_endpoints := pt_format_endpoints p, xp_login_account := pt_login_account p,
          xp_updated_at := now\<rparr>) db))"

definition delete_platform :: "int \<Rightarrow> local_db \<Rightarrow> db_error + local_db" where
  "delete_platform i db =
     (let rapis = filter (\<lambda>r. xr_platform_id r = i) (db_rapis db) in
      if rapis \<noteq> [] then Inl (PlatformHasRapis (length rapis) (map xr_alias rapis))
      else Inr (delete_platforms (\<lambda>p. xp_id p = i) db))"

definition delete_platform_cascade :: "int \<Rightarrow> local_db \<Rightarrow> db_error + local_db" where
  "delete_platform_cascade i db =
     (let gone = map xr_id (filter (\<lambda>r. xr_platform_id r = i) (db_rapis db));
          db = db\<lparr>db_orders := filter (\<lambda>x. xo_rapi_id x \<notin> set gone) (db_orders db)\<rparr>;
          db = db\<lparr>db_metrics := filter (\<lambda>(r, l). r \<notin> set gone) (db_metrics db)\<rparr>;
          db = delete_rapis (\<lambda>r. xr_platform_id r = i) db;
          db = delete_credentials (\<lambda>c. xc_platform_id c = i) db
      in Inr (delete_platforms (\<lambda>p. xp_id p = i) db))"

definition set_platform_enabled :: "int \<Rightarrow> bool \<Rightarrow> instant \<Rightarrow> local_db \<Rightarrow> db_error + local_db" where
  "set_platform_enabled i enabled now = write_platform i (\<lambda>p. p\<lparr>xp_enabled := enabled, xp_updated_at := now\<rparr>)"

definition set_platform_available :: "int \<Rightarrow> bool \<Rightarrow> instant \<Rightarrow> local_db \<Rightarrow> db_error + local_db" where
  "set_platform_available i available now = write_platform i (\<lambda>p. p\<lparr>xp_available := available, xp_updated_at := now\<rparr>)"

definition set_platform_sort_order :: "int list \<Rightarrow> local_db \<Rightarrow> db_error + local_db" where
  "set_platform_sort_order ids = each (\<lambda>(n, i). write_platform i (\<lambda>p. p\<lparr>xp_sort_order := int n\<rparr>)) (enumerate 0 ids)"

section \<open>Endpoints\<close>

definition insert_rapi :: "rapi_row \<Rightarrow> local_db \<Rightarrow> db_error + local_db \<times> int" where
  "insert_rapi row db =
     (let i = db_seq_rapi db in
      and_then (checked (db\<lparr>db_rapis := db_rapis db @ [row\<lparr>xr_id := i\<rparr>], db_seq_rapi := i + 1\<rparr>)) (\<lambda>db. Inr (db, i)))"

definition write_rapi :: "int \<Rightarrow> (rapi_row \<Rightarrow> rapi_row) \<Rightarrow> local_db \<Rightarrow> db_error + local_db" where
  "write_rapi i f db = checked (db\<lparr>db_rapis := update_where (\<lambda>r. xr_id r = i) f (db_rapis db)\<rparr>)"

definition update_platform_formats :: "int \<Rightarrow> string \<Rightarrow> bool \<Rightarrow> string \<Rightarrow> instant \<Rightarrow> local_db \<Rightarrow> db_error + local_db" where
  "update_platform_formats i formats propagate endpoints now db =
     and_then (if endpoints \<noteq> []
               then write_platform i (\<lambda>p. p\<lparr>xp_supported_formats := formats, xp_format_endpoints := endpoints, xp_updated_at := now\<rparr>) db
               else write_platform i (\<lambda>p. p\<lparr>xp_supported_formats := formats, xp_updated_at := now\<rparr>) db)
       (\<lambda>db. if propagate
              then checked (db\<lparr>db_rapis := update_where (\<lambda>r. xr_platform_id r = i)
                (\<lambda>r. r\<lparr>xr_supported_formats := formats, xr_updated_at := now\<rparr>) (db_rapis db)\<rparr>)
              else Inr db)"

definition create_rapi :: "instant \<Rightarrow> rapi \<Rightarrow> local_db \<Rightarrow> db_error + local_db \<times> int" where
  "create_rapi now r db =
     and_then (insert_rapi \<lparr>xr_id = 0, xr_alias = ra_alias r, xr_model = ra_model r, xr_vendor = ra_vendor r,
         xr_series = ra_series r, xr_model_name = ra_model_name r, xr_version = ra_version r, xr_suffix = ra_suffix r,
         xr_platform_id = ra_platform_id r, xr_enabled = ra_enabled r, xr_available = ra_available r,
         xr_unavailable_reason = [], xr_base_cost = ra_base_cost r, xr_high_cost = ra_high_cost r,
         xr_rpm_limit = ra_rpm_limit r, xr_rph_limit = ra_rph_limit r, xr_rpd_limit = ra_rpd_limit r,
         xr_tpm_limit = ra_tpm_limit r, xr_tph_limit = ra_tph_limit r, xr_tpd_limit = ra_tpd_limit r,
         xr_time_period_rules = ra_time_period_rules r,
         xr_supported_formats = (if ra_supported_formats r = [] then default_formats else ra_supported_formats r),
         xr_custom_headers = ra_custom_headers r, xr_key_ids = [], xr_notes = ra_notes r,
         xr_source = (if ra_source r = [] then ''manual'' else ra_source r), xr_sort_order = 0,
         xr_created_at = now, xr_updated_at = now\<rparr> db)
       (\<lambda>(db, i). and_then (sync_bindings i (ra_platform_id r) (ra_key_ids r) db) (\<lambda>db. Inr (db, i)))"

definition rapi_columns :: "instant \<Rightarrow> rapi \<Rightarrow> rapi_row \<Rightarrow> rapi_row" where
  "rapi_columns now r x =
     x\<lparr>xr_alias := ra_alias r, xr_model := ra_model r, xr_notes := ra_notes r, xr_vendor := ra_vendor r,
       xr_series := ra_series r, xr_model_name := ra_model_name r, xr_version := ra_version r, xr_suffix := ra_suffix r,
       xr_platform_id := ra_platform_id r, xr_enabled := ra_enabled r, xr_available := ra_available r,
       xr_base_cost := ra_base_cost r, xr_high_cost := ra_high_cost r, xr_rpm_limit := ra_rpm_limit r,
       xr_rph_limit := ra_rph_limit r, xr_rpd_limit := ra_rpd_limit r, xr_tpm_limit := ra_tpm_limit r,
       xr_tph_limit := ra_tph_limit r, xr_tpd_limit := ra_tpd_limit r, xr_time_period_rules := ra_time_period_rules r,
       xr_supported_formats := ra_supported_formats r, xr_custom_headers := ra_custom_headers r,
       xr_source := ra_source r, xr_updated_at := now\<rparr>"

definition update_rapi :: "instant \<Rightarrow> rapi \<Rightarrow> local_db \<Rightarrow> db_error + local_db" where
  "update_rapi now r db =
     and_then (write_rapi (ra_id r) (rapi_columns now r) db) (sync_bindings (ra_id r) (ra_platform_id r) (ra_key_ids r))"

definition rapi_model_exists :: "int \<Rightarrow> string \<Rightarrow> int \<Rightarrow> local_db \<Rightarrow> bool" where
  "rapi_model_exists platform_id model exclude db \<longleftrightarrow>
     trim_space model \<noteq> [] \<and>
     filter (\<lambda>r. xr_platform_id r = platform_id \<and> xr_model r = model \<and> xr_id r \<noteq> exclude) (db_rapis db) \<noteq> []"

definition delete_rapi :: "int \<Rightarrow> local_db \<Rightarrow> db_error + local_db" where
  "delete_rapi i db =
     (let chains = map xo_lapi_id (filter (\<lambda>x. xo_rapi_id x = i) (db_orders db)) in
      if chains \<noteq> [] then Inl (RapiInChains (map xl_alias (filter (\<lambda>l. xl_id l \<in> set chains) (db_lapis db))))
      else Inr (delete_rapis (\<lambda>r. xr_id r = i) db))"

definition delete_rapi_cascade :: "int \<Rightarrow> local_db \<Rightarrow> db_error + local_db" where
  "delete_rapi_cascade i db =
     (let db = db\<lparr>db_orders := filter (\<lambda>x. xo_rapi_id x \<noteq> i) (db_orders db)\<rparr>;
          db = db\<lparr>db_metrics := filter (\<lambda>(r, l). r \<noteq> i) (db_metrics db)\<rparr>
      in Inr (delete_rapis (\<lambda>r. xr_id r = i) db))"

definition set_rapi_enabled :: "int \<Rightarrow> bool \<Rightarrow> instant \<Rightarrow> local_db \<Rightarrow> db_error + local_db" where
  "set_rapi_enabled i enabled now = write_rapi i (\<lambda>r. r\<lparr>xr_enabled := enabled, xr_updated_at := now\<rparr>)"

definition set_rapi_available :: "int \<Rightarrow> bool \<Rightarrow> instant \<Rightarrow> local_db \<Rightarrow> db_error + local_db" where
  "set_rapi_available i available now = write_rapi i (\<lambda>r. r\<lparr>xr_available := available, xr_updated_at := now\<rparr>)"

definition set_rapi_unavailable_with_reason :: "int \<Rightarrow> bool \<Rightarrow> string \<Rightarrow> instant \<Rightarrow> local_db \<Rightarrow> db_error + local_db" where
  "set_rapi_unavailable_with_reason i available reason now =
     write_rapi i (\<lambda>r. r\<lparr>xr_available := available, xr_unavailable_reason := (if available then [] else reason), xr_updated_at := now\<rparr>)"

definition update_rapi_formats :: "int \<Rightarrow> string \<Rightarrow> instant \<Rightarrow> local_db \<Rightarrow> db_error + local_db" where
  "update_rapi_formats i formats now = write_rapi i (\<lambda>r. r\<lparr>xr_supported_formats := formats, xr_updated_at := now\<rparr>)"

definition update_rapi_headers :: "int \<Rightarrow> string \<Rightarrow> instant \<Rightarrow> local_db \<Rightarrow> db_error + local_db" where
  "update_rapi_headers i headers now = write_rapi i (\<lambda>r. r\<lparr>xr_custom_headers := headers, xr_updated_at := now\<rparr>)"

definition set_rapi_sort_order :: "int list \<Rightarrow> local_db \<Rightarrow> db_error + local_db" where
  "set_rapi_sort_order ids = each (\<lambda>(n, i). write_rapi i (\<lambda>r. r\<lparr>xr_sort_order := int n\<rparr>)) (enumerate 0 ids)"

section \<open>Models and chains\<close>

definition insert_lapi :: "lapi_row \<Rightarrow> local_db \<Rightarrow> db_error + local_db \<times> int" where
  "insert_lapi row db =
     (let i = db_seq_lapi db in
      and_then (checked (db\<lparr>db_lapis := db_lapis db @ [row\<lparr>xl_id := i\<rparr>], db_seq_lapi := i + 1\<rparr>)) (\<lambda>db. Inr (db, i)))"

definition create_lapi :: "instant \<Rightarrow> lapi \<Rightarrow> local_db \<Rightarrow> db_error + local_db \<times> int" where
  "create_lapi now l =
     insert_lapi \<lparr>xl_id = 0, xl_alias = la_alias l, xl_notes = la_notes l, xl_enabled = la_enabled l,
       xl_vendor = la_vendor l, xl_series = la_series l, xl_model_name = la_model_name l, xl_version = la_version l,
       xl_suffix = la_suffix l, xl_sort_order = 0, xl_created_at = now\<rparr>"

definition write_lapi :: "int \<Rightarrow> (lapi_row \<Rightarrow> lapi_row) \<Rightarrow> local_db \<Rightarrow> db_error + local_db" where
  "write_lapi i f db = checked (db\<lparr>db_lapis := update_where (\<lambda>l. xl_id l = i) f (db_lapis db)\<rparr>)"

definition update_lapi :: "lapi \<Rightarrow> local_db \<Rightarrow> db_error + local_db" where
  "update_lapi l =
     write_lapi (la_id l) (\<lambda>x. x\<lparr>xl_alias := la_alias l, xl_notes := la_notes l, xl_vendor := la_vendor l,
       xl_series := la_series l, xl_model_name := la_model_name l, xl_version := la_version l, xl_suffix := la_suffix l,
       xl_enabled := la_enabled l\<rparr>)"

definition delete_lapi :: "int \<Rightarrow> local_db \<Rightarrow> db_error + local_db" where
  "delete_lapi i db =
     (let db = db\<lparr>db_orders := filter (\<lambda>x. xo_lapi_id x \<noteq> i) (db_orders db)\<rparr>;
          db = db\<lparr>db_metrics := filter (\<lambda>(r, l). l \<noteq> i) (db_metrics db)\<rparr>
      in Inr (delete_lapis (\<lambda>l. xl_id l = i) db))"

definition set_lapi_enabled :: "int \<Rightarrow> bool \<Rightarrow> local_db \<Rightarrow> db_error + local_db" where
  "set_lapi_enabled i enabled = write_lapi i (\<lambda>l. l\<lparr>xl_enabled := enabled\<rparr>)"

definition set_lapi_sort_order :: "int list \<Rightarrow> local_db \<Rightarrow> db_error + local_db" where
  "set_lapi_sort_order ids = each (\<lambda>(n, i). write_lapi i (\<lambda>l. l\<lparr>xl_sort_order := int n\<rparr>)) (enumerate 0 ids)"

definition insert_order :: "int \<Rightarrow> int \<Rightarrow> int \<Rightarrow> local_db \<Rightarrow> db_error + local_db" where
  "insert_order lapi_id rapi_id n db =
     checked (db\<lparr>db_orders := db_orders db @ [\<lparr>xo_lapi_id = lapi_id, xo_rapi_id = rapi_id, xo_order_index = n\<rparr>]\<rparr>)"

definition set_lapi_rapi_order :: "int \<Rightarrow> int list \<Rightarrow> local_db \<Rightarrow> db_error + local_db" where
  "set_lapi_rapi_order lapi_id chain db =
     each (\<lambda>(n, i). insert_order lapi_id i (int n)) (enumerate 0 chain)
       (db\<lparr>db_orders := filter (\<lambda>x. xo_lapi_id x \<noteq> lapi_id) (db_orders db)\<rparr>)"

definition get_lapi_rapi_mapping :: "int \<Rightarrow> local_db \<Rightarrow> int list" where
  "get_lapi_rapi_mapping lapi_id db =
     map xo_rapi_id (stable_sort (\<lambda>x y. xo_order_index x < xo_order_index y)
       (filter (\<lambda>x. xo_lapi_id x = lapi_id) (db_orders db)))"

definition find_lapi_by_model_identity :: "string \<Rightarrow> string \<Rightarrow> string \<Rightarrow> string \<Rightarrow> local_db \<Rightarrow> db_error + lapi_row option" where
  "find_lapi_by_model_identity vendor series version suffix db =
     (if vendor = [] \<and> series = [] \<and> version = [] \<and> suffix = [] then Inr None
      else (case find (\<lambda>l. xl_vendor l = vendor \<and> xl_series l = series \<and> xl_version l = version \<and> xl_suffix l = suffix) (db_lapis db) of
              None \<Rightarrow> Inl NoRows
            | Some l \<Rightarrow> Inr (Some l)))"

section \<open>Credentials\<close>

definition insert_credential :: "credential_row \<Rightarrow> local_db \<Rightarrow> db_error + local_db \<times> int" where
  "insert_credential row db =
     (let i = db_seq_credential db in
      and_then (checked (db\<lparr>db_credentials := db_credentials db @ [row\<lparr>xc_id := i\<rparr>], db_seq_credential := i + 1\<rparr>))
        (\<lambda>db. Inr (db, i)))"

definition write_credential :: "int \<Rightarrow> (credential_row \<Rightarrow> credential_row) \<Rightarrow> local_db \<Rightarrow> db_error + local_db" where
  "write_credential i f db = checked (db\<lparr>db_credentials := update_where (\<lambda>c. xc_id c = i) f (db_credentials db)\<rparr>)"

text \<open>\<open>wrapCredErr\<close>.\<close>

definition wrap_cred_err :: "db_error + 'a \<Rightarrow> db_error + 'a" where
  "wrap_cred_err r =
     (case r of Inl e \<Rightarrow> Inl (if e = UniqueFailed ''idx_credential_token_hash'' then TokenTaken else e) | Inr x \<Rightarrow> Inr x)"

definition key_row :: "db_env \<Rightarrow> instant \<Rightarrow> int \<Rightarrow> platform_key \<Rightarrow> string \<Rightarrow> int \<Rightarrow> credential_row" where
  "key_row env now platform_id k token sort_order =
     \<lparr>xc_id = 0, xc_platform_id = platform_id, xc_token_hash = token_hash_arg env (pk_token k), xc_token = token,
      xc_label = pk_label k, xc_enabled = pk_enabled k, xc_failure_type = 0, xc_failure_reason = [], xc_failed_at = None,
      xc_expires_at = expires_arg (pk_expires_at k), xc_is_free = pk_is_free k, xc_sort_order = sort_order,
      xc_created_at = now, xc_updated_at = now\<rparr>"

definition key_columns :: "db_env \<Rightarrow> instant \<Rightarrow> platform_key \<Rightarrow> string \<Rightarrow> credential_row \<Rightarrow> credential_row" where
  "key_columns env now k token c =
     c\<lparr>xc_token := token, xc_token_hash := token_hash_arg env (pk_token k), xc_label := pk_label k,
       xc_enabled := pk_enabled k, xc_expires_at := expires_arg (pk_expires_at k), xc_is_free := pk_is_free k,
       xc_updated_at := now\<rparr>"

definition ensure_dynamic_platform_key :: "int \<Rightarrow> instant \<Rightarrow> local_db \<Rightarrow> db_error + local_db \<times> int" where
  "ensure_dynamic_platform_key platform_id now db =
     (let empty = (\<lambda>c. xc_platform_id c = platform_id \<and> xc_token c = []) in
      and_then (if filter empty (db_credentials db) \<noteq> [] then Inr db
                else and_then (insert_credential \<lparr>xc_id = 0, xc_platform_id = platform_id, xc_token_hash = None, xc_token = [],
                    xc_label = ''dynamic'', xc_enabled = True, xc_failure_type = 0, xc_failure_reason = [],
                    xc_failed_at = None, xc_expires_at = None, xc_is_free = False, xc_sort_order = 0,
                    xc_created_at = now, xc_updated_at = now\<rparr> db) (\<lambda>(db, i). Inr db))
        (\<lambda>db. case find empty (db_credentials db) of None \<Rightarrow> Inl NoRows | Some c \<Rightarrow> Inr (db, xc_id c)))"

text \<open>One key of \<open>SetPlatformKeys\<close>: \<open>exist\<close> are the ids the platform had, \<open>keep\<close> those the list names.\<close>

definition set_platform_key :: "db_env \<Rightarrow> instant \<Rightarrow> int \<Rightarrow> int list \<Rightarrow> nat \<times> platform_key \<Rightarrow> local_db \<times> int list
    \<Rightarrow> db_error + local_db \<times> int list" where
  "set_platform_key env now platform_id exist nk acc =
     (let (n, k) = nk; (db, keep) = acc in
      and_then (seal env (pk_token k)) (\<lambda>token.
        if pk_id k > 0 \<and> pk_id k \<in> set exist
        then and_then (wrap_cred_err (write_credential (pk_id k)
               (\<lambda>c. (key_columns env now k token c)\<lparr>xc_sort_order := int n\<rparr>) db)) (\<lambda>db. Inr (db, keep @ [pk_id k]))
        else and_then (wrap_cred_err (insert_credential (key_row env now platform_id k token (int n)) db)) (\<lambda>(db, i).
               and_then (bind_credential_to_platform platform_id i db) (\<lambda>db. Inr (db, keep @ [i])))))"

definition set_platform_keys :: "db_env \<Rightarrow> instant \<Rightarrow> int \<Rightarrow> platform_key list \<Rightarrow> local_db \<Rightarrow> db_error + local_db" where
  "set_platform_keys env now platform_id keys db =
     (let exist = platform_credentials platform_id db in
      and_then (each (set_platform_key env now platform_id exist) (enumerate 0 keys) (db, [])) (\<lambda>(db, keep).
        let db = delete_credentials (\<lambda>c. xc_id c \<in> set exist \<and> xc_id c \<notin> set keep) db
        in Inr (refresh_key_ids_for_platform platform_id db)))"

definition next_sort_order :: "int \<Rightarrow> local_db \<Rightarrow> int" where
  "next_sort_order platform_id db =
     (let orders = map xc_sort_order (filter (\<lambda>c. xc_platform_id c = platform_id) (db_credentials db))
      in if orders = [] then 0 else Max (set orders) + 1)"

definition add_platform_key :: "db_env \<Rightarrow> instant \<Rightarrow> platform_key \<Rightarrow> local_db \<Rightarrow> db_error + local_db \<times> int" where
  "add_platform_key env now k db =
     and_then (seal env (pk_token k)) (\<lambda>token.
     and_then (wrap_cred_err (insert_credential
         (key_row env now (pk_platform_id k) k token (next_sort_order (pk_platform_id k) db)) db)) (\<lambda>(db, i).
     and_then (bind_credential_to_platform (pk_platform_id k) i db) (\<lambda>db.
     Inr (refresh_key_ids_for_platform (pk_platform_id k) db, i))))"

definition update_platform_key :: "db_env \<Rightarrow> instant \<Rightarrow> platform_key \<Rightarrow> local_db \<Rightarrow> db_error + local_db" where
  "update_platform_key env now k db =
     and_then (seal env (pk_token k)) (\<lambda>token.
       wrap_cred_err (write_credential (pk_id k) (key_columns env now k token) db))"

definition delete_platform_key :: "int \<Rightarrow> local_db \<Rightarrow> db_error + local_db" where
  "delete_platform_key i db =
     (case find (\<lambda>c. xc_id c = i) (db_credentials db) of
        None \<Rightarrow> Inl NoRows
      | Some c \<Rightarrow> Inr (refresh_key_ids_for_platform (xc_platform_id c) (delete_credentials (\<lambda>c. xc_id c = i) db)))"

definition detach_key_from_rapis :: "int \<Rightarrow> local_db \<Rightarrow> (db_error + local_db) \<times> string list" where
  "detach_key_from_rapis i db =
     (let affected = filter (\<lambda>r. (xr_id r, i) \<in> set (map (\<lambda>b. (xb_rapi_id b, xb_credential_id b)) (db_bindings db))) (db_rapis db) in
      if affected = [] then (Inr db, [])
      else (Inr (refresh_key_ids (map xr_id affected)
              (db\<lparr>db_bindings := filter (\<lambda>b. xb_credential_id b \<noteq> i) (db_bindings db)\<rparr>)), map xr_alias affected))"

definition disable_expired_keys :: "instant \<Rightarrow> local_db \<Rightarrow> local_db \<times> int" where
  "disable_expired_keys now db =
     (let expired = (\<lambda>c. xc_enabled c \<and> (case xc_expires_at c of None \<Rightarrow> False | Some t \<Rightarrow> t < now)) in
      (db\<lparr>db_credentials := update_where expired (\<lambda>c. c\<lparr>xc_enabled := False, xc_updated_at := now\<rparr>) (db_credentials db)\<rparr>,
       int (length (filter expired (db_credentials db)))))"

text \<open>The new sequence of each platform: the ids asked for, then the others in their present order.\<close>

definition key_sequence :: "int list \<Rightarrow> int \<Rightarrow> local_db \<Rightarrow> int list" where
  "key_sequence ids platform_id db =
     (let mine = map xc_id (stable_sort (\<lambda>x y. xc_sort_order x < xc_sort_order y)
            (filter (\<lambda>c. xc_platform_id c = platform_id) (db_credentials db)))
      in filter (\<lambda>i. i \<in> set mine) ids @ filter (\<lambda>i. i \<notin> set ids) mine)"

definition reorder_keys_by_global_order :: "int list \<Rightarrow> local_db \<Rightarrow> db_error + local_db" where
  "reorder_keys_by_global_order ids db =
     each (\<lambda>p. each (\<lambda>(n, i). write_credential i (\<lambda>c. c\<lparr>xc_sort_order := int n\<rparr>)) (enumerate 0 (key_sequence ids p db)))
       (remdups (map xc_platform_id (db_credentials db))) db"

definition disable_platform_key :: "int \<Rightarrow> instant \<Rightarrow> local_db \<Rightarrow> db_error + local_db" where
  "disable_platform_key i now = write_credential i (\<lambda>c. c\<lparr>xc_enabled := False, xc_updated_at := now\<rparr>)"

definition store_key_failure :: "int \<Rightarrow> int \<Rightarrow> string \<Rightarrow> instant \<Rightarrow> local_db \<Rightarrow> db_error + local_db" where
  "store_key_failure kind i reason now =
     write_credential i (\<lambda>c. c\<lparr>xc_failure_type := kind, xc_failure_reason := reason, xc_failed_at := Some now, xc_updated_at := now\<rparr>)"

definition store_key_permanent_failure :: "int \<Rightarrow> string \<Rightarrow> instant \<Rightarrow> local_db \<Rightarrow> db_error + local_db" where
  "store_key_permanent_failure = store_key_failure 2"

definition store_key_temporary_failure :: "int \<Rightarrow> string \<Rightarrow> instant \<Rightarrow> local_db \<Rightarrow> db_error + local_db" where
  "store_key_temporary_failure = store_key_failure 1"

definition clear_key_failure :: "int \<Rightarrow> instant \<Rightarrow> local_db \<Rightarrow> db_error + local_db" where
  "clear_key_failure i now =
     write_credential i (\<lambda>c. c\<lparr>xc_failure_type := 0, xc_failure_reason := [], xc_failed_at := None, xc_updated_at := now\<rparr>)"

section \<open>Queries\<close>

text \<open>\<open>scanCredentialRows\<close>: the rows as keys, numbered within their platform.\<close>

fun scan_credential_rows :: "db_env \<Rightarrow> credential_row list \<Rightarrow> (int \<Rightarrow> int) \<Rightarrow> db_error + platform_key list" where
  "scan_credential_rows env [] idx = Inr []"
| "scan_credential_rows env (c # cs) idx =
     and_then (unseal env (xc_token c)) (\<lambda>token.
     and_then (scan_credential_rows env cs (idx(xc_platform_id c := idx (xc_platform_id c) + 1))) (\<lambda>ks.
     Inr (\<lparr>pk_id = xc_id c, pk_platform_id = xc_platform_id c, pk_key_index = idx (xc_platform_id c), pk_token = token,
           pk_label = xc_label c, pk_enabled = xc_enabled c, pk_created_at = xc_created_at c,
           pk_updated_at = xc_updated_at c, pk_failure_type = xc_failure_type c, pk_failure_reason = xc_failure_reason c,
           pk_failed_at = xc_failed_at c, pk_expires_at = xc_expires_at c, pk_is_free = xc_is_free c\<rparr> # ks)))"

definition get_platform_keys :: "db_env \<Rightarrow> int \<Rightarrow> local_db \<Rightarrow> db_error + platform_key list" where
  "get_platform_keys env platform_id db =
     scan_credential_rows env (stable_sort (\<lambda>x y. xc_sort_order x < xc_sort_order y)
       (filter (\<lambda>c. xc_platform_id c = platform_id) (db_credentials db))) (\<lambda>_. 0)"

definition get_all_platform_keys :: "db_env \<Rightarrow> local_db \<Rightarrow> db_error + platform_key list" where
  "get_all_platform_keys env db =
     scan_credential_rows env (stable_sort (\<lambda>x y. xc_platform_id x < xc_platform_id y \<or>
         xc_platform_id x = xc_platform_id y \<and> xc_sort_order x < xc_sort_order y) (db_credentials db)) (\<lambda>_. 0)"

definition platform_of_row :: "db_env \<Rightarrow> plat_row \<Rightarrow> db_error + platform" where
  "platform_of_row env p =
     and_then (unseal env (xp_token p)) (\<lambda>token.
       Inr \<lparr>pt_id = xp_id p, pt_name = xp_name p, pt_base_url = xp_base_url p, pt_token = token, pt_notes = xp_notes p,
         pt_custom_headers = xp_custom_headers p, pt_supported_formats = xp_supported_formats p,
         pt_format_endpoints = xp_format_endpoints p, pt_login_account = xp_login_account p,
         pt_last_token_fetch = (case xp_last_token_fetch p of None \<Rightarrow> zero_time | Some t \<Rightarrow> t),
         pt_enabled = xp_enabled p, pt_available = xp_available p, pt_created_at = xp_created_at p,
         pt_updated_at = xp_updated_at p\<rparr>)"

fun scan_rows :: "('a \<Rightarrow> db_error + 'b) \<Rightarrow> 'a list \<Rightarrow> db_error + 'b list" where
  "scan_rows f [] = Inr []"
| "scan_rows f (x # xs) = and_then (f x) (\<lambda>y. and_then (scan_rows f xs) (\<lambda>ys. Inr (y # ys)))"

definition get_platforms :: "db_env \<Rightarrow> local_db \<Rightarrow> db_error + platform list" where
  "get_platforms env db =
     scan_rows (platform_of_row env) (stable_sort (\<lambda>x y. xp_sort_order x < xp_sort_order y) (db_platforms db))"

definition get_platform_by_id :: "db_env \<Rightarrow> int \<Rightarrow> local_db \<Rightarrow> db_error + platform" where
  "get_platform_by_id env i db =
     (case find (\<lambda>p. xp_id p = i) (db_platforms db) of None \<Rightarrow> Inl NoRows | Some p \<Rightarrow> platform_of_row env p)"

text \<open>A row of the query with its platform: \<open>LEFT JOIN\<close> gives empty columns where there is none.\<close>

definition rapi_of_row :: "db_env \<Rightarrow> local_db \<Rightarrow> int \<times> rapi_row \<Rightarrow> db_error + rapi" where
  "rapi_of_row env db nr =
     (let (n, r) = nr; p = find (\<lambda>p. xp_id p = xr_platform_id r) (db_platforms db);
          col = (\<lambda>f. case p of None \<Rightarrow> [] | Some p \<Rightarrow> f p) in
      and_then (unseal env (col xp_token)) (\<lambda>token.
        Inr (zero_rapi\<lparr>ra_id := xr_id r, ra_alias := xr_alias r, ra_model := xr_model r, ra_notes := xr_notes r,
          ra_vendor := xr_vendor r, ra_series := xr_series r, ra_model_name := xr_model_name r, ra_version := xr_version r,
          ra_suffix := xr_suffix r, ra_platform_id := xr_platform_id r, ra_enabled := xr_enabled r,
          ra_available := xr_available r, ra_unavailable_reason := xr_unavailable_reason r,
          ra_base_cost := xr_base_cost r, ra_high_cost := xr_high_cost r, ra_rpm_limit := xr_rpm_limit r,
          ra_rph_limit := xr_rph_limit r, ra_rpd_limit := xr_rpd_limit r, ra_tpm_limit := xr_tpm_limit r,
          ra_tph_limit := xr_tph_limit r, ra_tpd_limit := xr_tpd_limit r, ra_supported_formats := xr_supported_formats r,
          ra_time_period_rules := xr_time_period_rules r, ra_custom_headers := xr_custom_headers r,
          ra_key_ids := xr_key_ids r, ra_source := xr_source r, ra_order_index := n, ra_platform_name := col xp_name,
          ra_platform_custom_headers := col xp_custom_headers, ra_platform_supported_formats := col xp_supported_formats,
          ra_platform_format_endpoints := col xp_format_endpoints, ra_base_url := col xp_base_url, ra_token := token,
          ra_last_token_fetch := (case p of None \<Rightarrow> zero_time | Some p \<Rightarrow>
            (case xp_last_token_fetch p of None \<Rightarrow> zero_time | Some t \<Rightarrow> t)),
          ra_created_at := xr_created_at r, ra_updated_at := xr_updated_at r\<rparr>)))"

definition get_rapis :: "db_env \<Rightarrow> local_db \<Rightarrow> db_error + rapi list" where
  "get_rapis env db =
     scan_rows (rapi_of_row env db) (map (Pair 0) (stable_sort (\<lambda>x y. xr_sort_order x < xr_sort_order y) (db_rapis db)))"

definition get_rapi_by_id :: "db_env \<Rightarrow> int \<Rightarrow> local_db \<Rightarrow> db_error + rapi" where
  "get_rapi_by_id env i db =
     and_then (scan_rows (rapi_of_row env db) (map (Pair 0) (filter (\<lambda>r. xr_id r = i) (db_rapis db))))
       (\<lambda>rs. case rs of [] \<Rightarrow> Inl NoRows | r # _ \<Rightarrow> Inr r)"

definition get_rapis_by_platform :: "db_env \<Rightarrow> int \<Rightarrow> local_db \<Rightarrow> db_error + rapi list" where
  "get_rapis_by_platform env i db =
     scan_rows (rapi_of_row env db) (map (Pair 0) (filter (\<lambda>r. xr_platform_id r = i) (db_rapis db)))"

text \<open>The entries of a chain in their order, each with its endpoint.\<close>

definition chain_rows :: "int \<Rightarrow> local_db \<Rightarrow> (int \<times> rapi_row) list" where
  "chain_rows lapi_id db =
     concat (map (\<lambda>x. map (Pair (xo_order_index x)) (filter (\<lambda>r. xr_id r = xo_rapi_id x) (db_rapis db)))
       (stable_sort (\<lambda>x y. xo_order_index x < xo_order_index y) (filter (\<lambda>x. xo_lapi_id x = lapi_id) (db_orders db))))"

definition get_rapis_for_lapi :: "db_env \<Rightarrow> int \<Rightarrow> local_db \<Rightarrow> db_error + rapi list" where
  "get_rapis_for_lapi env lapi_id db = scan_rows (rapi_of_row env db) (chain_rows lapi_id db)"

definition platform_row_enabled :: "int \<Rightarrow> local_db \<Rightarrow> bool" where
  "platform_row_enabled i db \<longleftrightarrow> (case find (\<lambda>p. xp_id p = i) (db_platforms db) of None \<Rightarrow> False | Some p \<Rightarrow> xp_enabled p)"

definition get_enabled_rapis_for_lapi :: "db_env \<Rightarrow> int \<Rightarrow> local_db \<Rightarrow> db_error + rapi list" where
  "get_enabled_rapis_for_lapi env lapi_id db =
     scan_rows (rapi_of_row env db) (filter (\<lambda>(n, r). xr_enabled r \<and> xr_available r \<and> platform_row_enabled (xr_platform_id r) db)
       (chain_rows lapi_id db))"

section \<open>Blocks and metrics\<close>

text \<open>Of a block and of a metrics row only the pair of keys is kept; both tables refer to the rows of the pair.\<close>

definition add_pair :: "int \<times> int \<Rightarrow> (int \<times> int) list \<Rightarrow> (int \<times> int) list" where
  "add_pair x xs = (if x \<in> set xs then xs else xs @ [x])"

definition store_block_key :: "int \<Rightarrow> int \<Rightarrow> local_db \<Rightarrow> db_error + local_db" where
  "store_block_key key_id rapi_id db =
     (if key_id \<notin> set (credential_ids db) \<or> rapi_id \<notin> set (rapi_ids db) then Inl (ForeignKeyFailed ''key_model_blocks'')
      else Inr (db\<lparr>db_blocks := add_pair (key_id, rapi_id) (db_blocks db)\<rparr>))"

definition store_unblock_key :: "int \<Rightarrow> int \<Rightarrow> local_db \<Rightarrow> local_db" where
  "store_unblock_key key_id rapi_id db = db\<lparr>db_blocks := filter (\<lambda>b. b \<noteq> (key_id, rapi_id)) (db_blocks db)\<rparr>"

definition store_clear_blocks :: "int \<Rightarrow> local_db \<Rightarrow> local_db" where
  "store_clear_blocks key_id db = db\<lparr>db_blocks := filter (\<lambda>(k, r). k \<noteq> key_id) (db_blocks db)\<rparr>"

definition store_record_request :: "int \<Rightarrow> int \<Rightarrow> local_db \<Rightarrow> db_error + local_db" where
  "store_record_request rapi_id lapi_id db =
     (if rapi_id \<notin> set (rapi_ids db) \<or> lapi_id \<notin> set (lapi_ids db) then Inl (ForeignKeyFailed ''rapi_metrics'')
      else Inr (db\<lparr>db_metrics := add_pair (rapi_id, lapi_id) (db_metrics db)\<rparr>))"

end
