(* ===== verification/LocalDbInv.thy ===== *)
theory LocalDbInv
  imports LocalStore
begin

text \<open>
  The invariant of the local database: the constraints of the schema, and what the program keeps on top of
  them. A binding joins an endpoint and a credential of the same platform, and the column \<open>key_ids\<close> of an
  endpoint lists the credentials bound to it. Inside a transaction some endpoints are exempt until they are
  brought up to date: \<open>S\<close> from the first of these, \<open>D\<close> from the second.
\<close>

section \<open>The invariant\<close>

definition rapi_keys :: "local_db \<Rightarrow> (int \<times> int \<times> string) list" where
  "rapi_keys db = map (\<lambda>r. (xr_id r, xr_platform_id r, xr_key_ids r)) (db_rapis db)"

definition cred_homes :: "local_db \<Rightarrow> (int \<times> int) list" where
  "cred_homes db = map (\<lambda>c. (xc_id c, xc_platform_id c)) (db_credentials db)"

definition bindings_of :: "int \<Rightarrow> local_db \<Rightarrow> binding_row list" where
  "bindings_of i db = filter (\<lambda>b. xb_rapi_id b = i) (db_bindings db)"

definition ids_ok :: "local_db \<Rightarrow> bool" where
  "ids_ok db \<longleftrightarrow>
     distinct (platform_ids db) \<and> (\<forall>i \<in> set (platform_ids db). i < db_seq_platform db) \<and>
     distinct (credential_ids db) \<and> (\<forall>i \<in> set (credential_ids db). i < db_seq_credential db) \<and>
     distinct (rapi_ids db) \<and> (\<forall>i \<in> set (rapi_ids db). i < db_seq_rapi db) \<and>
     distinct (lapi_ids db) \<and> (\<forall>i \<in> set (lapi_ids db). i < db_seq_lapi db)"

definition scoped_at :: "local_db \<Rightarrow> int \<Rightarrow> int \<Rightarrow> bool" where
  "scoped_at db i p \<longleftrightarrow> (\<forall>b \<in> set (bindings_of i db). \<forall>q. (xb_credential_id b, q) \<in> set (cred_homes db) \<longrightarrow> q = p)"

definition derived_at :: "local_db \<Rightarrow> int \<Rightarrow> string \<Rightarrow> bool" where
  "derived_at db i k \<longleftrightarrow> k = id_csv (bound_ids i db)"

definition shape_ex :: "(int \<Rightarrow> bool) \<Rightarrow> (int \<Rightarrow> int \<Rightarrow> bool) \<Rightarrow> local_db \<Rightarrow> bool" where
  "shape_ex S D db \<longleftrightarrow> ids_ok db \<and>
     (\<forall>(i, p, k) \<in> set (rapi_keys db). (\<not> S i \<longrightarrow> scoped_at db i p) \<and> (\<not> D i p \<longrightarrow> derived_at db i k))"

definition ok_ex :: "(int \<Rightarrow> bool) \<Rightarrow> (int \<Rightarrow> int \<Rightarrow> bool) \<Rightarrow> local_db \<Rightarrow> bool" where
  "ok_ex S D db \<longleftrightarrow> constraints db \<and> shape_ex S D db"

definition db_ok :: "local_db \<Rightarrow> bool" where
  "db_ok db \<longleftrightarrow> constraints db \<and> ids_ok db \<and>
     (\<forall>(i, p, k) \<in> set (rapi_keys db). scoped_at db i p \<and> derived_at db i k)"

section \<open>Statements\<close>

lemma and_then_Inr: "and_then r f = Inr y \<longleftrightarrow> (\<exists>x. r = Inr x \<and> f x = Inr y)"
  by (cases r) (simp_all add: and_then_def)

lemma checked_Inr: "checked db = Inr db' \<longleftrightarrow> db' = db \<and> constraints db"
  by (auto simp: checked_def constraints_def)

lemma each_induct:
  assumes "each f xs s = Inr s'" and "I s" and "\<And>x s s'. x \<in> set xs \<Longrightarrow> I s \<Longrightarrow> f x s = Inr s' \<Longrightarrow> I s'"
  shows "I s'"
  using assms
proof (induction xs arbitrary: s)
  case (Cons x xs)
  from Cons.prems(1) obtain t where t: "f x s = Inr t" "each f xs t = Inr s'" by (auto simp: and_then_Inr)
  show ?case by (rule Cons.IH [OF t(2)]) (use Cons.prems t in auto)
qed simp

lemma bound_ids_of: "bound_ids i db = sort (map xb_credential_id (filter xb_enabled (bindings_of i db)))"
  by (simp add: bound_ids_def bindings_of_def conj_commute)

lemma update_where_map: "(\<And>r. g (f r) = g r) \<Longrightarrow> map g (update_where p f rows) = map g rows"
  by (simp add: update_where_def)

text \<open>The shape only looks at these parts.\<close>

lemma shape_cong:
  assumes "platform_ids db' = platform_ids db" and "cred_homes db' = cred_homes db" and "rapi_keys db' = rapi_keys db"
    and "lapi_ids db' = lapi_ids db" and "db_bindings db' = db_bindings db"
    and "db_seq_platform db' = db_seq_platform db" and "db_seq_credential db' = db_seq_credential db"
    and "db_seq_rapi db' = db_seq_rapi db" and "db_seq_lapi db' = db_seq_lapi db"
  shows "shape_ex S D db' = shape_ex S D db"
proof -
  have "credential_ids db = map fst (cred_homes db)" "rapi_ids db = map fst (rapi_keys db)" for db
    by (simp_all add: credential_ids_def cred_homes_def rapi_ids_def rapi_keys_def)
  then show ?thesis
    using assms by (simp add: shape_ex_def ids_ok_def scoped_at_def derived_at_def bound_ids_of bindings_of_def)
qed

lemma shape_weaken:
  assumes "shape_ex S D db" and "\<And>i p k. (i, p, k) \<in> set (rapi_keys db) \<Longrightarrow> S i \<Longrightarrow> S' i"
    and "\<And>i p k. (i, p, k) \<in> set (rapi_keys db) \<Longrightarrow> D i p \<Longrightarrow> D' i p"
  shows "shape_ex S' D' db"
  using assms unfolding shape_ex_def by fast

lemma ok_weaken:
  assumes "ok_ex S D db" and "\<And>i p k. (i, p, k) \<in> set (rapi_keys db) \<Longrightarrow> S i \<Longrightarrow> S' i"
    and "\<And>i p k. (i, p, k) \<in> set (rapi_keys db) \<Longrightarrow> D i p \<Longrightarrow> D' i p"
  shows "ok_ex S' D' db"
  using assms shape_weaken [of S D db S' D'] by (auto simp: ok_ex_def)

lemma db_ok_ex: "db_ok db \<longleftrightarrow> ok_ex (\<lambda>_. False) (\<lambda>_ _. False) db"
  by (auto simp: db_ok_def ok_ex_def shape_ex_def)

lemma db_ok_weaken: "db_ok db \<Longrightarrow> ok_ex S D db"
  unfolding db_ok_ex by (erule ok_weaken) simp_all

lemma rapi_key_unique:
  "ids_ok db \<Longrightarrow> (i, p, k) \<in> set (rapi_keys db) \<Longrightarrow> (i, q, l) \<in> set (rapi_keys db) \<Longrightarrow> p = q \<and> k = l"
proof -
  assume "ids_ok db" and m: "(i, p, k) \<in> set (rapi_keys db)" "(i, q, l) \<in> set (rapi_keys db)"
  then have "distinct (map fst (rapi_keys db))" by (simp add: ids_ok_def rapi_ids_def rapi_keys_def comp_def)
  from eq_key_imp_eq_value [OF this m] show ?thesis by simp
qed

lemma cred_home_unique: "ids_ok db \<Longrightarrow> (i, p) \<in> set (cred_homes db) \<Longrightarrow> (i, q) \<in> set (cred_homes db) \<Longrightarrow> p = q"
proof -
  assume "ids_ok db" and m: "(i, p) \<in> set (cred_homes db)" "(i, q) \<in> set (cred_homes db)"
  then have "distinct (map fst (cred_homes db))" by (simp add: ids_ok_def credential_ids_def cred_homes_def comp_def)
  from eq_key_imp_eq_value [OF this m] show ?thesis .
qed

lemma platform_credentials_home: "i \<in> set (platform_credentials p db) \<longleftrightarrow> (i, p) \<in> set (cred_homes db)"
  by (auto simp: platform_credentials_def cred_homes_def)

section \<open>Refreshing and deleting\<close>

lemma refresh_constraints [simp]: "constraints (refresh_where p db) = constraints db"
proof -
  have m: "map (\<lambda>r. (xr_platform_id r, xr_model r)) (filter (\<lambda>r. xr_model r \<noteq> []) (update_where p f rows)) =
      map (\<lambda>r. (xr_platform_id r, xr_model r)) (filter (\<lambda>r. xr_model r \<noteq> []) rows)"
    if "\<And>r. xr_platform_id (f r) = xr_platform_id r" "\<And>r. xr_model (f r) = xr_model r" for f rows
    using that by (induction rows) (auto simp: update_where_def)
  have "(\<forall>r \<in> set (update_where p (\<lambda>r. r\<lparr>xr_key_ids := g r\<rparr>) rows). xr_platform_id r \<in> S) \<longleftrightarrow>
      (\<forall>r \<in> set rows. xr_platform_id r \<in> S)" for g rows S
    by (induction rows) (simp_all add: update_where_def)
  moreover have "rapi_ids (refresh_where p db) = rapi_ids db"
    by (simp add: rapi_ids_def refresh_where_def update_where_map)
  ultimately show ?thesis
    by (simp add: constraints_def unique_platforms_def unique_credentials_def unique_rapis_def unique_lapis_def
        unique_bindings_def unique_orders_def references_ok_def refresh_where_def m platform_ids_def credential_ids_def
        rapi_ids_def lapi_ids_def)
qed

lemma refresh_ok:
  assumes "ok_ex S D db" and "\<And>r. p r \<longleftrightarrow> Q (xr_id r) (xr_platform_id r)"
  shows "ok_ex S (\<lambda>i q. D i q \<and> \<not> Q i q) (refresh_where p db)"
proof -
  let ?db = "refresh_where p db"
  have same: "bindings_of i ?db = bindings_of i db" "cred_homes ?db = cred_homes db" "ids_ok ?db = ids_ok db" for i
    by (simp_all add: refresh_where_def bindings_of_def cred_homes_def ids_ok_def platform_ids_def credential_ids_def
        rapi_ids_def lapi_ids_def update_where_map)
  have keys: "rapi_keys ?db = map (\<lambda>(i, q, k). (i, q, if Q i q then id_csv (bound_ids i db) else k)) (rapi_keys db)"
    using assms(2) by (simp add: rapi_keys_def refresh_where_def update_where_def)
  have "shape_ex S (\<lambda>i q. D i q \<and> \<not> Q i q) ?db"
    using assms(1) unfolding ok_ex_def shape_ex_def same keys scoped_at_def derived_at_def bound_ids_of
    by (auto simp: bound_ids_of split: if_splits)
  then show ?thesis using assms(1) by (simp add: ok_ex_def)
qed

lemma refresh_db_ok:
  assumes "ok_ex (\<lambda>_. False) D db" and "\<And>r. p r \<longleftrightarrow> Q (xr_id r) (xr_platform_id r)"
    and "\<And>i q k. (i, q, k) \<in> set (rapi_keys db) \<Longrightarrow> D i q \<Longrightarrow> Q i q"
  shows "db_ok (refresh_where p db)"
proof -
  have "ok_ex (\<lambda>_. False) Q db" by (rule ok_weaken [OF assms(1)]) (use assms(3) in auto)
  from refresh_ok [OF this, of p Q] assms(2) show ?thesis by (simp add: db_ok_ex)
qed

lemma distinct_map_filter2: "distinct (map f (filter q xs)) \<Longrightarrow> distinct (map f (filter q (filter p xs)))"
  by (induction xs) (auto split: if_splits)

lemma map_filter_sub: "x \<in> set (List.map_filter h (filter p xs)) \<Longrightarrow> x \<in> set (List.map_filter h xs)"
  by (induction xs) (auto simp: map_filter_simps split: option.splits if_splits)

lemma image_rest: "x \<in> f ` A \<Longrightarrow> x \<notin> f ` {a \<in> A. p a} \<Longrightarrow> x \<in> f ` {a \<in> A. \<not> p a}"
  by auto

lemma distinct_map_filter_opt: "distinct (List.map_filter h xs) \<Longrightarrow> distinct (List.map_filter h (filter p xs))"
  by (induction xs) (auto simp: map_filter_simps dest: map_filter_sub split: option.splits)

text \<open>Taking rows away keeps the unique indexes.\<close>

lemma constraints_filter:
  assumes "constraints db" and "references_ok db'"
    and "db_platforms db' = filter p1 (db_platforms db)" and "db_credentials db' = filter p2 (db_credentials db)"
    and "db_rapis db' = filter p3 (db_rapis db)" and "db_lapis db' = filter p4 (db_lapis db)"
    and "db_bindings db' = filter p5 (db_bindings db)" and "db_orders db' = filter p6 (db_orders db)"
  shows "constraints db'"
  using assms(1,2) unfolding constraints_def unique_platforms_def unique_credentials_def unique_rapis_def
    unique_lapis_def unique_bindings_def unique_orders_def assms(3-8)
  by (elim conjE, intro conjI) (assumption | rule distinct_map_filter2 distinct_map_filter_opt distinct_map_filter)+

lemma bindings_filter_ok:
  assumes "ok_ex S D db" and "\<And>b. b \<in> set (db_bindings db) \<Longrightarrow> \<not> keep b \<Longrightarrow> D' (xb_rapi_id b)"
  shows "ok_ex S (\<lambda>i q. D i q \<or> D' i) (db\<lparr>db_bindings := filter keep (db_bindings db)\<rparr>)"
proof -
  let ?db = "db\<lparr>db_bindings := filter keep (db_bindings db)\<rparr>"
  have "constraints ?db"
  proof (rule constraints_filter [of db _ "\<lambda>_. True" "\<lambda>_. True" "\<lambda>_. True" "\<lambda>_. True" keep "\<lambda>_. True"])
    show "constraints db" "references_ok ?db"
      using assms(1) by (auto simp: ok_ex_def constraints_def references_ok_def platform_ids_def credential_ids_def
          rapi_ids_def lapi_ids_def)
  qed simp_all
  moreover have "bindings_of i ?db = bindings_of i db" if "\<not> D' i" for i
    using assms(2) that by (auto simp: bindings_of_def intro!: filter_cong)
  moreover have "scoped_at ?db i q" if "scoped_at db i q" for i q
    using that by (auto simp: scoped_at_def bindings_of_def cred_homes_def)
  moreover have "rapi_keys ?db = rapi_keys db" "ids_ok ?db = ids_ok db"
    by (simp_all add: rapi_keys_def ids_ok_def platform_ids_def credential_ids_def rapi_ids_def lapi_ids_def)
  ultimately show ?thesis
    using assms(1) unfolding ok_ex_def shape_ex_def derived_at_def bound_ids_of by auto
qed

text \<open>Deletes with their cascades.\<close>

lemma rapi_keys_row: "(i, p, k) \<in> set (rapi_keys db) \<longleftrightarrow>
    (\<exists>r \<in> set (db_rapis db). xr_id r = i \<and> xr_platform_id r = p \<and> xr_key_ids r = k)"
  by (auto simp: rapi_keys_def)

lemma cred_home_row: "(i, p) \<in> set (cred_homes db) \<longleftrightarrow>
    (\<exists>c \<in> set (db_credentials db). xc_id c = i \<and> xc_platform_id c = p)"
  by (auto simp: cred_homes_def)

lemma rapi_row_unique:
  "ids_ok db \<Longrightarrow> r \<in> set (db_rapis db) \<Longrightarrow> r' \<in> set (db_rapis db) \<Longrightarrow> xr_id r = xr_id r' \<Longrightarrow> r = r'"
  by (auto simp: ids_ok_def rapi_ids_def distinct_map dest: inj_onD)

lemma credential_row_unique:
  "ids_ok db \<Longrightarrow> c \<in> set (db_credentials db) \<Longrightarrow> c' \<in> set (db_credentials db) \<Longrightarrow> xc_id c = xc_id c' \<Longrightarrow> c = c'"
  by (auto simp: ids_ok_def credential_ids_def distinct_map dest: inj_onD)

lemma delete_rapis_ok:
  assumes "ok_ex S D db" shows "ok_ex S D (delete_rapis p db)"
proof -
  let ?db = "delete_rapis p db"
  from assms have ids: "ids_ok db" and ref: "references_ok db" by (simp_all add: ok_ex_def shape_ex_def constraints_def)
  have rest: "xr_id r \<notin> xr_id ` {x \<in> set (db_rapis db). p x}" if "r \<in> set (db_rapis db)" "\<not> p r" for r
    using rapi_row_unique [OF ids] that by fastforce
  have "constraints ?db"
  proof (rule constraints_filter)
    show "constraints db" using assms by (simp add: ok_ex_def)
    show "references_ok ?db"
      using ref by (auto simp: references_ok_def delete_rapis_def Let_def platform_ids_def credential_ids_def rapi_ids_def
          lapi_ids_def intro!: image_rest)
    show "db_platforms ?db = filter (\<lambda>_. True) (db_platforms db)"
      "db_credentials ?db = filter (\<lambda>_. True) (db_credentials db)" "db_lapis ?db = filter (\<lambda>_. True) (db_lapis db)"
      by (simp_all add: delete_rapis_def Let_def)
  qed (simp add: delete_rapis_def Let_def; rule refl)+
  moreover have "ids_ok ?db"
    using ids by (auto simp: ids_ok_def delete_rapis_def Let_def platform_ids_def credential_ids_def rapi_ids_def
        lapi_ids_def distinct_map_filter)
  moreover have "bindings_of (xr_id r) ?db = bindings_of (xr_id r) db" if "r \<in> set (db_rapis db)" "\<not> p r" for r
    using rest [OF that] by (auto simp: bindings_of_def delete_rapis_def Let_def image_iff intro!: filter_cong)
  moreover have "cred_homes ?db = cred_homes db" by (simp add: cred_homes_def delete_rapis_def Let_def)
  moreover have "set (rapi_keys ?db) = {(xr_id r, xr_platform_id r, xr_key_ids r) |r. r \<in> set (db_rapis db) \<and> \<not> p r}"
    by (auto simp: rapi_keys_def delete_rapis_def Let_def)
  ultimately show ?thesis
    using assms unfolding ok_ex_def shape_ex_def derived_at_def bound_ids_of scoped_at_def
    by (fastforce simp: rapi_keys_def)
qed

lemma delete_credentials_base:
  assumes "constraints db" and "ids_ok db"
  shows "constraints (delete_credentials p db)" "ids_ok (delete_credentials p db)"
proof -
  let ?db = "delete_credentials p db"
  from assms have ids: "ids_ok db" and ref: "references_ok db" by (simp_all add: constraints_def)
  have rest: "xc_id c \<notin> xc_id ` {x \<in> set (db_credentials db). p x}" if "c \<in> set (db_credentials db)" "\<not> p c" for c
    using credential_row_unique [OF ids] that by fastforce
  show "constraints ?db"
  proof (rule constraints_filter)
    show "constraints db" by (rule assms)
    show "references_ok ?db"
      using ref by (auto simp: references_ok_def delete_credentials_def Let_def platform_ids_def credential_ids_def
          rapi_ids_def lapi_ids_def intro: image_rest)
    show "db_platforms ?db = filter (\<lambda>_. True) (db_platforms db)"
      "db_rapis ?db = filter (\<lambda>_. True) (db_rapis db)" "db_lapis ?db = filter (\<lambda>_. True) (db_lapis db)"
      "db_orders ?db = filter (\<lambda>_. True) (db_orders db)"
      by (simp_all add: delete_credentials_def Let_def)
  qed (simp add: delete_credentials_def Let_def; rule refl)+
  show "ids_ok ?db"
    using ids by (auto simp: ids_ok_def delete_credentials_def Let_def platform_ids_def credential_ids_def rapi_ids_def
        lapi_ids_def distinct_map_filter)
qed

lemma delete_credentials_ok:
  assumes "ok_ex (\<lambda>_. False) D db"
  shows "ok_ex (\<lambda>_. False) (\<lambda>i q. D i q \<or> (\<exists>c \<in> set (db_credentials db). p c \<and> xc_platform_id c = q))
    (delete_credentials p db)"
proof -
  let ?db = "delete_credentials p db"
  from assms have ids: "ids_ok db" and ref: "references_ok db" by (simp_all add: ok_ex_def shape_ex_def constraints_def)
  have "constraints ?db" "ids_ok ?db"
    using delete_credentials_base assms by (simp_all add: ok_ex_def shape_ex_def)
  moreover have keys: "rapi_keys ?db = rapi_keys db" by (simp add: rapi_keys_def delete_credentials_def Let_def)
  moreover have "scoped_at ?db i q" if "scoped_at db i q" for i q
    using that by (auto simp: scoped_at_def bindings_of_def cred_homes_def delete_credentials_def Let_def)
  moreover have "bindings_of i ?db = bindings_of i db"
    if "scoped_at db i q" "\<not> (\<exists>c \<in> set (db_credentials db). p c \<and> xc_platform_id c = q)" for i q
  proof -
    have "xb_credential_id b \<notin> xc_id ` {x \<in> set (db_credentials db). p x}" if "b \<in> set (db_bindings db)" "xb_rapi_id b = i" for b
    proof
      assume "xb_credential_id b \<in> xc_id ` {x \<in> set (db_credentials db). p x}"
      then obtain c where "c \<in> set (db_credentials db)" "p c" "xc_id c = xb_credential_id b" by auto
      with \<open>scoped_at db i q\<close> that have "xc_platform_id c = q"
        by (auto simp: scoped_at_def bindings_of_def cred_home_row)
      with \<open>c \<in> _\<close> \<open>p c\<close> \<open>\<not> (\<exists>c \<in> _. _ c)\<close> show False by blast
    qed
    then show ?thesis by (auto simp: bindings_of_def delete_credentials_def Let_def intro!: filter_cong)
  qed
  ultimately show ?thesis
    using assms unfolding ok_ex_def shape_ex_def derived_at_def bound_ids_of by fastforce
qed

lemma delete_platforms_ok:
  assumes "db_ok db" shows "db_ok (delete_platforms p db)"
proof -
  let ?gone = "set (map xp_id (filter p (db_platforms db)))"
  let ?r = "delete_rapis (\<lambda>r. xr_platform_id r \<in> ?gone) db"
  let ?c = "delete_credentials (\<lambda>c. xc_platform_id c \<in> ?gone) ?r"
  have eq: "delete_platforms p db = ?c\<lparr>db_platforms := filter (\<lambda>x. \<not> p x) (db_platforms db)\<rparr>" (is "_ = ?d")
    by (simp add: delete_platforms_def delete_credentials_def delete_rapis_def Let_def)
  have r: "ok_ex (\<lambda>_. False) (\<lambda>_ _. False) ?r" using assms by (simp add: db_ok_ex delete_rapis_ok)
  have "ok_ex (\<lambda>_. False) (\<lambda>_ _. False) ?c"
  proof (rule ok_weaken [OF delete_credentials_ok [OF r]])
    fix i q k assume "(i, q, k) \<in> set (rapi_keys ?c)"
    then have "q \<notin> ?gone" by (auto simp: rapi_keys_def delete_credentials_def delete_rapis_def Let_def)
    then show "False \<or> (\<exists>c \<in> set (db_credentials ?r). xc_platform_id c \<in> ?gone \<and> xc_platform_id c = q) \<Longrightarrow> False"
      by blast
  qed simp
  then have c: "constraints ?c" "shape_ex (\<lambda>_. False) (\<lambda>_ _. False) ?c" by (simp_all add: ok_ex_def)
  have "constraints ?d"
  proof (rule constraints_filter [OF c(1)])
    have "references_ok ?c" using c(1) by (simp add: constraints_def)
    then show "references_ok ?d"
      by (auto simp: references_ok_def delete_credentials_def delete_rapis_def Let_def platform_ids_def credential_ids_def
          rapi_ids_def lapi_ids_def intro: image_rest)
    show "db_platforms ?d = filter (\<lambda>x. \<not> p x) (db_platforms ?c)"
      by (simp add: delete_credentials_def delete_rapis_def Let_def)
    show "db_credentials ?d = filter (\<lambda>_. True) (db_credentials ?c)" "db_rapis ?d = filter (\<lambda>_. True) (db_rapis ?c)"
      "db_lapis ?d = filter (\<lambda>_. True) (db_lapis ?c)" "db_bindings ?d = filter (\<lambda>_. True) (db_bindings ?c)"
      "db_orders ?d = filter (\<lambda>_. True) (db_orders ?c)" by simp_all
  qed
  moreover have "rapi_keys ?d = rapi_keys ?c" "cred_homes ?d = cred_homes ?c" "bindings_of i ?d = bindings_of i ?c" for i
    by (simp_all add: rapi_keys_def cred_homes_def bindings_of_def)
  moreover have "ids_ok ?c \<Longrightarrow> ids_ok ?d"
    by (auto simp: ids_ok_def delete_credentials_def delete_rapis_def Let_def platform_ids_def credential_ids_def
        rapi_ids_def lapi_ids_def distinct_map_filter)
  ultimately show ?thesis
    using c(2) unfolding eq db_ok_ex ok_ex_def shape_ex_def scoped_at_def derived_at_def bound_ids_of by simp
qed

text \<open>Entries of chains, marks and the tables beside them do not matter to the shape.\<close>

lemma orders_filter_ok: "db_ok db \<Longrightarrow> db_ok (db\<lparr>db_orders := filter keep (db_orders db)\<rparr>)"
proof -
  assume ok: "db_ok db"
  let ?db = "db\<lparr>db_orders := filter keep (db_orders db)\<rparr>"
  have "constraints ?db"
  proof (rule constraints_filter [of db _ "\<lambda>_. True" "\<lambda>_. True" "\<lambda>_. True" "\<lambda>_. True" "\<lambda>_. True" keep])
    show "constraints db" "references_ok ?db"
      using ok by (auto simp: db_ok_def constraints_def references_ok_def platform_ids_def credential_ids_def
          rapi_ids_def lapi_ids_def)
  qed simp_all
  moreover have "shape_ex S D ?db = shape_ex S D db" for S D
    by (rule shape_cong) (simp_all add: platform_ids_def cred_homes_def rapi_keys_def lapi_ids_def)
  ultimately show ?thesis using ok by (simp add: db_ok_ex ok_ex_def)
qed

lemma metrics_ok [simp]:
  "db_ok (db\<lparr>db_metrics := m\<rparr>) = db_ok db" "db_ok (db\<lparr>db_blocks := k\<rparr>) = db_ok db"
  "db_ok (db\<lparr>db_sync := s\<rparr>) = db_ok db"
  by (simp_all add: db_ok_def constraints_def unique_platforms_def unique_credentials_def unique_rapis_def unique_lapis_def
      unique_bindings_def unique_orders_def references_ok_def ids_ok_def platform_ids_def credential_ids_def rapi_ids_def
      lapi_ids_def scoped_at_def derived_at_def bindings_of_def bound_ids_def cred_homes_def rapi_keys_def)

lemma delete_lapis_ok:
  assumes "db_ok db" shows "db_ok (delete_lapis p db)"
proof -
  let ?db = "delete_lapis p db"
  from assms have c: "constraints db" by (simp add: db_ok_def)
  have "constraints ?db"
  proof (rule constraints_filter [OF c])
    show "references_ok ?db"
      using c by (auto simp: constraints_def references_ok_def delete_lapis_def Let_def platform_ids_def credential_ids_def
          rapi_ids_def lapi_ids_def intro: image_rest)
    show "db_platforms ?db = filter (\<lambda>_. True) (db_platforms db)"
      "db_credentials ?db = filter (\<lambda>_. True) (db_credentials db)" "db_rapis ?db = filter (\<lambda>_. True) (db_rapis db)"
      "db_bindings ?db = filter (\<lambda>_. True) (db_bindings db)"
      by (simp_all add: delete_lapis_def Let_def)
  qed (simp add: delete_lapis_def Let_def; rule refl)+
  moreover have "ids_ok ?db"
    using assms by (auto simp: db_ok_def ids_ok_def delete_lapis_def Let_def platform_ids_def credential_ids_def
        rapi_ids_def lapi_ids_def distinct_map_filter)
  moreover have "rapi_keys ?db = rapi_keys db" "cred_homes ?db = cred_homes db" "bindings_of i ?db = bindings_of i db" for i
    by (simp_all add: rapi_keys_def cred_homes_def bindings_of_def delete_lapis_def Let_def)
  ultimately show ?thesis
    using assms unfolding db_ok_def scoped_at_def derived_at_def bound_ids_of by simp
qed

section \<open>Inserts and writes\<close>

lemma write_shape:
  assumes "checked db' = Inr db2" and "ok_ex S D db" and "shape_ex S D db' = shape_ex S D db"
  shows "ok_ex S D db2"
  using assms by (simp add: checked_Inr ok_ex_def)

lemma write_platform_ok:
  assumes "write_platform i f db = Inr db'" and "ok_ex S D db" and "\<And>x. xp_id (f x) = xp_id x"
  shows "ok_ex S D db'"
  using assms(1) unfolding write_platform_def
  by (rule write_shape [OF _ assms(2)], intro shape_cong)
    (simp_all add: platform_ids_def cred_homes_def rapi_keys_def lapi_ids_def update_where_map assms(3))

lemma write_rapis_ok:
  assumes "checked (db\<lparr>db_rapis := update_where p f (db_rapis db)\<rparr>) = Inr db'" and "ok_ex S D db"
    and "\<And>x. xr_id (f x) = xr_id x \<and> xr_platform_id (f x) = xr_platform_id x \<and> xr_key_ids (f x) = xr_key_ids x"
  shows "ok_ex S D db'"
  using assms(1)
  by (rule write_shape [OF _ assms(2)], intro shape_cong)
    (simp_all add: platform_ids_def cred_homes_def rapi_keys_def lapi_ids_def update_where_map assms(3))

lemma write_lapi_ok:
  assumes "write_lapi i f db = Inr db'" and "ok_ex S D db" and "\<And>x. xl_id (f x) = xl_id x"
  shows "ok_ex S D db'"
  using assms(1) unfolding write_lapi_def
  by (rule write_shape [OF _ assms(2)], intro shape_cong)
    (simp_all add: platform_ids_def cred_homes_def rapi_keys_def lapi_ids_def update_where_map assms(3))

lemma write_credential_ok:
  assumes "write_credential i f db = Inr db'" and "ok_ex S D db"
    and "\<And>x. xc_id (f x) = xc_id x \<and> xc_platform_id (f x) = xc_platform_id x"
  shows "ok_ex S D db'"
  using assms(1) unfolding write_credential_def
  by (rule write_shape [OF _ assms(2)], intro shape_cong)
    (simp_all add: platform_ids_def cred_homes_def rapi_keys_def lapi_ids_def update_where_map assms(3))

lemma write_db_ok:
  shows "write_platform i f db = Inr db' \<Longrightarrow> db_ok db \<Longrightarrow> (\<And>x. xp_id (f x) = xp_id x) \<Longrightarrow> db_ok db'"
    and "write_lapi i g db = Inr db' \<Longrightarrow> db_ok db \<Longrightarrow> (\<And>x. xl_id (g x) = xl_id x) \<Longrightarrow> db_ok db'"
    and "write_rapi i h db = Inr db' \<Longrightarrow> db_ok db \<Longrightarrow>
      (\<And>x. xr_id (h x) = xr_id x \<and> xr_platform_id (h x) = xr_platform_id x \<and> xr_key_ids (h x) = xr_key_ids x) \<Longrightarrow> db_ok db'"
    and "write_credential i k db = Inr db' \<Longrightarrow> db_ok db \<Longrightarrow>
      (\<And>x. xc_id (k x) = xc_id x \<and> xc_platform_id (k x) = xc_platform_id x) \<Longrightarrow> db_ok db'"
  unfolding db_ok_ex write_rapi_def
  subgoal by (erule write_platform_ok)
  subgoal by (erule write_lapi_ok)
  subgoal by (erule write_rapis_ok)
  subgoal by (erule write_credential_ok)
  done

lemma fresh_id: "distinct ids \<Longrightarrow> \<forall>i \<in> set ids. i < n \<Longrightarrow> distinct (ids @ [n :: int]) \<and> (\<forall>i \<in> set (ids @ [n]). i < n + 1)"
  by auto

lemma insert_platform_ok:
  assumes "insert_platform row db = Inr (db', i)" and "db_ok db"
  shows "db_ok db'"
proof -
  from assms(1) have db': "db' = db\<lparr>db_platforms := db_platforms db @ [row\<lparr>xp_id := db_seq_platform db\<rparr>],
      db_seq_platform := db_seq_platform db + 1\<rparr>" and c: "constraints db'"
    by (auto simp: insert_platform_def Let_def and_then_Inr checked_Inr)
  have "ids_ok db'"
    using assms(2) fresh_id [of "platform_ids db" "db_seq_platform db"]
    by (simp add: db' db_ok_def ids_ok_def platform_ids_def credential_ids_def rapi_ids_def lapi_ids_def)
  moreover have "rapi_keys db' = rapi_keys db" "cred_homes db' = cred_homes db" "bindings_of j db' = bindings_of j db" for j
    by (simp_all add: db' rapi_keys_def cred_homes_def bindings_of_def)
  ultimately show ?thesis using assms(2) c unfolding db_ok_def scoped_at_def derived_at_def bound_ids_of by simp
qed

lemma insert_lapi_ok:
  assumes "insert_lapi row db = Inr (db', i)" and "db_ok db"
  shows "db_ok db'"
proof -
  from assms(1) have db': "db' = db\<lparr>db_lapis := db_lapis db @ [row\<lparr>xl_id := db_seq_lapi db\<rparr>],
      db_seq_lapi := db_seq_lapi db + 1\<rparr>" and c: "constraints db'"
    by (auto simp: insert_lapi_def Let_def and_then_Inr checked_Inr)
  have "ids_ok db'"
    using assms(2) fresh_id [of "lapi_ids db" "db_seq_lapi db"]
    by (simp add: db' db_ok_def ids_ok_def platform_ids_def credential_ids_def rapi_ids_def lapi_ids_def)
  moreover have "rapi_keys db' = rapi_keys db" "cred_homes db' = cred_homes db" "bindings_of j db' = bindings_of j db" for j
    by (simp_all add: db' rapi_keys_def cred_homes_def bindings_of_def)
  ultimately show ?thesis using assms(2) c unfolding db_ok_def scoped_at_def derived_at_def bound_ids_of by simp
qed

lemma binding_fresh:
  assumes "ids_ok db" and "references_ok db" and "b \<in> set (db_bindings db)"
  shows "xb_rapi_id b < db_seq_rapi db" "xb_credential_id b < db_seq_credential db"
  using assms unfolding references_ok_def ids_ok_def by blast+

lemma insert_credential_ok:
  assumes "insert_credential row db = Inr (db', i)" and "ok_ex S D db"
  shows "ok_ex S D db'" "rapi_keys db' = rapi_keys db" "(i, xc_platform_id row) \<in> set (cred_homes db')"
    "set (cred_homes db) \<subseteq> set (cred_homes db')"
proof -
  from assms(1) have db': "db' = db\<lparr>db_credentials := db_credentials db @ [row\<lparr>xc_id := i\<rparr>],
      db_seq_credential := i + 1\<rparr>" and i: "i = db_seq_credential db" and c: "constraints db'"
    by (auto simp: insert_credential_def Let_def and_then_Inr checked_Inr)
  show keys: "rapi_keys db' = rapi_keys db" and "(i, xc_platform_id row) \<in> set (cred_homes db')"
    and "set (cred_homes db) \<subseteq> set (cred_homes db')" by (auto simp: db' rapi_keys_def cred_homes_def)
  from assms(2) have ids: "ids_ok db" and ref: "references_ok db" by (simp_all add: ok_ex_def shape_ex_def constraints_def)
  have "ids_ok db'"
    using ids fresh_id [of "credential_ids db" i] i
    by (simp add: db' ids_ok_def platform_ids_def credential_ids_def rapi_ids_def lapi_ids_def)
  moreover have b: "bindings_of j db' = bindings_of j db" for j by (simp add: db' bindings_of_def)
  moreover have "scoped_at db' j q" if "scoped_at db j q" for j q
  proof -
    have "xb_credential_id b \<noteq> i" if "b \<in> set (db_bindings db)" for b
      using binding_fresh [OF ids ref that] i by simp
    then show ?thesis using that by (auto simp: scoped_at_def db' cred_homes_def bindings_of_def)
  qed
  ultimately show "ok_ex S D db'"
    using assms(2) c unfolding ok_ex_def shape_ex_def derived_at_def bound_ids_of keys by auto
qed

lemma insert_rapi_ok:
  assumes "insert_rapi row db = Inr (db', i)" and "ok_ex S D db"
  shows "ok_ex S (\<lambda>j q. D j q \<or> j = i) db'" "\<And>q k. (i, q, k) \<in> set (rapi_keys db') \<Longrightarrow> q = xr_platform_id row"
proof -
  from assms(1) have db': "db' = db\<lparr>db_rapis := db_rapis db @ [row\<lparr>xr_id := i\<rparr>], db_seq_rapi := i + 1\<rparr>"
    and i: "i = db_seq_rapi db" and c: "constraints db'"
    by (auto simp: insert_rapi_def Let_def and_then_Inr checked_Inr)
  from assms(2) have ids: "ids_ok db" and ref: "references_ok db" by (simp_all add: ok_ex_def shape_ex_def constraints_def)
  have old: "j \<noteq> i" if "(j, q, k) \<in> set (rapi_keys db)" for j q k
    using ids that i by (auto simp: ids_ok_def rapi_keys_def rapi_ids_def)
  have keys: "rapi_keys db' = rapi_keys db @ [(i, xr_platform_id row, xr_key_ids row)]"
    by (simp add: db' rapi_keys_def)
  then show "q = xr_platform_id row" if "(i, q, k) \<in> set (rapi_keys db')" for q k using that old by auto
  have "ids_ok db'"
    using ids fresh_id [of "rapi_ids db" i] i
    by (simp add: db' ids_ok_def platform_ids_def credential_ids_def rapi_ids_def lapi_ids_def)
  moreover have b: "bindings_of j db' = bindings_of j db" "cred_homes db' = cred_homes db" for j
    by (simp_all add: db' bindings_of_def cred_homes_def)
  moreover have "bindings_of i db = []"
    using binding_fresh(1) [OF ids ref] i by (fastforce simp: bindings_of_def filter_empty_conv)
  ultimately show "ok_ex S (\<lambda>j q. D j q \<or> j = i) db'"
    using assms(2) c unfolding ok_ex_def shape_ex_def scoped_at_def derived_at_def bound_ids_of keys by auto
qed

lemma wrap_cred_err_Inr [simp]: "wrap_cred_err r = Inr x \<longleftrightarrow> r = Inr x"
  by (auto simp: wrap_cred_err_def split: sum.splits)

lemma insert_order_ok: "db_ok db \<Longrightarrow> insert_order l i n db = Inr db' \<Longrightarrow> db_ok db'"
proof -
  assume ok: "db_ok db" and "insert_order l i n db = Inr db'"
  then obtain rows where db': "db' = db\<lparr>db_orders := rows\<rparr>" and c: "constraints db'"
    by (auto simp: insert_order_def checked_Inr)
  have "shape_ex S D db' = shape_ex S D db" for S D
    by (rule shape_cong) (simp_all add: db' platform_ids_def cred_homes_def rapi_keys_def lapi_ids_def)
  then show ?thesis using ok c by (simp add: db_ok_ex ok_ex_def)
qed

section \<open>Bindings\<close>

lemma bindings_of_bind: "j \<noteq> i \<Longrightarrow> bindings_of j (bind i c db) = bindings_of j db"
  by (simp add: bind_def bindings_of_def new_binding_def)

lemma set_bindings_bind: "set (bindings_of i (bind i c db)) \<subseteq> insert (new_binding i c) (set (bindings_of i db))"
  by (auto simp: bind_def bindings_of_def)

lemma bind_parts [simp]: "rapi_keys (bind i c db) = rapi_keys db" "cred_homes (bind i c db) = cred_homes db"
  "ids_ok (bind i c db) = ids_ok db" "db_rapis (bind i c db) = db_rapis db"
  "db_credentials (bind i c db) = db_credentials db"
  by (simp_all add: bind_def rapi_keys_def cred_homes_def ids_ok_def platform_ids_def credential_ids_def rapi_ids_def
      lapi_ids_def)

lemma bind_shape:
  assumes "shape_ex S D db" and "\<And>p k. (i, p, k) \<in> set (rapi_keys db) \<Longrightarrow> D i p"
    and "\<And>p k. (i, p, k) \<in> set (rapi_keys db) \<Longrightarrow> \<not> S i \<Longrightarrow> \<forall>q. (c, q) \<in> set (cred_homes db) \<longrightarrow> q = p"
  shows "shape_ex S D (bind i c db)"
  unfolding shape_ex_def
proof (intro conjI ballI, goal_cases)
  case 1 show ?case using assms(1) by (simp add: shape_ex_def)
next
  case (2 x)
  obtain j p k where x: "x = (j, p, k)" by (cases x)
  with 2 have m: "(j, p, k) \<in> set (rapi_keys db)" by simp
  with assms(1) have old: "\<not> S j \<longrightarrow> scoped_at db j p" "\<not> D j p \<longrightarrow> derived_at db j k" unfolding shape_ex_def by auto
  show ?case
  proof (cases "j = i")
    case True
    have "scoped_at (bind i c db) i p" if "\<not> S i"
      using old(1) that set_bindings_bind [of i c db] assms(3) m True
      by (fastforce simp: scoped_at_def new_binding_def)
    with True assms(2) m x show ?thesis by auto
  next
    case False
    then show ?thesis using old x by (simp add: scoped_at_def derived_at_def bound_ids_of bindings_of_bind)
  qed
qed

lemma wanted_home: "c \<in> set (wanted_ids p csv db) \<Longrightarrow> (c, p) \<in> set (cred_homes db)"
  by (auto simp: wanted_ids_def Let_def platform_credentials_home [symmetric] split: if_splits)

lemma sync_bindings_ex:
  assumes "sync_bindings i p csv db = Inr db'" and "ok_ex S D db"
    and "\<And>q k. (i, q, k) \<in> set (rapi_keys db) \<Longrightarrow> q = p"
  shows "ok_ex (\<lambda>j. S j \<and> j \<noteq> i) (\<lambda>j q. D j q \<and> j \<noteq> i) db'"
proof -
  let ?want = "wanted_ids p csv db"
  let ?S = "\<lambda>j. S j \<and> j \<noteq> i" and ?D = "\<lambda>j q. D j q \<or> j = i"
  let ?I = "\<lambda>x. ok_ex ?S ?D x \<and> rapi_keys x = rapi_keys db \<and> cred_homes x = cred_homes db"
  define d0 where "d0 = db\<lparr>db_bindings := filter (\<lambda>b. \<not> (xb_rapi_id b = i \<and> xb_credential_id b \<notin> set ?want)) (db_bindings db)\<rparr>"
  from assms(2) have ids: "ids_ok db" by (simp add: ok_ex_def shape_ex_def)
  have home: "q = p" if "c \<in> set ?want" "(c, q) \<in> set (cred_homes db)" for c q
    using cred_home_unique [OF ids that(2) wanted_home [OF that(1)]] .
  obtain d1 where d1: "each (\<lambda>c db. checked (bind i c db)) ?want d0 = Inr d1" "db' = refresh_key_ids [i] d1"
    using assms(1) by (auto simp: sync_bindings_def Let_def and_then_Inr d0_def)
  have parts: "rapi_keys d0 = rapi_keys db" "cred_homes d0 = cred_homes db"
    by (simp_all add: d0_def rapi_keys_def cred_homes_def)
  have "ok_ex S ?D d0"
    unfolding d0_def by (rule bindings_filter_ok [OF assms(2)]) simp
  moreover have "scoped_at d0 i p"
    unfolding scoped_at_def parts using home by (auto simp: bindings_of_def d0_def)
  ultimately have "ok_ex ?S ?D d0"
    using assms(3) unfolding ok_ex_def shape_ex_def parts by fastforce
  then have "?I d0" by (simp add: parts)
  then have "?I d1"
  proof (rule each_induct [OF d1(1)])
    fix c x y assume c: "c \<in> set ?want" and x: "?I x" and y: "checked (bind i c x) = Inr y"
    from y have y: "y = bind i c x" "constraints y" by (auto simp: checked_Inr)
    have "shape_ex ?S ?D y"
      unfolding y(1) by (rule bind_shape) (use x c home assms(3) in \<open>auto simp: ok_ex_def\<close>)
    then show "?I y" using x y by (simp add: ok_ex_def)
  qed
  then have "ok_ex ?S ?D d1" by blast
  from refresh_ok [OF this, of "\<lambda>r. xr_id r \<in> set [i]" "\<lambda>j _. j = i"]
  show ?thesis unfolding d1(2) refresh_key_ids_def by (rule ok_weaken) auto
qed

lemma sync_bindings_ok:
  assumes "sync_bindings i p csv db = Inr db'" and "ok_ex (\<lambda>j. j = i) (\<lambda>j _. j = i) db"
    and "\<And>q k. (i, q, k) \<in> set (rapi_keys db) \<Longrightarrow> q = p"
  shows "db_ok db'"
  unfolding db_ok_ex by (rule ok_weaken [OF sync_bindings_ex [OF assms]]) auto

lemma bind_platform_ok:
  assumes "bind_credential_to_platform p c db = Inr db'" and "ok_ex (\<lambda>_. False) (\<lambda>_ q. q = p) db"
    and "(c, p) \<in> set (cred_homes db)"
  shows "ok_ex (\<lambda>_. False) (\<lambda>_ q. q = p) db'" "cred_homes db' = cred_homes db"
proof -
  let ?rs = "filter (\<lambda>r. xr_platform_id r = p) (db_rapis db)"
  let ?I = "\<lambda>x. shape_ex (\<lambda>_. False) (\<lambda>_ q. q = p) x \<and> rapi_keys x = rapi_keys db \<and> cred_homes x = cred_homes db"
  have ids: "ids_ok db" using assms(2) by (simp add: ok_ex_def shape_ex_def)
  have "?I (fold (\<lambda>r. bind (xr_id r) c) rs x)" if "set rs \<subseteq> set ?rs" "?I x" for rs x
    using that
  proof (induction rs arbitrary: x)
    case (Cons r rs)
    have m: "(xr_id r, p, xr_key_ids r) \<in> set (rapi_keys db)" using Cons.prems(1) by (auto simp: rapi_keys_row)
    have "shape_ex (\<lambda>_. False) (\<lambda>_ q. q = p) (bind (xr_id r) c x)"
    proof (rule bind_shape)
      show "shape_ex (\<lambda>_. False) (\<lambda>_ q. q = p) x" using Cons.prems(2) by simp
      fix q k assume "(xr_id r, q, k) \<in> set (rapi_keys x)"
      then have "q = p" using rapi_key_unique [OF ids m] Cons.prems(2) by auto
      then show "q = p" "\<forall>y. (c, y) \<in> set (cred_homes x) \<longrightarrow> y = q"
        using cred_home_unique [OF ids _ assms(3)] Cons.prems(2) by auto
    qed
    then show ?case using Cons.IH [of "bind (xr_id r) c x"] Cons.prems by simp
  qed simp
  from this [of ?rs db] assms(2)
  have "?I (fold (\<lambda>r. bind (xr_id r) c) ?rs db)" by (simp add: ok_ex_def)
  then show "ok_ex (\<lambda>_. False) (\<lambda>_ q. q = p) db'" "cred_homes db' = cred_homes db"
    using assms(1) by (auto simp: bind_credential_to_platform_def checked_Inr ok_ex_def)
qed

end
