(* ===== verification/SyncMerge.thy ===== *)
theory SyncMerge
  imports Bundle
begin

text \<open>
  The union an edge gateway makes of its own definitions and those of the centre when both have changed,
  \<open>internal/service/sync_merge.go\<close>. Rows are matched by their natural keys, taken as they are written; on a
  conflict the local row stays. The summary counts the rows of each table. A Go map from names to counts
  is a function that is 0 where there is no entry.
\<close>

section \<open>Summary\<close>

record merge_summary =
  su_merged_at :: string
  su_center_ver :: int
  su_from_center :: "string \<Rightarrow> int"
  su_kept_local :: "string \<Rightarrow> int"
  su_conflicts :: "(string \<times> string) list"
  su_adds :: bool
  su_pushed :: bool
  su_push_error :: string

definition max_merge_conflicts :: nat where
  "max_merge_conflicts = 20"

definition new_summary :: "string \<Rightarrow> merge_summary" where
  "new_summary stamp = \<lparr>su_merged_at = stamp, su_center_ver = 0, su_from_center = (\<lambda>_. 0), su_kept_local = (\<lambda>_. 0),
     su_conflicts = [], su_adds = False, su_pushed = False, su_push_error = []\<rparr>"

definition add_conflict :: "string \<Rightarrow> string \<Rightarrow> merge_summary \<Rightarrow> merge_summary" where
  "add_conflict table key sm =
     (if length (su_conflicts sm) < max_merge_conflicts
      then sm\<lparr>su_conflicts := su_conflicts sm @ [(table, key)]\<rparr> else sm)"

definition short_hash :: "string \<Rightarrow> string" where
  "short_hash h = (if length h \<le> 12 then h else take 12 h)"

section \<open>Comparing rows\<close>

text \<open>\<open>Unix()\<close>: whole seconds since 1970, from an instant in nanoseconds since the year 1.\<close>

definition epoch_seconds :: "instant \<Rightarrow> int" where
  "epoch_seconds t = t div nsec_second - 62135596800"

definition canon_time :: "instant option \<Rightarrow> int" where
  "canon_time t = (case t of None \<Rightarrow> 0 | Some t \<Rightarrow> epoch_seconds t)"

definition platform_equal :: "b_platform \<Rightarrow> b_platform \<Rightarrow> bool" where
  "platform_equal a b \<longleftrightarrow>
     bp_base_url a = bp_base_url b \<and> bp_name a = bp_name b \<and> bp_token a = bp_token b \<and>
     canon_time (bp_last_token_fetch a) = canon_time (bp_last_token_fetch b) \<and>
     bp_enabled a = bp_enabled b \<and> bp_notes a = bp_notes b \<and>
     bp_supported_formats a = bp_supported_formats b \<and> bp_format_endpoints a = bp_format_endpoints b \<and>
     bp_custom_headers a = bp_custom_headers b \<and> bp_login_account a = bp_login_account b \<and>
     bp_sort_order a = bp_sort_order b"

definition credential_equal :: "b_credential \<Rightarrow> b_credential \<Rightarrow> bool" where
  "credential_equal a b \<longleftrightarrow>
     bc_token_hash a = bc_token_hash b \<and> bc_platform_base_url a = bc_platform_base_url b \<and>
     bc_sort_order a = bc_sort_order b \<and> bc_token a = bc_token b \<and> bc_label a = bc_label b \<and>
     bc_enabled a = bc_enabled b \<and> canon_time (bc_expires_at a) = canon_time (bc_expires_at b) \<and>
     bc_is_free a = bc_is_free b"

section \<open>One table\<close>

definition bump :: "string \<Rightarrow> (string \<Rightarrow> int) \<Rightarrow> string \<Rightarrow> int" where
  "bump t f = f(t := f t + 1)"

text \<open>The local rows are kept; one whose key the centre lacks is counted.\<close>

definition keep_local :: "('a \<Rightarrow> 'k) \<Rightarrow> 'a list \<Rightarrow> string \<Rightarrow> 'a \<Rightarrow> 'a list \<times> merge_summary \<Rightarrow> 'a list \<times> merge_summary" where
  "keep_local key center table row acc =
     (let (rows, sm) = acc in
      (rows @ [row],
       case find (\<lambda>c. key c = key row) center of
         Some _ \<Rightarrow> sm
       | None \<Rightarrow> sm\<lparr>su_kept_local := bump table (su_kept_local sm), su_adds := True\<rparr>))"

definition add_center :: "('a \<Rightarrow> 'k) \<Rightarrow> ('a \<Rightarrow> 'a \<Rightarrow> bool) \<Rightarrow> ('a \<Rightarrow> string) \<Rightarrow> ('k \<rightharpoonup> 'a) \<Rightarrow> string \<Rightarrow> 'a
    \<Rightarrow> 'a list \<times> merge_summary \<Rightarrow> 'a list \<times> merge_summary" where
  "add_center key eqv label local table row acc =
     (let (rows, sm) = acc in
      case local (key row) of
        Some l \<Rightarrow> (rows, if eqv l row then sm else (add_conflict table (label row) sm)\<lparr>su_adds := True\<rparr>)
      | None \<Rightarrow> (rows @ [row], sm\<lparr>su_from_center := bump table (su_from_center sm)\<rparr>))"

definition last_by_key :: "('a \<Rightarrow> 'k) \<Rightarrow> 'a list \<Rightarrow> ('k \<rightharpoonup> 'a)" where
  "last_by_key key rows = map_of (rev (map (\<lambda>r. (key r, r)) rows))"

definition merge_table :: "('a \<Rightarrow> 'k) \<Rightarrow> ('a \<Rightarrow> 'a \<Rightarrow> bool) \<Rightarrow> ('a \<Rightarrow> string) \<Rightarrow> string \<Rightarrow> 'a list \<Rightarrow> 'a list
    \<Rightarrow> merge_summary \<Rightarrow> 'a list \<times> merge_summary" where
  "merge_table key eqv label table local center sm =
     fold (add_center key eqv label (last_by_key key local) table) center
       (fold (keep_local key center table) local ([], sm))"

section \<open>The merge\<close>

definition raw_rapi_key :: "b_rapi \<Rightarrow> string \<times> string" where
  "raw_rapi_key r = (br_platform_base_url r, br_model r)"

definition raw_binding_key :: "b_binding \<Rightarrow> string \<times> string \<times> string" where
  "raw_binding_key b = (bb_platform_base_url b, bb_model b, bb_token_hash b)"

definition raw_order_key :: "b_order \<Rightarrow> string \<times> string \<times> string" where
  "raw_order_key ord = (bo_lapi_alias ord, bo_platform_base_url ord, bo_model ord)"

definition binding_label :: "b_binding \<Rightarrow> string" where
  "binding_label b = bb_platform_base_url b @ ''#'' @ bb_model b @ ''#'' @ short_hash (bb_token_hash b)"

definition order_label :: "b_order \<Rightarrow> string" where
  "order_label ord = bo_lapi_alias ord @ ''#'' @ bo_platform_base_url ord @ ''#'' @ bo_model ord"

definition sync_merge :: "string \<Rightarrow> def_bundle \<Rightarrow> def_bundle \<Rightarrow> def_bundle \<times> merge_summary" where
  "sync_merge stamp local center =
     (let sm = new_summary stamp;
          (plats, sm) = merge_table bp_base_url platform_equal bp_base_url ''platform''
            (b_platforms local) (b_platforms center) sm;
          (creds, sm) = merge_table bc_token_hash credential_equal (\<lambda>c. short_hash (bc_token_hash c)) ''credential''
            (b_credentials local) (b_credentials center) sm;
          (rapis, sm) = merge_table raw_rapi_key (=) (\<lambda>r. br_platform_base_url r @ ''#'' @ br_model r) ''rapi''
            (b_rapis local) (b_rapis center) sm;
          (lapis, sm) = merge_table bl_alias (=) bl_alias ''lapi'' (b_lapis local) (b_lapis center) sm;
          (binds, sm) = merge_table raw_binding_key (=) binding_label ''endpoint_credential''
            (b_bindings local) (b_bindings center) sm;
          (ords, sm) = merge_table raw_order_key (=) order_label ''lapi_rapi_order''
            (b_orders local) (b_orders center) sm
      in (\<lparr>b_platforms = plats, b_credentials = creds, b_rapis = rapis, b_lapis = lapis, b_orders = ords,
           b_bindings = binds\<rparr>, sm))"

section \<open>What a table becomes\<close>

definition only_center :: "('a \<Rightarrow> 'k) \<Rightarrow> 'a list \<Rightarrow> 'a list \<Rightarrow> 'a list" where
  "only_center key local center = filter (\<lambda>c. key c \<notin> key ` set local) center"

definition table_adds :: "('a \<Rightarrow> 'k) \<Rightarrow> ('a \<Rightarrow> 'a \<Rightarrow> bool) \<Rightarrow> 'a list \<Rightarrow> 'a list \<Rightarrow> bool" where
  "table_adds key eqv local center \<longleftrightarrow>
     (\<exists>l \<in> set local. key l \<notin> key ` set center) \<or>
     (\<exists>c \<in> set center. \<exists>l. last_by_key key local (key c) = Some l \<and> \<not> eqv l c)"

lemma last_by_key_None: "last_by_key key rows k = None \<longleftrightarrow> k \<notin> key ` set rows"
  by (auto simp: last_by_key_def map_of_eq_None_iff image_image)

lemma last_by_key_distinct: "distinct (map key rows) \<Longrightarrow> last_by_key key rows k = Some r \<longleftrightarrow> r \<in> set rows \<and> key r = k"
  unfolding last_by_key_def by (subst map_of_eq_Some_iff) (auto simp: comp_def rev_map [symmetric] distinct_rev)

lemma find_None_key: "find (\<lambda>c. key c = k) rows = None \<longleftrightarrow> k \<notin> key ` set rows"
  by (auto simp: find_None_iff)

lemma fold_keep_local:
  "fold (keep_local key center table) local (rows, sm) = (rows', sm') \<Longrightarrow>
   rows' = rows @ local \<and>
   su_adds sm' = (su_adds sm \<or> (\<exists>l \<in> set local. key l \<notin> key ` set center)) \<and>
   su_kept_local sm' = (su_kept_local sm)(table := su_kept_local sm table
      + int (length (filter (\<lambda>l. key l \<notin> key ` set center) local))) \<and>
   su_from_center sm' = su_from_center sm \<and> su_conflicts sm' = su_conflicts sm"
proof (induction local arbitrary: rows sm)
  case (Cons l local)
  show ?case
  proof (cases "find (\<lambda>c. key c = key l) center")
    case None
    with Cons.prems Cons.IH [of "rows @ [l]" "sm\<lparr>su_kept_local := bump table (su_kept_local sm), su_adds := True\<rparr>"]
    show ?thesis using find_None_key [of key "key l" center] by (auto simp: keep_local_def bump_def)
  next
    case (Some c)
    with Cons.prems Cons.IH [of "rows @ [l]" sm]
    show ?thesis using find_None_key [of key "key l" center] by (auto simp: keep_local_def)
  qed
qed simp

lemma fold_add_center:
  "fold (add_center key eqv label local table) center (rows, sm) = (rows', sm') \<Longrightarrow>
   rows' = rows @ filter (\<lambda>c. local (key c) = None) center \<and>
   su_adds sm' = (su_adds sm \<or> (\<exists>c \<in> set center. \<exists>l. local (key c) = Some l \<and> \<not> eqv l c)) \<and>
   su_from_center sm' = (su_from_center sm)(table := su_from_center sm table
      + int (length (filter (\<lambda>c. local (key c) = None) center))) \<and>
   su_kept_local sm' = su_kept_local sm \<and>
   (su_conflicts sm' = [] \<longleftrightarrow> su_conflicts sm = [] \<and> (\<forall>c \<in> set center. \<forall>l. local (key c) = Some l \<longrightarrow> eqv l c)) \<and>
   length (su_conflicts sm') \<le> max (length (su_conflicts sm)) max_merge_conflicts"
proof (induction center arbitrary: rows sm)
  case (Cons c center)
  show ?case
  proof (cases "local (key c)")
    case None
    with Cons.prems Cons.IH [of "rows @ [c]" "sm\<lparr>su_from_center := bump table (su_from_center sm)\<rparr>"]
    show ?thesis by (auto simp: add_center_def bump_def)
  next
    case (Some l)
    show ?thesis
    proof (cases "eqv l c")
      case True
      with Some Cons.prems Cons.IH [of rows sm] show ?thesis by (auto simp: add_center_def)
    next
      case False
      let ?s = "(add_conflict table (label c) sm)\<lparr>su_adds := True\<rparr>"
      have s: "su_conflicts ?s \<noteq> []" "length (su_conflicts ?s) \<le> max (length (su_conflicts sm)) max_merge_conflicts"
        "su_from_center ?s = su_from_center sm" "su_kept_local ?s = su_kept_local sm" "su_adds ?s"
        by (auto simp: add_conflict_def max_merge_conflicts_def)
      have "add_center key eqv label local table c (rows, sm) = (rows, ?s)"
        using Some False by (simp add: add_center_def)
      with Cons.prems have "fold (add_center key eqv label local table) center (rows, ?s) = (rows', sm')" by simp
      from Cons.IH [OF this] s Some False show ?thesis by auto
    qed
  qed
qed simp

lemma merge_table_result:
  assumes "merge_table key eqv label table local center sm = (rows, sm')"
  shows "rows = local @ only_center key local center"
    and "su_adds sm' \<longleftrightarrow> su_adds sm \<or> table_adds key eqv local center"
    and "su_kept_local sm' = (su_kept_local sm)(table := su_kept_local sm table + int (length (only_center key center local)))"
    and "su_from_center sm' = (su_from_center sm)(table := su_from_center sm table + int (length (only_center key local center)))"
    and "length (su_conflicts sm') \<le> max (length (su_conflicts sm)) max_merge_conflicts"
proof -
  obtain rows1 sum1 where f: "fold (keep_local key center table) local ([], sm) = (rows1, sum1)"
    by (metis prod.collapse)
  then have g: "fold (add_center key eqv label (last_by_key key local) table) center (rows1, sum1) = (rows, sm')"
    using assms by (simp add: merge_table_def)
  note r = fold_keep_local [OF f] fold_add_center [OF g]
  show "rows = local @ only_center key local center" using r by (simp add: last_by_key_None only_center_def)
  show "su_adds sm' \<longleftrightarrow> su_adds sm \<or> table_adds key eqv local center" using r by (auto simp: table_adds_def)
  show "su_kept_local sm' = (su_kept_local sm)(table := su_kept_local sm table + int (length (only_center key center local)))"
    using r by (simp add: only_center_def)
  show "su_from_center sm' = (su_from_center sm)(table := su_from_center sm table + int (length (only_center key local center)))"
    using r by (simp add: only_center_def last_by_key_None)
  show "length (su_conflicts sm') \<le> max (length (su_conflicts sm)) max_merge_conflicts" using r by simp
qed
section \<open>The whole merge\<close>

definition union_rows :: "('a \<Rightarrow> 'k) \<Rightarrow> 'a list \<Rightarrow> 'a list \<Rightarrow> 'a list" where
  "union_rows key local center = local @ only_center key local center"

lemma union_rows_keys: "key ` set (union_rows key local center) = key ` set local \<union> key ` set center"
  by (auto simp: union_rows_def only_center_def)

lemma union_rows_set: "set (union_rows key local center) \<subseteq> set local \<union> set center"
  by (auto simp: union_rows_def only_center_def)

lemma union_rows_distinct:
  "distinct (map key local) \<Longrightarrow> distinct (map key center) \<Longrightarrow> distinct (map key (union_rows key local center))"
  by (auto simp: union_rows_def only_center_def distinct_map_filter) (metis imageI)

lemma union_rows_again: "union_rows key (union_rows key local center) center = union_rows key local center"
proof -
  have "only_center key (union_rows key local center) center = []"
    unfolding only_center_def union_rows_keys by (auto simp: filter_empty_conv)
  then show ?thesis by (simp add: union_rows_def [of key "union_rows key local center"])
qed

definition says_same :: "('a \<Rightarrow> 'k) \<Rightarrow> ('a \<Rightarrow> 'a \<Rightarrow> bool) \<Rightarrow> 'a list \<Rightarrow> 'a list \<Rightarrow> bool" where
  "says_same key eqv local center \<longleftrightarrow> (\<forall>l \<in> set local. \<exists>c \<in> set center. key c = key l \<and> eqv l c)"

lemma table_adds_iff:
  assumes "distinct (map key local)" and "distinct (map key center)"
  shows "table_adds key eqv local center \<longleftrightarrow> \<not> says_same key eqv local center"
proof
  assume "table_adds key eqv local center"
  then consider l where "l \<in> set local" "key l \<notin> key ` set center"
    | c l where "c \<in> set center" "l \<in> set local" "key l = key c" "\<not> eqv l c"
    unfolding table_adds_def using last_by_key_distinct [OF assms(1)] by metis
  then show "\<not> says_same key eqv local center"
  proof cases
    case 1
    have "key c \<noteq> key l" if "c \<in> set center" for c using 1(2) imageI [OF that, of key] by auto
    with 1(1) show ?thesis by (auto simp: says_same_def)
  next
    case 2
    have "\<not> eqv l c'" if "c' \<in> set center" "key c' = key l" for c'
    proof -
      have "c' = c" using inj_onD [of key "set center" c' c] assms(2) that 2(1,3) by (simp add: distinct_map)
      with 2(4) show ?thesis by blast
    qed
    with 2(2) show ?thesis unfolding says_same_def by blast
  qed
next
  assume "\<not> says_same key eqv local center"
  then obtain l where l: "l \<in> set local" "\<And>c. c \<in> set center \<Longrightarrow> key c = key l \<Longrightarrow> \<not> eqv l c"
    by (auto simp: says_same_def)
  show "table_adds key eqv local center"
  proof (cases "key l \<in> key ` set center")
    case True
    then obtain c where "c \<in> set center" "key c = key l" by force
    moreover from this have "last_by_key key local (key c) = Some l"
      using l(1) last_by_key_distinct [OF assms(1)] by simp
    ultimately show ?thesis using l(2) unfolding table_adds_def by blast
  qed (use l in \<open>auto simp: table_adds_def\<close>)
qed

lemma sync_merge_parts:
  assumes "sync_merge stamp local center = (merged, sm)"
  shows "b_platforms merged = union_rows bp_base_url (b_platforms local) (b_platforms center)"
    and "b_credentials merged = union_rows bc_token_hash (b_credentials local) (b_credentials center)"
    and "b_rapis merged = union_rows raw_rapi_key (b_rapis local) (b_rapis center)"
    and "b_lapis merged = union_rows bl_alias (b_lapis local) (b_lapis center)"
    and "b_bindings merged = union_rows raw_binding_key (b_bindings local) (b_bindings center)"
    and "b_orders merged = union_rows raw_order_key (b_orders local) (b_orders center)"
    and "su_adds sm \<longleftrightarrow>
      table_adds bp_base_url platform_equal (b_platforms local) (b_platforms center) \<or>
      table_adds bc_token_hash credential_equal (b_credentials local) (b_credentials center) \<or>
      table_adds raw_rapi_key (=) (b_rapis local) (b_rapis center) \<or>
      table_adds bl_alias (=) (b_lapis local) (b_lapis center) \<or>
      table_adds raw_binding_key (=) (b_bindings local) (b_bindings center) \<or>
      table_adds raw_order_key (=) (b_orders local) (b_orders center)"
    and "length (su_conflicts sm) \<le> max_merge_conflicts"
proof -
  obtain t1 s1 where 1: "merge_table bp_base_url platform_equal bp_base_url ''platform'' (b_platforms local)
      (b_platforms center) (new_summary stamp) = (t1, s1)" by (metis prod.collapse)
  obtain t2 s2 where 2: "merge_table bc_token_hash credential_equal (\<lambda>c. short_hash (bc_token_hash c)) ''credential''
      (b_credentials local) (b_credentials center) s1 = (t2, s2)" by (metis prod.collapse)
  obtain t3 s3 where 3: "merge_table raw_rapi_key (=) (\<lambda>r. br_platform_base_url r @ ''#'' @ br_model r) ''rapi''
      (b_rapis local) (b_rapis center) s2 = (t3, s3)" by (metis prod.collapse)
  obtain t4 s4 where 4: "merge_table bl_alias (=) bl_alias ''lapi'' (b_lapis local) (b_lapis center) s3 = (t4, s4)"
    by (metis prod.collapse)
  obtain t5 s5 where 5: "merge_table raw_binding_key (=) binding_label ''endpoint_credential'' (b_bindings local)
      (b_bindings center) s4 = (t5, s5)" by (metis prod.collapse)
  obtain t6 s6 where 6: "merge_table raw_order_key (=) order_label ''lapi_rapi_order'' (b_orders local)
      (b_orders center) s5 = (t6, s6)" by (metis prod.collapse)
  have m: "merged = \<lparr>b_platforms = t1, b_credentials = t2, b_rapis = t3, b_lapis = t4, b_orders = t6, b_bindings = t5\<rparr>"
    "sm = s6" using assms 1 2 3 4 5 6 by (simp_all add: sync_merge_def)
  note r = merge_table_result [OF 1] merge_table_result [OF 2] merge_table_result [OF 3] merge_table_result [OF 4]
    merge_table_result [OF 5] merge_table_result [OF 6]
  show "b_platforms merged = union_rows bp_base_url (b_platforms local) (b_platforms center)"
    "b_credentials merged = union_rows bc_token_hash (b_credentials local) (b_credentials center)"
    "b_rapis merged = union_rows raw_rapi_key (b_rapis local) (b_rapis center)"
    "b_lapis merged = union_rows bl_alias (b_lapis local) (b_lapis center)"
    "b_bindings merged = union_rows raw_binding_key (b_bindings local) (b_bindings center)"
    "b_orders merged = union_rows raw_order_key (b_orders local) (b_orders center)"
    using r by (simp_all add: m union_rows_def)
  have "\<not> su_adds (new_summary stamp)" "length (su_conflicts (new_summary stamp)) = 0"
    by (simp_all add: new_summary_def)
  then show "su_adds sm \<longleftrightarrow>
      table_adds bp_base_url platform_equal (b_platforms local) (b_platforms center) \<or>
      table_adds bc_token_hash credential_equal (b_credentials local) (b_credentials center) \<or>
      table_adds raw_rapi_key (=) (b_rapis local) (b_rapis center) \<or>
      table_adds bl_alias (=) (b_lapis local) (b_lapis center) \<or>
      table_adds raw_binding_key (=) (b_bindings local) (b_bindings center) \<or>
      table_adds raw_order_key (=) (b_orders local) (b_orders center)"
    and "length (su_conflicts sm) \<le> max_merge_conflicts"
    using r by (simp_all add: m(2)) 
qed

text \<open>Merging again changes nothing more.\<close>

lemma sync_merge_again:
  assumes "sync_merge stamp local center = (merged, sm)"
  shows "fst (sync_merge stamp' merged center) = merged"
proof -
  obtain merged' sm' where "sync_merge stamp' merged center = (merged', sm')" by (metis prod.collapse)
  from sync_merge_parts [OF this] sync_merge_parts [OF assms] show ?thesis
    by (cases merged; cases merged') (simp add: union_rows_again \<open>sync_merge stamp' merged center = (merged', sm')\<close>)
qed
section \<open>Correctness\<close>

text \<open>The keys are compared as written, \<open>Validate\<close> compares hashes without surrounding space. They
  agree on the hashes the program makes, which are hexadecimal.\<close>

definition trimmed_hashes :: "def_bundle \<Rightarrow> bool" where
  "trimmed_hashes b \<longleftrightarrow>
     (\<forall>c \<in> set (b_credentials b). trim_space (bc_token_hash c) = bc_token_hash c) \<and>
     (\<forall>x \<in> set (b_bindings b). trim_space (bb_token_hash x) = bb_token_hash x)"

lemma distinct_map_inj: "inj g \<Longrightarrow> distinct (map g ys) \<longleftrightarrow> distinct ys"
  by (simp add: distinct_map inj_on_subset [OF _ subset_UNIV])

lemma trimmed_keys:
  assumes "trimmed_hashes b"
  shows "map cred_key (b_credentials b) = map bc_token_hash (b_credentials b)"
    and "map binding_key (b_bindings b) = map (\<lambda>x. case raw_binding_key x of (u, m, h) \<Rightarrow> ((u, m), h)) (b_bindings b)"
  using assms by (simp_all add: trimmed_hashes_def cred_key_def binding_key_def raw_binding_key_def platform_key_of_def)

lemma distinct_pairs: "distinct (map (\<lambda>x. case f x of (u, m, h) \<Rightarrow> ((u, m), h)) xs) \<longleftrightarrow> distinct (map f xs)"
proof -
  have "inj (\<lambda>(u, m, h). ((u, m), h))" by (auto simp: inj_def)
  from distinct_map_inj [OF this, of "map f xs"] show ?thesis by (simp add: comp_def)
qed

lemma distinct_order_keys:
  "distinct (map (\<lambda>ord. (bo_lapi_alias ord, order_endpoint ord)) xs) \<longleftrightarrow> distinct (map raw_order_key xs)"
  by (simp add: raw_order_key_def [abs_def] order_endpoint_def [abs_def] platform_key_of_def)

lemma rapi_key_raw: "rapi_key = raw_rapi_key"
  by (simp add: fun_eq_iff rapi_key_def raw_rapi_key_def platform_key_of_def)

lemma nonempty_image: "[] \<notin> f ` S \<longleftrightarrow> (\<forall>x \<in> S. f x \<noteq> [])"
  by (metis imageE imageI)

text \<open>A valid snapshot, with the keys the merge uses.\<close>

lemma valid_raw:
  assumes "trimmed_hashes b"
  shows "valid_bundle b \<longleftrightarrow>
     [] \<notin> bp_base_url ` set (b_platforms b) \<and> distinct (map bp_base_url (b_platforms b)) \<and>
     [] \<notin> bc_token_hash ` set (b_credentials b) \<and> distinct (map bc_token_hash (b_credentials b)) \<and>
     bc_platform_base_url ` set (b_credentials b) \<subseteq> bp_base_url ` set (b_platforms b) \<and>
     fst ` raw_rapi_key ` set (b_rapis b) \<subseteq> bp_base_url ` set (b_platforms b) \<and>
     (\<forall>r \<in> set (b_rapis b). trim_space (br_model r) \<noteq> []) \<and> distinct (map raw_rapi_key (b_rapis b)) \<and>
     distinct (map raw_binding_key (b_bindings b)) \<and>
     (\<lambda>(u, m, h). (u, m)) ` raw_binding_key ` set (b_bindings b) \<subseteq> raw_rapi_key ` set (b_rapis b) \<and>
     (\<lambda>(u, m, h). h) ` raw_binding_key ` set (b_bindings b) \<subseteq> bc_token_hash ` set (b_credentials b) \<and>
     distinct (map bl_alias (b_lapis b)) \<and> (\<forall>a \<in> bl_alias ` set (b_lapis b). trim_space a \<noteq> []) \<and>
     distinct (map raw_order_key (b_orders b)) \<and>
     fst ` raw_order_key ` set (b_orders b) \<subseteq> bl_alias ` set (b_lapis b) \<and>
     snd ` raw_order_key ` set (b_orders b) \<subseteq> raw_rapi_key ` set (b_rapis b)"
  unfolding valid_bundle_def Let_def trimmed_keys [OF assms] distinct_pairs distinct_order_keys rapi_key_raw
  by (simp add: platform_key_of_def image_subset_iff raw_rapi_key_def raw_binding_key_def raw_order_key_def
      order_endpoint_def ball_conj_distrib nonempty_image)

lemma trimmed_union:
  assumes "trimmed_hashes local" and "trimmed_hashes center" and "sync_merge stamp local center = (merged, sm)"
  shows "trimmed_hashes merged"
  using assms(1,2) union_rows_set [of bc_token_hash "b_credentials local" "b_credentials center"]
    union_rows_set [of raw_binding_key "b_bindings local" "b_bindings center"]
  unfolding trimmed_hashes_def sync_merge_parts [OF assms(3)] by blast

lemma sync_merge_valid:
  assumes "valid_bundle local" and "valid_bundle center" and "trimmed_hashes local" and "trimmed_hashes center"
    and "sync_merge stamp local center = (merged, sm)"
  shows "valid_bundle merged"
proof -
  note l = assms(1) [unfolded valid_raw [OF assms(3)]]
  note c = assms(2) [unfolded valid_raw [OF assms(4)]]
  have models: "\<forall>r \<in> set (b_rapis merged). trim_space (br_model r) \<noteq> []"
  proof
    fix r
    assume "r \<in> set (b_rapis merged)"
    then have "r \<in> set (b_rapis local) \<or> r \<in> set (b_rapis center)"
      using union_rows_set [of raw_rapi_key "b_rapis local" "b_rapis center"] unfolding sync_merge_parts [OF assms(5)] by blast
    then show "trim_space (br_model r) \<noteq> []" using l c by simp metis
  qed
  have plats: "bc_platform_base_url ` set (b_credentials merged) \<subseteq> bp_base_url ` set (b_platforms merged)"
  proof -
    have "bc_platform_base_url ` set (b_credentials merged) \<subseteq>
        bc_platform_base_url ` set (b_credentials local) \<union> bc_platform_base_url ` set (b_credentials center)"
      unfolding sync_merge_parts [OF assms(5)] image_Un [symmetric] by (rule image_mono [OF union_rows_set])
    also have "\<dots> \<subseteq> bp_base_url ` set (b_platforms merged)"
      unfolding sync_merge_parts [OF assms(5)] union_rows_keys by (rule Un_mono) (use l c in simp_all)
    finally show ?thesis .
  qed
  show ?thesis
    unfolding valid_raw [OF trimmed_union [OF assms(3-5)]]
  proof (intro conjI models plats)
    show "fst ` raw_rapi_key ` set (b_rapis merged) \<subseteq> bp_base_url ` set (b_platforms merged)"
      "(\<lambda>(u, m, h). (u, m)) ` raw_binding_key ` set (b_bindings merged) \<subseteq> raw_rapi_key ` set (b_rapis merged)"
      "(\<lambda>(u, m, h). h) ` raw_binding_key ` set (b_bindings merged) \<subseteq> bc_token_hash ` set (b_credentials merged)"
      "fst ` raw_order_key ` set (b_orders merged) \<subseteq> bl_alias ` set (b_lapis merged)"
      "snd ` raw_order_key ` set (b_orders merged) \<subseteq> raw_rapi_key ` set (b_rapis merged)"
      unfolding sync_merge_parts [OF assms(5)] union_rows_keys image_Un
      by (rule Un_mono; insert l c; elim conjE; assumption)+
    show "[] \<notin> bp_base_url ` set (b_platforms merged)" "[] \<notin> bc_token_hash ` set (b_credentials merged)"
      "\<forall>a \<in> bl_alias ` set (b_lapis merged). trim_space a \<noteq> []"
      unfolding sync_merge_parts [OF assms(5)] union_rows_keys Un_iff ball_Un de_Morgan_disj
      by (rule conjI; insert l c; elim conjE; assumption)+
    show "distinct (map bp_base_url (b_platforms merged))" "distinct (map bc_token_hash (b_credentials merged))"
      "distinct (map raw_rapi_key (b_rapis merged))" "distinct (map raw_binding_key (b_bindings merged))"
      "distinct (map bl_alias (b_lapis merged))" "distinct (map raw_order_key (b_orders merged))"
      unfolding sync_merge_parts [OF assms(5)] using l c by (simp_all add: union_rows_distinct)
  qed
qed
text \<open>C37: The merge of two valid snapshots whose token hashes carry no space at either end, which is how the
  program writes them, is valid: every local row is kept as it is and first, followed by the rows of the centre whose
  key the local side lacks, in their order. It is flagged as adding to the centre exactly when some local row has no
  row in the centre that says the same, and merging the result with the same centre again changes nothing. (The merge
  compares hashes as they are and \<open>Validate\<close> trims them, so hashes that differ in such space only would make the
  result invalid.)\<close>

theorem sync_merge_union:
  assumes "valid_bundle local" and "valid_bundle center" and "trimmed_hashes local" and "trimmed_hashes center"
    and "sync_merge stamp local center = (merged, sm)"
  shows "validate_bundle merged = None \<and>
    b_platforms merged = union_rows bp_base_url (b_platforms local) (b_platforms center) \<and>
    b_credentials merged = union_rows bc_token_hash (b_credentials local) (b_credentials center) \<and>
    b_rapis merged = union_rows raw_rapi_key (b_rapis local) (b_rapis center) \<and>
    b_lapis merged = union_rows bl_alias (b_lapis local) (b_lapis center) \<and>
    b_bindings merged = union_rows raw_binding_key (b_bindings local) (b_bindings center) \<and>
    b_orders merged = union_rows raw_order_key (b_orders local) (b_orders center) \<and>
    (su_adds sm \<longleftrightarrow> \<not> (says_same bp_base_url platform_equal (b_platforms local) (b_platforms center) \<and>
      says_same bc_token_hash credential_equal (b_credentials local) (b_credentials center) \<and>
      says_same raw_rapi_key (=) (b_rapis local) (b_rapis center) \<and>
      says_same bl_alias (=) (b_lapis local) (b_lapis center) \<and>
      says_same raw_binding_key (=) (b_bindings local) (b_bindings center) \<and>
      says_same raw_order_key (=) (b_orders local) (b_orders center))) \<and>
    fst (sync_merge stamp' merged center) = merged"
proof (intro conjI)
  show "validate_bundle merged = None" by (rule validate_valid [THEN iffD2, OF sync_merge_valid [OF assms]])
  show "fst (sync_merge stamp' merged center) = merged" by (rule sync_merge_again [OF assms(5)])
  have "distinct (map bp_base_url (b_platforms b)) \<and> distinct (map bc_token_hash (b_credentials b)) \<and>
      distinct (map raw_rapi_key (b_rapis b)) \<and> distinct (map bl_alias (b_lapis b)) \<and>
      distinct (map raw_binding_key (b_bindings b)) \<and> distinct (map raw_order_key (b_orders b))"
    if "valid_bundle b" "trimmed_hashes b" for b using that(1) unfolding valid_raw [OF that(2)] by blast
  note d = this [OF assms(1,3)] this [OF assms(2,4)]
  show "su_adds sm \<longleftrightarrow> \<not> (says_same bp_base_url platform_equal (b_platforms local) (b_platforms center) \<and>
      says_same bc_token_hash credential_equal (b_credentials local) (b_credentials center) \<and>
      says_same raw_rapi_key (=) (b_rapis local) (b_rapis center) \<and>
      says_same bl_alias (=) (b_lapis local) (b_lapis center) \<and>
      says_same raw_binding_key (=) (b_bindings local) (b_bindings center) \<and>
      says_same raw_order_key (=) (b_orders local) (b_orders center))"
    unfolding sync_merge_parts(7) [OF assms(5)] using d by (simp add: table_adds_iff)
qed (rule sync_merge_parts [OF assms(5)])+

definition plain_platform :: "string \<Rightarrow> string \<Rightarrow> b_platform" where
  "plain_platform url name = \<lparr>bp_base_url = url, bp_name = name, bp_token = [], bp_last_token_fetch = None,
     bp_enabled = True, bp_notes = [], bp_supported_formats = [], bp_format_endpoints = [], bp_custom_headers = [],
     bp_login_account = [], bp_sort_order = 0\<rparr>"

theorem sync_merge_union_witness:
  "\<exists>merged sm. sync_merge [] (empty_bundle\<lparr>b_platforms := [plain_platform ''u'' ''mine'', plain_platform ''v'' ''V'']\<rparr>)
      (empty_bundle\<lparr>b_platforms := [plain_platform ''w'' ''W'', plain_platform ''u'' ''theirs'']\<rparr>) = (merged, sm) \<and>
     validate_bundle merged = None \<and> su_adds sm \<and>
     b_platforms merged = [plain_platform ''u'' ''mine'', plain_platform ''v'' ''V'', plain_platform ''w'' ''W'']"
proof -
  let ?l = "empty_bundle\<lparr>b_platforms := [plain_platform ''u'' ''mine'', plain_platform ''v'' ''V'']\<rparr>"
  let ?c = "empty_bundle\<lparr>b_platforms := [plain_platform ''w'' ''W'', plain_platform ''u'' ''theirs'']\<rparr>"
  obtain merged sm where m: "sync_merge [] ?l ?c = (merged, sm)" by (metis prod.collapse)
  have "valid_bundle ?l" "valid_bundle ?c" "trimmed_hashes ?l" "trimmed_hashes ?c"
    by (simp_all add: valid_bundle_def trimmed_hashes_def empty_bundle_def plain_platform_def platform_key_of_def)
  from sync_merge_union [OF this m, of "[]"] m show ?thesis
    by (simp add: union_rows_def only_center_def says_same_def empty_bundle_def plain_platform_def platform_equal_def)
qed

end
