(* ===== verification/BundleApply.thy ===== *)
theory BundleApply
  imports LocalStore SyncMerge
begin

text \<open>
  Snapshots in and out of the local database: \<open>ApplyBundle\<close> of \<open>internal/db/bundle_apply.go\<close> makes the
  database a mirror of a snapshot of the centre, in one transaction; \<open>ExportBundle\<close> of \<open>bundle_export.go\<close>
  gives the snapshot of the database. A Go map is a map; deletes of one loop, row by row in the code, are one
  delete of the rows the loop collects. The text of an error is left out.
\<close>

section \<open>Tokens\<close>

text \<open>\<open>centerToLocalPlain\<close>: the cipher text for the local database, and the plain text.\<close>

definition center_to_local_plain :: "db_env \<Rightarrow> string \<Rightarrow> db_error + string \<times> string" where
  "center_to_local_plain env v =
     (if v = [] then Inr ([], [])
      else if has_prefix v ''enc:'' then Inl CenterTokenEncrypted
      else and_then (seal env v) (\<lambda>c. Inr (c, v)))"

definition center_to_local :: "db_env \<Rightarrow> string \<Rightarrow> db_error + string" where
  "center_to_local env v = and_then (center_to_local_plain env v) (\<lambda>(c, p). Inr c)"

definition decrypt_local :: "db_env \<Rightarrow> string \<Rightarrow> db_error + string" where
  "decrypt_local env c = (if c = [] then Inr [] else unseal env c)"

section \<open>Applying a snapshot\<close>

text \<open>The maps of \<open>ApplyBundle\<close>, filled as the rows are written.\<close>

record apply_maps =
  am_platform :: "string \<rightharpoonup> int"
  am_base_url :: "int \<rightharpoonup> string"
  am_credential :: "string \<rightharpoonup> int"
  am_bound :: "endpoint \<Rightarrow> int list"
  am_rapi :: "endpoint \<rightharpoonup> int"
  am_lapi :: "string \<rightharpoonup> int"

type_synonym apply_state = "local_db \<times> apply_maps"

definition no_maps :: apply_maps where
  "no_maps = \<lparr>am_platform = Map.empty, am_base_url = Map.empty, am_credential = Map.empty, am_bound = (\<lambda>_. []),
     am_rapi = Map.empty, am_lapi = Map.empty\<rparr>"

definition apply_platform :: "db_env \<Rightarrow> instant \<Rightarrow> b_platform \<Rightarrow> apply_state \<Rightarrow> db_error + apply_state" where
  "apply_platform env now p st =
     (let (db, m) = st; url = bp_base_url p in
      and_then (center_to_local env (bp_token p)) (\<lambda>token.
        let columns = (\<lambda>q. q\<lparr>xp_name := bp_name p, xp_token := token, xp_last_token_fetch := bp_last_token_fetch p,
              xp_enabled := bp_enabled p, xp_available := token \<noteq> [], xp_notes := bp_notes p,
              xp_supported_formats := bp_supported_formats p, xp_format_endpoints := bp_format_endpoints p,
              xp_custom_headers := bp_custom_headers p, xp_login_account := bp_login_account p,
              xp_sort_order := bp_sort_order p, xp_updated_at := now\<rparr>);
            known = (\<lambda>(db, i). Inr (db, m\<lparr>am_platform := (am_platform m)(url \<mapsto> i), am_base_url := (am_base_url m)(i \<mapsto> url)\<rparr>))
        in case find (\<lambda>q. xp_base_url q = url) (db_platforms db) of
             Some q \<Rightarrow> and_then (write_platform (xp_id q) columns db) (\<lambda>db. known (db, xp_id q))
           | None \<Rightarrow> and_then (insert_platform \<lparr>xp_id = 0, xp_name = bp_name p, xp_base_url = url, xp_token = token,
               xp_last_token_fetch = bp_last_token_fetch p, xp_enabled = bp_enabled p, xp_available = (token \<noteq> []),
               xp_notes = bp_notes p, xp_supported_formats = bp_supported_formats p,
               xp_format_endpoints = bp_format_endpoints p, xp_custom_headers = bp_custom_headers p,
               xp_login_account = bp_login_account p, xp_sort_order = bp_sort_order p, xp_created_at = now,
               xp_updated_at = now\<rparr> db) known))"

definition base_url_of :: "apply_maps \<Rightarrow> int \<Rightarrow> string" where
  "base_url_of m i = (case am_base_url m i of None \<Rightarrow> [] | Some u \<Rightarrow> u)"

definition delete_stale_platforms :: "apply_state \<Rightarrow> apply_state" where
  "delete_stale_platforms st =
     (let (db, m) = st in (delete_platforms (\<lambda>p. am_platform m (base_url_of m (xp_id p)) = None) db, m))"

definition apply_credential :: "db_env \<Rightarrow> instant \<Rightarrow> b_credential \<Rightarrow> apply_state \<Rightarrow> db_error + apply_state" where
  "apply_credential env now k st =
     (let (db, m) = st; hash = trim_space (bc_token_hash k) in
      case am_platform m (bc_platform_base_url k) of
        None \<Rightarrow> Inl (MissingReference (bc_platform_base_url k))
      | Some pid \<Rightarrow>
          and_then (center_to_local_plain env (bc_token k)) (\<lambda>(token, plain).
            let local_hash = token_hash_arg env plain;
                known = (\<lambda>(db, i). Inr (db, m\<lparr>am_credential := (am_credential m)(hash \<mapsto> i)\<rparr>))
            in if (case local_hash of None \<Rightarrow> False | Some lh \<Rightarrow> hash \<noteq> [] \<and> lh \<noteq> hash)
               then Inl (HashMismatch hash (case local_hash of None \<Rightarrow> [] | Some lh \<Rightarrow> lh))
               else case find (\<lambda>c. xc_token_hash c = Some hash) (db_credentials db) of
                 Some c \<Rightarrow> and_then (wrap_cred_err (write_credential (xc_id c) (\<lambda>c. c\<lparr>xc_platform_id := pid, xc_token := token,
                     xc_label := bc_label k, xc_enabled := bc_enabled k, xc_sort_order := bc_sort_order k,
                     xc_failure_type := 0, xc_failure_reason := [], xc_failed_at := None,
                     xc_expires_at := bc_expires_at k, xc_is_free := bc_is_free k, xc_updated_at := now\<rparr>) db))
                   (\<lambda>db. known (db, xc_id c))
               | None \<Rightarrow> and_then (wrap_cred_err (insert_credential \<lparr>xc_id = 0, xc_platform_id = pid, xc_token_hash = local_hash,
                     xc_token = token, xc_label = bc_label k, xc_enabled = bc_enabled k, xc_failure_type = 0,
                     xc_failure_reason = [], xc_failed_at = None, xc_expires_at = bc_expires_at k, xc_is_free = bc_is_free k,
                     xc_sort_order = bc_sort_order k, xc_created_at = now, xc_updated_at = now\<rparr> db)) known))"

definition delete_stale_credentials :: "apply_state \<Rightarrow> apply_state" where
  "delete_stale_credentials st =
     (let (db, m) = st in
      (delete_credentials (\<lambda>c. case xc_token_hash c of None \<Rightarrow> False | Some h \<Rightarrow> am_credential m (trim_space h) = None) db, m))"

text \<open>The credentials each endpoint is bound to, by its natural key.\<close>

definition collect_binding :: "b_binding \<Rightarrow> apply_state \<Rightarrow> db_error + apply_state" where
  "collect_binding bd st =
     (let (db, m) = st; ek = (bb_platform_base_url bd, bb_model bd) in
      case am_credential m (trim_space (bb_token_hash bd)) of
        None \<Rightarrow> Inl (MissingReference (bb_token_hash bd))
      | Some c \<Rightarrow> Inr (db, m\<lparr>am_bound := (am_bound m)(ek := am_bound m ek @ [c])\<rparr>))"

definition apply_rapi :: "instant \<Rightarrow> b_rapi \<Rightarrow> apply_state \<Rightarrow> db_error + apply_state" where
  "apply_rapi now r st =
     (let (db, m) = st; ek = (br_platform_base_url r, br_model r) in
      case am_platform m (br_platform_base_url r) of
        None \<Rightarrow> Inl (MissingReference (br_platform_base_url r))
      | Some pid \<Rightarrow>
          let csv = id_csv (am_bound m ek);
              columns = (\<lambda>x. x\<lparr>xr_alias := br_alias r, xr_enabled := br_enabled r, xr_available := True,
                xr_unavailable_reason := [], xr_base_cost := br_base_cost r, xr_high_cost := br_high_cost r,
                xr_rpm_limit := br_rpm_limit r, xr_rph_limit := br_rph_limit r, xr_rpd_limit := br_rpd_limit r,
                xr_tpm_limit := br_tpm_limit r, xr_tph_limit := br_tph_limit r, xr_tpd_limit := br_tpd_limit r,
                xr_time_period_rules := br_time_period_rules r, xr_supported_formats := br_supported_formats r,
                xr_custom_headers := br_custom_headers r, xr_source := br_source r, xr_series := br_series r,
                xr_model_name := br_model_name r, xr_version := br_version r, xr_vendor := br_vendor r,
                xr_suffix := br_suffix r, xr_notes := br_notes r, xr_sort_order := br_sort_order r, xr_updated_at := now\<rparr>)
          in and_then (case find (\<lambda>x. xr_platform_id x = pid \<and> xr_model x = br_model r) (db_rapis db) of
               Some x \<Rightarrow> and_then (write_rapi (xr_id x) columns db) (\<lambda>db. Inr (db, xr_id x))
             | None \<Rightarrow> insert_rapi \<lparr>xr_id = 0, xr_alias = br_alias r, xr_model = br_model r, xr_vendor = br_vendor r,
                 xr_series = br_series r, xr_model_name = br_model_name r, xr_version = br_version r,
                 xr_suffix = br_suffix r, xr_platform_id = pid, xr_enabled = br_enabled r, xr_available = True,
                 xr_unavailable_reason = [], xr_base_cost = br_base_cost r, xr_high_cost = br_high_cost r,
                 xr_rpm_limit = br_rpm_limit r, xr_rph_limit = br_rph_limit r, xr_rpd_limit = br_rpd_limit r,
                 xr_tpm_limit = br_tpm_limit r, xr_tph_limit = br_tph_limit r, xr_tpd_limit = br_tpd_limit r,
                 xr_time_period_rules = br_time_period_rules r, xr_supported_formats = br_supported_formats r,
                 xr_custom_headers = br_custom_headers r, xr_key_ids = csv, xr_notes = br_notes r,
                 xr_source = br_source r, xr_sort_order = br_sort_order r, xr_created_at = now, xr_updated_at = now\<rparr> db)
             (\<lambda>(db, i). and_then (sync_bindings i pid csv db) (\<lambda>db. Inr (db, m\<lparr>am_rapi := (am_rapi m)(ek \<mapsto> i)\<rparr>))))"

definition delete_stale_rapis :: "apply_state \<Rightarrow> apply_state" where
  "delete_stale_rapis st =
     (let (db, m) = st in (delete_rapis (\<lambda>r. am_rapi m (base_url_of m (xr_platform_id r), xr_model r) = None) db, m))"

definition apply_lapi :: "instant \<Rightarrow> b_lapi \<Rightarrow> apply_state \<Rightarrow> db_error + apply_state" where
  "apply_lapi now l st =
     (let (db, m) = st;
          known = (\<lambda>(db, i). Inr (db, m\<lparr>am_lapi := (am_lapi m)(bl_alias l \<mapsto> i)\<rparr>))
      in case find (\<lambda>x. xl_alias x = bl_alias l) (db_lapis db) of
           Some x \<Rightarrow> and_then (write_lapi (xl_id x) (\<lambda>x. x\<lparr>xl_notes := bl_notes l, xl_enabled := bl_enabled l,
               xl_vendor := bl_vendor l, xl_series := bl_series l, xl_model_name := bl_model_name l,
               xl_version := bl_version l, xl_suffix := bl_suffix l\<rparr>) db) (\<lambda>db. known (db, xl_id x))
         | None \<Rightarrow> and_then (insert_lapi \<lparr>xl_id = 0, xl_alias = bl_alias l, xl_notes = bl_notes l, xl_enabled = bl_enabled l,
               xl_vendor = bl_vendor l, xl_series = bl_series l, xl_model_name = bl_model_name l,
               xl_version = bl_version l, xl_suffix = bl_suffix l, xl_sort_order = 0, xl_created_at = now\<rparr> db) known)"

definition delete_stale_lapis :: "apply_state \<Rightarrow> apply_state" where
  "delete_stale_lapis st = (let (db, m) = st in (delete_lapis (\<lambda>l. am_lapi m (xl_alias l) = None) db, m))"

definition apply_order :: "b_order \<Rightarrow> apply_state \<Rightarrow> db_error + apply_state" where
  "apply_order x st =
     (let (db, m) = st in
      case am_lapi m (bo_lapi_alias x) of
        None \<Rightarrow> Inl (MissingReference (bo_lapi_alias x))
      | Some l \<Rightarrow> (case am_rapi m (bo_platform_base_url x, bo_model x) of
            None \<Rightarrow> Inl (MissingReference (bo_model x))
          | Some r \<Rightarrow> and_then (insert_order l r (bo_order_index x) db) (\<lambda>db. Inr (db, m))))"

text \<open>Nothing of the health of the entities survives.\<close>

definition reset_health :: "local_db \<Rightarrow> local_db" where
  "reset_health db =
     db\<lparr>db_platforms := map (\<lambda>p. p\<lparr>xp_available := True\<rparr>) (db_platforms db),
        db_rapis := map (\<lambda>r. r\<lparr>xr_available := True, xr_unavailable_reason := []\<rparr>) (db_rapis db),
        db_credentials := map (\<lambda>c. c\<lparr>xc_failure_type := 0, xc_failure_reason := [], xc_failed_at := None\<rparr>) (db_credentials db),
        db_blocks := []\<rparr>"

definition apply_rows :: "db_env \<Rightarrow> instant \<Rightarrow> def_bundle \<Rightarrow> local_db \<Rightarrow> db_error + apply_state" where
  "apply_rows env now b db =
     and_then (each (apply_platform env now) (b_platforms b) (db, no_maps)) (\<lambda>st.
     and_then (each (apply_credential env now) (b_credentials b) (delete_stale_platforms st)) (\<lambda>st.
     and_then (each collect_binding (b_bindings b) (delete_stale_credentials st)) (\<lambda>st.
     and_then (each (apply_rapi now) (b_rapis b) st) (\<lambda>st.
     and_then (each (apply_lapi now) (b_lapis b) (delete_stale_rapis st)) (\<lambda>st.
     each apply_order (b_orders b) (let (db, m) = delete_stale_lapis st in (db\<lparr>db_orders := []\<rparr>, m)))))))"

definition apply_bundle :: "db_env \<Rightarrow> instant \<Rightarrow> envelope option \<Rightarrow> string \<Rightarrow> local_db \<Rightarrow> db_error + local_db" where
  "apply_bundle env now e source_url db =
     (case validate e of
        Some err \<Rightarrow> Inl (BundleInvalid err)
      | None \<Rightarrow> (case e of None \<Rightarrow> Inl (BundleInvalid NilEnvelope) | Some e \<Rightarrow>
          if b_platforms (env_bundle e) = [] then Inl EmptyDefinitions
          else and_then (apply_rows env now (env_bundle e) db) (\<lambda>(db, m).
            Inr ((reset_health db)\<lparr>db_sync := Some \<lparr>sy_current_version = env_version e, sy_last_good_version = env_version e,
              sy_last_synced_at = now, sy_source_url = source_url\<rparr>\<rparr>))))"

definition get_sync_state :: "local_db \<Rightarrow> sync_state" where
  "get_sync_state db = (case db_sync db of
     None \<Rightarrow> \<lparr>sy_current_version = 0, sy_last_good_version = 0, sy_last_synced_at = zero_time, sy_source_url = []\<rparr>
   | Some s \<Rightarrow> s)"

definition rewind_last_good_version :: "int \<Rightarrow> local_db \<Rightarrow> local_db" where
  "rewind_last_good_version v db = db\<lparr>db_sync := map_option (\<lambda>s. s\<lparr>sy_last_good_version := v\<rparr>) (db_sync db)\<rparr>"

section \<open>Taking a snapshot\<close>

fun str_lt :: "string \<Rightarrow> string \<Rightarrow> bool" where
  "str_lt s [] = False"
| "str_lt [] (c # t) = True"
| "str_lt (c # s) (d # t) = (c < d \<or> c = d \<and> str_lt s t)"

definition export_platform :: "db_env \<Rightarrow> plat_row \<Rightarrow> db_error + b_platform" where
  "export_platform env p =
     and_then (decrypt_local env (xp_token p)) (\<lambda>token.
       Inr \<lparr>bp_base_url = xp_base_url p, bp_name = xp_name p, bp_token = token,
         bp_last_token_fetch = xp_last_token_fetch p, bp_enabled = xp_enabled p, bp_notes = xp_notes p,
         bp_supported_formats = xp_supported_formats p, bp_format_endpoints = xp_format_endpoints p,
         bp_custom_headers = xp_custom_headers p, bp_login_account = xp_login_account p,
         bp_sort_order = xp_sort_order p\<rparr>)"

text \<open>The base URL of a platform, empty for none.\<close>

definition platform_url :: "local_db \<Rightarrow> int \<Rightarrow> string" where
  "platform_url db i = (case find (\<lambda>p. xp_id p = i) (db_platforms db) of None \<Rightarrow> [] | Some p \<Rightarrow> xp_base_url p)"

definition export_credential :: "db_env \<Rightarrow> string \<Rightarrow> credential_row \<Rightarrow> db_error + b_credential" where
  "export_credential env url c =
     (case xc_token_hash c of
        None \<Rightarrow> Inl NullHash
      | Some hash \<Rightarrow> and_then (decrypt_local env (xc_token c)) (\<lambda>token.
          Inr \<lparr>bc_token_hash = hash, bc_platform_base_url = url,
            bc_sort_order = xc_sort_order c, bc_token = token, bc_label = xc_label c, bc_enabled = xc_enabled c,
            bc_expires_at = xc_expires_at c, bc_is_free = xc_is_free c\<rparr>))"

definition export_rapi :: "string \<Rightarrow> rapi_row \<Rightarrow> b_rapi" where
  "export_rapi url r =
     \<lparr>br_platform_base_url = url, br_model = xr_model r, br_alias = xr_alias r,
      br_enabled = xr_enabled r, br_base_cost = xr_base_cost r, br_high_cost = xr_high_cost r,
      br_rpm_limit = xr_rpm_limit r, br_rph_limit = xr_rph_limit r, br_rpd_limit = xr_rpd_limit r,
      br_tpm_limit = xr_tpm_limit r, br_tph_limit = xr_tph_limit r, br_tpd_limit = xr_tpd_limit r,
      br_time_period_rules = xr_time_period_rules r, br_supported_formats = xr_supported_formats r,
      br_custom_headers = xr_custom_headers r, br_source = xr_source r, br_vendor = xr_vendor r, br_series = xr_series r,
      br_model_name = xr_model_name r, br_version = xr_version r, br_suffix = xr_suffix r, br_notes = xr_notes r,
      br_sort_order = xr_sort_order r\<rparr>"

definition export_lapi :: "lapi_row \<Rightarrow> b_lapi" where
  "export_lapi l = \<lparr>bl_alias = xl_alias l, bl_notes = xl_notes l, bl_enabled = xl_enabled l, bl_vendor = xl_vendor l,
     bl_series = xl_series l, bl_model_name = xl_model_name l, bl_version = xl_version l, bl_suffix = xl_suffix l\<rparr>"

text \<open>A binding with its endpoint and credential; one that has lost either is skipped.\<close>

definition export_binding :: "local_db \<Rightarrow> binding_row \<Rightarrow> b_binding option" where
  "export_binding db b =
     (case (find (\<lambda>r. xr_id r = xb_rapi_id b) (db_rapis db), find (\<lambda>c. xc_id c = xb_credential_id b) (db_credentials db)) of
        (Some r, Some c) \<Rightarrow> Some \<lparr>bb_platform_base_url = platform_url db (xr_platform_id r), bb_model = xr_model r,
          bb_token_hash = (case xc_token_hash c of None \<Rightarrow> [] | Some h \<Rightarrow> h), bb_rpm_limit = xb_rpm_limit b,
          bb_rph_limit = xb_rph_limit b, bb_rpd_limit = xb_rpd_limit b, bb_tpm_limit = xb_tpm_limit b,
          bb_tph_limit = xb_tph_limit b, bb_tpd_limit = xb_tpd_limit b, bb_enabled = xb_enabled b\<rparr>
      | _ \<Rightarrow> None)"

definition export_order :: "local_db \<Rightarrow> order_row \<Rightarrow> b_order option" where
  "export_order db x =
     (case (find (\<lambda>l. xl_id l = xo_lapi_id x) (db_lapis db), find (\<lambda>r. xr_id r = xo_rapi_id x) (db_rapis db)) of
        (Some l, Some r) \<Rightarrow> Some \<lparr>bo_lapi_alias = xl_alias l, bo_platform_base_url = platform_url db (xr_platform_id r),
          bo_model = xr_model r, bo_order_index = xo_order_index x\<rparr>
      | _ \<Rightarrow> None)"

definition export_bundle :: "db_env \<Rightarrow> local_db \<Rightarrow> db_error + def_bundle" where
  "export_bundle env db =
     and_then (scan_rows (export_platform env) (stable_sort (\<lambda>x y. xp_sort_order x < xp_sort_order y) (db_platforms db))) (\<lambda>plats.
     and_then (scan_rows (\<lambda>c. export_credential env (platform_url db (xc_platform_id c)) c) (stable_sort (\<lambda>x y. xc_platform_id x < xc_platform_id y \<or>
         xc_platform_id x = xc_platform_id y \<and> xc_sort_order x < xc_sort_order y) (db_credentials db))) (\<lambda>creds.
       let b = \<lparr>b_platforms = plats, b_credentials = creds,
             b_rapis = map (\<lambda>r. export_rapi (platform_url db (xr_platform_id r)) r) (stable_sort (\<lambda>x y. xr_sort_order x < xr_sort_order y) (db_rapis db)),
             b_lapis = map export_lapi (stable_sort (\<lambda>x y. str_lt (xl_alias x) (xl_alias y)) (db_lapis db)),
             b_orders = stable_sort (\<lambda>x y. str_lt (bo_lapi_alias x) (bo_lapi_alias y) \<or>
                 bo_lapi_alias x = bo_lapi_alias y \<and> bo_order_index x < bo_order_index y)
               (List.map_filter (export_order db) (db_orders db)),
             b_bindings = List.map_filter (export_binding db) (stable_sort (\<lambda>x y. xb_rapi_id x < xb_rapi_id y \<or>
                 xb_rapi_id x = xb_rapi_id y \<and> xb_credential_id x < xb_credential_id y) (db_bindings db))\<rparr>
       in case validate_bundle b of Some e \<Rightarrow> Inl (BundleInvalid e) | None \<Rightarrow> Inr b))"

end
