(* ===== verification/ApplyInv.thy ===== *)
theory ApplyInv
  imports LocalDbInv BundleApply
begin

text \<open>
  The invariant of the local database through \<open>ApplyBundle\<close>. The credentials may move to another platform on the
  way, so for that part only the constraints and the numbering hold; each endpoint is in order again once it is
  written, and the endpoints not written are deleted.
\<close>

section \<open>The maps\<close>

text \<open>The two maps of the platforms are inverse to each other, and a platform has a base URL.\<close>

definition maps_ok :: "local_db \<Rightarrow> apply_maps \<Rightarrow> bool" where
  "maps_ok db m \<longleftrightarrow> (\<forall>u i. am_platform m u = Some i \<longleftrightarrow> am_base_url m i = Some u) \<and>
     (\<forall>u i. am_platform m u = Some i \<longrightarrow> u \<noteq> [] \<and> (\<exists>q \<in> set (db_platforms db). xp_id q = i \<and> xp_base_url q = u))"

definition inverse_maps :: "apply_maps \<Rightarrow> bool" where
  "inverse_maps m \<longleftrightarrow> (\<forall>u i. am_platform m u = Some i \<longrightarrow> am_base_url m i = Some u \<and> u \<noteq> []) \<and>
     (\<forall>u i. am_base_url m i = Some u \<longrightarrow> am_platform m u = Some i)"

lemma inverse_maps_cong:
  "am_platform m' = am_platform m \<Longrightarrow> am_base_url m' = am_base_url m \<Longrightarrow> inverse_maps m' = inverse_maps m"
  by (simp only: inverse_maps_def)

lemma platform_row_unique:
  "ids_ok db \<Longrightarrow> q \<in> set (db_platforms db) \<Longrightarrow> q' \<in> set (db_platforms db) \<Longrightarrow> xp_id q = xp_id q' \<Longrightarrow> q = q'"
  by (auto simp: ids_ok_def platform_ids_def distinct_map dest: inj_onD)

lemma platform_url_unique:
  "constraints db \<Longrightarrow> q \<in> set (db_platforms db) \<Longrightarrow> q' \<in> set (db_platforms db) \<Longrightarrow> xp_base_url q = xp_base_url q' \<Longrightarrow>
   xp_base_url q \<noteq> [] \<Longrightarrow> q = q'"
  by (auto simp: constraints_def unique_platforms_def distinct_map dest: inj_onD)

lemma rapi_model_unique:
  "constraints db \<Longrightarrow> r \<in> set (db_rapis db) \<Longrightarrow> r' \<in> set (db_rapis db) \<Longrightarrow> xr_platform_id r = xr_platform_id r' \<Longrightarrow>
   xr_model r = xr_model r' \<Longrightarrow> xr_model r \<noteq> [] \<Longrightarrow> r = r'"
  by (auto simp: constraints_def unique_rapis_def distinct_map dest: inj_onD)

text \<open>Entering a row keeps the maps: a URL or a number already there belongs to the same row.\<close>

lemma maps_enter:
  assumes m: "maps_ok db m" and db': "db_ok db'" and u: "u \<noteq> []"
    and q: "q \<in> set (db_platforms db')" "xp_id q = i" "xp_base_url q = u"
    and keep: "\<And>x. x \<in> set (db_platforms db) \<Longrightarrow> \<exists>y \<in> set (db_platforms db'). xp_id y = xp_id x \<and> xp_base_url y = xp_base_url x"
  shows "maps_ok db' (m\<lparr>am_platform := (am_platform m)(u \<mapsto> i), am_base_url := (am_base_url m)(i \<mapsto> u)\<rparr>)"
proof -
  from m have bij: "am_platform m v = Some j \<longleftrightarrow> am_base_url m j = Some v" for v j by (simp add: maps_ok_def)
  have row: "v \<noteq> [] \<and> (\<exists>y \<in> set (db_platforms db'). xp_id y = j \<and> xp_base_url y = v)" if "am_platform m v = Some j" for v j
    using m that keep unfolding maps_ok_def by metis
  have "ids_ok db'" "constraints db'" using db' by (simp_all add: db_ok_def)
  then have same: "j = i \<longleftrightarrow> v = u" if "am_platform m v = Some j" for v j
    using row [OF that] platform_row_unique [of db' _ q] platform_url_unique [of db' _ q] q u by metis
  have "((am_platform m)(u \<mapsto> i)) v = Some j \<longleftrightarrow> ((am_base_url m)(i \<mapsto> u)) j = Some v" for v j
    using bij [of v j] same [of v j] by (cases "v = u"; cases "j = i") auto
  moreover have "v \<noteq> [] \<and> (\<exists>y \<in> set (db_platforms db'). xp_id y = j \<and> xp_base_url y = v)"
    if "((am_platform m)(u \<mapsto> i)) v = Some j" for v j
    using that row [of v j] q u by (auto split: if_splits)
  ultimately show ?thesis by (simp add: maps_ok_def)
qed

section \<open>Platforms and credentials\<close>

lemma apply_platform_ok:
  assumes "apply_platform env now p (db, m) = Inr (db', m')" and "db_ok db" and "maps_ok db m" and "bp_base_url p \<noteq> []"
  shows "db_ok db' \<and> maps_ok db' m' \<and> am_rapi m' = am_rapi m"
proof -
  let ?u = "bp_base_url p"
  obtain token where step: "(case find (\<lambda>q. xp_base_url q = ?u) (db_platforms db) of
      Some q \<Rightarrow> and_then (write_platform (xp_id q) (\<lambda>q. q\<lparr>xp_name := bp_name p, xp_token := token, xp_last_token_fetch := bp_last_token_fetch p,
              xp_enabled := bp_enabled p, xp_available := token \<noteq> [], xp_notes := bp_notes p,
              xp_supported_formats := bp_supported_formats p, xp_format_endpoints := bp_format_endpoints p,
              xp_custom_headers := bp_custom_headers p, xp_login_account := bp_login_account p,
              xp_sort_order := bp_sort_order p, xp_updated_at := now\<rparr>) db)
           (\<lambda>db. Inr (db, m\<lparr>am_platform := (am_platform m)(?u \<mapsto> xp_id q), am_base_url := (am_base_url m)(xp_id q \<mapsto> ?u)\<rparr>))
    | None \<Rightarrow> and_then (insert_platform \<lparr>xp_id = 0, xp_name = bp_name p, xp_base_url = ?u, xp_token = token,
               xp_last_token_fetch = bp_last_token_fetch p, xp_enabled = bp_enabled p, xp_available = (token \<noteq> []),
               xp_notes = bp_notes p, xp_supported_formats = bp_supported_formats p,
               xp_format_endpoints = bp_format_endpoints p, xp_custom_headers = bp_custom_headers p,
               xp_login_account = bp_login_account p, xp_sort_order = bp_sort_order p, xp_created_at = now,
               xp_updated_at = now\<rparr> db)
           (\<lambda>(db, i). Inr (db, m\<lparr>am_platform := (am_platform m)(?u \<mapsto> i), am_base_url := (am_base_url m)(i \<mapsto> ?u)\<rparr>)))
      = Inr (db', m')"
    using assms(1) unfolding apply_platform_def Let_def prod.case by (auto simp: and_then_Inr)
  show ?thesis
  proof (cases "find (\<lambda>q. xp_base_url q = ?u) (db_platforms db)")
    case (Some q)
    then have q: "q \<in> set (db_platforms db)" "xp_base_url q = ?u" by (auto simp: find_Some_iff)
    obtain f where w: "write_platform (xp_id q) f db = Inr db'" and f: "\<And>x. xp_id (f x) = xp_id x \<and> xp_base_url (f x) = xp_base_url x"
      and m': "m' = m\<lparr>am_platform := (am_platform m)(?u \<mapsto> xp_id q), am_base_url := (am_base_url m)(xp_id q \<mapsto> ?u)\<rparr>"
      using step Some by (auto simp: and_then_Inr)
    have ok: "db_ok db'" by (rule write_db_ok(1) [OF w assms(2)]) (simp add: f)
    have db': "db_platforms db' = update_where (\<lambda>x. xp_id x = xp_id q) f (db_platforms db)"
      using w by (auto simp: write_platform_def checked_Inr)
    have keep: "\<exists>y \<in> set (db_platforms db'). xp_id y = xp_id x \<and> xp_base_url y = xp_base_url x" if "x \<in> set (db_platforms db)" for x
      using that f unfolding db' update_where_def by (intro bexI [of _ "if xp_id x = xp_id q then f x else x"]) auto
    from keep [OF q(1)] q(2) obtain y where "y \<in> set (db_platforms db')" "xp_id y = xp_id q" "xp_base_url y = ?u" by auto
    from maps_enter [OF assms(3) ok assms(4) this keep] ok show ?thesis by (simp add: m')
  next
    case None
    obtain row i where ins: "insert_platform row db = Inr (db', i)" "xp_base_url row = ?u"
      and m': "m' = m\<lparr>am_platform := (am_platform m)(?u \<mapsto> i), am_base_url := (am_base_url m)(i \<mapsto> ?u)\<rparr>"
      using step None by (auto simp: and_then_Inr)
    have ok: "db_ok db'" by (rule insert_platform_ok [OF ins(1) assms(2)])
    have db': "db_platforms db' = db_platforms db @ [row\<lparr>xp_id := i\<rparr>]"
      using ins(1) by (auto simp: insert_platform_def Let_def and_then_Inr checked_Inr)
    have "maps_ok db' (m\<lparr>am_platform := (am_platform m)(?u \<mapsto> i), am_base_url := (am_base_url m)(i \<mapsto> ?u)\<rparr>)"
      by (rule maps_enter [OF assms(3) ok assms(4), of "row\<lparr>xp_id := i\<rparr>"]) (use ins(2) in \<open>auto simp: db'\<close>)
    then show ?thesis using ok by (simp add: m')
  qed
qed

lemma maps_ok_inverse: "maps_ok db m \<Longrightarrow> inverse_maps m"
  by (simp add: maps_ok_def inverse_maps_def)

definition base_ok :: "apply_maps \<Rightarrow> apply_state \<Rightarrow> bool" where
  "base_ok m0 st \<longleftrightarrow> constraints (fst st) \<and> ids_ok (fst st) \<and> am_platform (snd st) = am_platform m0 \<and>
     am_base_url (snd st) = am_base_url m0 \<and> am_rapi (snd st) = am_rapi m0"

lemma apply_credential_ok:
  assumes "apply_credential env now k (db, m) = Inr st'" and "base_ok m0 (db, m)"
  shows "base_ok m0 st'"
proof -
  have weak: "ok_ex (\<lambda>_. True) (\<lambda>_ _. True) x \<longleftrightarrow> constraints x \<and> ids_ok x" for x
    by (auto simp: ok_ex_def shape_ex_def)
  have w: "constraints d \<and> ids_ok d" if "write_credential i f db = Inr d" "\<And>x. xc_id (f x) = xc_id x" for i f d
    using that assms(2) by (auto simp: write_credential_def checked_Inr base_ok_def ids_ok_def platform_ids_def
        credential_ids_def rapi_ids_def lapi_ids_def update_where_map)
  have i: "constraints d \<and> ids_ok d" if "insert_credential row db = Inr (d, j)" for row d j
    using insert_credential_ok(1) [OF that, of "\<lambda>_. True" "\<lambda>_ _. True"] assms(2) by (simp add: weak base_ok_def)
  from assms show ?thesis
    unfolding apply_credential_def Let_def prod.case base_ok_def
    by (auto simp: and_then_Inr split: option.splits if_splits dest!: i w)
qed


section \<open>Endpoints\<close>

text \<open>The endpoint a key of the bundle is entered for is there, and whatever is entered is in order.\<close>

definition rapis_ok :: "apply_state \<Rightarrow> bool" where
  "rapis_ok st \<longleftrightarrow> (let (db, m) = st in
     inverse_maps m \<and> ok_ex (\<lambda>j. j \<notin> ran (am_rapi m)) (\<lambda>j _. j \<notin> ran (am_rapi m)) db \<and>
     (\<forall>u n j. am_rapi m (u, n) = Some j \<longrightarrow> n \<noteq> [] \<and> (\<exists>p. am_platform m u = Some p \<and>
        (j, p, n) \<in> set (map (\<lambda>r. (xr_id r, xr_platform_id r, xr_model r)) (db_rapis db)))))"

lemma sync_bindings_models:
  assumes "sync_bindings i p csv db = Inr db'"
  shows "map (\<lambda>r. (xr_id r, xr_platform_id r, xr_model r)) (db_rapis db') = map (\<lambda>r. (xr_id r, xr_platform_id r, xr_model r)) (db_rapis db)"
proof -
  obtain d0 d1 where d: "each (\<lambda>c db. checked (bind i c db)) (wanted_ids p csv db) d0 = Inr d1" "db' = refresh_key_ids [i] d1"
    and d0: "db_rapis d0 = db_rapis db"
    using assms by (auto simp: sync_bindings_def Let_def and_then_Inr)
  have "db_rapis d1 = db_rapis db"
    by (rule each_induct [OF d(1), where I = "\<lambda>x. db_rapis x = db_rapis db"]) (auto simp: d0 checked_Inr)
  then show ?thesis by (simp add: d(2) refresh_key_ids_def refresh_where_def update_where_map)
qed

lemma apply_rapi_step:
  assumes ok: "ok_ex S (\<lambda>j q. D j q \<or> j = i) d" and home: "\<And>q k. (i, q, k) \<in> set (rapi_keys d) \<Longrightarrow> q = p"
    and sync: "sync_bindings i p csv d = Inr db'"
  shows "ok_ex (\<lambda>j. S j \<and> j \<noteq> i) (\<lambda>j q. D j q \<and> j \<noteq> i) db'"
  by (rule ok_weaken [OF sync_bindings_ex [OF sync ok home]]) auto

lemma apply_rapi_ok:
  assumes "apply_rapi now r (db, m) = Inr st'" and "rapis_ok (db, m)" and "br_model r \<noteq> []"
  shows "rapis_ok st'"
proof -
  let ?u = "br_platform_base_url r" and ?n = "br_model r"
  let ?rows = "\<lambda>db. map (\<lambda>r. (xr_id r, xr_platform_id r, xr_model r)) (db_rapis db)"
  let ?S = "\<lambda>j. j \<notin> ran (am_rapi m)"
  from assms(2) have inv: "inverse_maps m" and ok: "ok_ex ?S (\<lambda>j _. ?S j) db"
    and ent: "\<And>u n j. am_rapi m (u, n) = Some j \<Longrightarrow> n \<noteq> [] \<and> (\<exists>p. am_platform m u = Some p \<and> (j, p, n) \<in> set (?rows db))"
    by (simp_all add: rapis_ok_def)
  from assms(1) obtain p d i csv db' where p: "am_platform m ?u = Some p"
    and d: "(\<exists>x f. x \<in> set (db_rapis db) \<and> xr_id x = i \<and> xr_platform_id x = p \<and> xr_model x = ?n \<and> write_rapi i f db = Inr d \<and>
        (\<forall>x. xr_id (f x) = xr_id x \<and> xr_platform_id (f x) = xr_platform_id x \<and> xr_key_ids (f x) = xr_key_ids x \<and> xr_model (f x) = xr_model x)) \<or>
      (\<exists>row. insert_rapi row db = Inr (d, i) \<and> xr_platform_id row = p \<and> xr_model row = ?n)"
    and sync: "sync_bindings i p csv d = Inr db'" and st': "st' = (db', m\<lparr>am_rapi := (am_rapi m)((?u, ?n) \<mapsto> i)\<rparr>)"
    unfolding apply_rapi_def Let_def prod.case
    by (fastforce simp: and_then_Inr find_Some_iff split: option.splits)
  have *: "ok_ex ?S (\<lambda>j q. ?S j \<or> j = i) d \<and> (i, p, ?n) \<in> set (?rows d) \<and> set (?rows db) \<subseteq> set (?rows d) \<and>
      (\<forall>q k. (i, q, k) \<in> set (rapi_keys d) \<longrightarrow> q = p)"
    using d
  proof (elim disjE exE conjE)
    fix x f assume x: "x \<in> set (db_rapis db)" "xr_id x = i" "xr_platform_id x = p" "xr_model x = ?n"
      and w: "write_rapi i f db = Inr d"
      and f: "\<forall>x. xr_id (f x) = xr_id x \<and> xr_platform_id (f x) = xr_platform_id x \<and> xr_key_ids (f x) = xr_key_ids x \<and> xr_model (f x) = xr_model x"
    have rows: "db_rapis d = update_where (\<lambda>r. xr_id r = i) f (db_rapis db)" using w by (auto simp: write_rapi_def checked_Inr)
    have same: "?rows d = ?rows db" "rapi_keys d = rapi_keys db"
      using f by (simp_all add: rows update_where_map rapi_keys_def)
    have "ok_ex ?S (\<lambda>j _. ?S j) d" by (rule write_rapis_ok [OF w [unfolded write_rapi_def] ok]) (use f in blast)
    then have "ok_ex ?S (\<lambda>j q. ?S j \<or> j = i) d" by (rule ok_weaken) auto
    moreover have "q = p" if "(i, q, k) \<in> set (rapi_keys d)" for q k
    proof -
      have "(i, p, xr_key_ids x) \<in> set (rapi_keys db)" using x by (auto simp: rapi_keys_row)
      moreover have "ids_ok db" using ok by (simp add: ok_ex_def shape_ex_def)
      ultimately show ?thesis using rapi_key_unique that same(2) by metis
    qed
    moreover have "(i, p, ?n) \<in> set (?rows db)" using x by force
    ultimately show ?thesis by (simp add: same(1))
  next
    fix row assume ins: "insert_rapi row db = Inr (d, i)" and row: "xr_platform_id row = p" "xr_model row = ?n"
    have rows: "db_rapis d = db_rapis db @ [row\<lparr>xr_id := i\<rparr>]"
      using ins by (auto simp: insert_rapi_def Let_def and_then_Inr checked_Inr)
    show ?thesis using insert_rapi_ok [OF ins ok] row by (auto simp: rows)
  qed
  then have "ok_ex (\<lambda>j. ?S j \<and> j \<noteq> i) (\<lambda>j q. ?S j \<and> j \<noteq> i) db'"
    using apply_rapi_step [OF _ _ sync, of ?S "\<lambda>j _. ?S j"] by blast
  then have "ok_ex (\<lambda>j. j \<notin> ran ((am_rapi m)((?u, ?n) \<mapsto> i))) (\<lambda>j _. j \<notin> ran ((am_rapi m)((?u, ?n) \<mapsto> i))) db'"
    by (rule ok_weaken) (auto simp: ran_def split: if_splits)
  moreover have rows: "set (?rows db') = set (?rows d)" by (simp only: sync_bindings_models [OF sync])
  moreover have "n \<noteq> [] \<and> (\<exists>q. am_platform m u = Some q \<and> (j, q, n) \<in> set (?rows db'))"
    if "((am_rapi m)((?u, ?n) \<mapsto> i)) (u, n) = Some j" for u n j
  proof (cases "(u, n) = (?u, ?n)")
    case True
    with that * p assms(3) show ?thesis unfolding rows by auto
  next
    case False
    with that have "am_rapi m (u, n) = Some j" by (simp split: if_splits)
    from ent [OF this] * show ?thesis unfolding rows by blast
  qed
  moreover have "inverse_maps (m\<lparr>am_rapi := (am_rapi m)((?u, ?n) \<mapsto> i)\<rparr>)" using inv inverse_maps_cong [of "m\<lparr>am_rapi := (am_rapi m)((?u, ?n) \<mapsto> i)\<rparr>" m] by simp
  ultimately show ?thesis by (simp add: rapis_ok_def st' del: set_map)
qed

text \<open>An endpoint that is not deleted after the loop was entered, so it is in order.\<close>

lemma delete_stale_rapis_ok:
  assumes "rapis_ok (db, m)" shows "db_ok (fst (delete_stale_rapis (db, m)))"
proof -
  let ?p = "\<lambda>r. am_rapi m (base_url_of m (xr_platform_id r), xr_model r) = None"
  from assms have inv: "inverse_maps m" and ok: "ok_ex (\<lambda>j. j \<notin> ran (am_rapi m)) (\<lambda>j _. j \<notin> ran (am_rapi m)) db"
    and ent: "\<And>u n j. am_rapi m (u, n) = Some j \<Longrightarrow> n \<noteq> [] \<and> (\<exists>p. am_platform m u = Some p \<and>
      (j, p, n) \<in> set (map (\<lambda>r. (xr_id r, xr_platform_id r, xr_model r)) (db_rapis db)))"
    by (simp_all add: rapis_ok_def)
  have entered: "xr_id r \<in> ran (am_rapi m)" if r: "r \<in> set (db_rapis db)" "\<not> ?p r" for r
  proof -
    let ?u = "base_url_of m (xr_platform_id r)"
    obtain j where j: "am_rapi m (?u, xr_model r) = Some j" using r(2) by blast
    from ent [OF j] obtain p r' where p: "am_platform m ?u = Some p" "xr_model r \<noteq> []"
      and r': "r' \<in> set (db_rapis db)" "xr_id r' = j" "xr_platform_id r' = p" "xr_model r' = xr_model r" by auto
    from p(1) inv have u: "?u \<noteq> []" unfolding inverse_maps_def by blast
    then have "am_base_url m (xr_platform_id r) = Some ?u" by (simp add: base_url_of_def split: option.splits)
    with inv have "am_platform m ?u = Some (xr_platform_id r)" unfolding inverse_maps_def by blast
    with p(1) r'(3) have e: "xr_platform_id r = xr_platform_id r'" by simp
    have "constraints db" using ok by (simp add: ok_ex_def)
    from rapi_model_unique [OF this r(1) r'(1) e r'(4) [symmetric] p(2)] have "r = r'" .
    with j r'(2) show ?thesis by (auto simp: ran_def)
  qed
  show ?thesis
    unfolding delete_stale_rapis_def db_ok_ex Let_def prod.case fst_conv
    by (rule ok_weaken [OF delete_rapis_ok [OF ok]])
      (use entered in \<open>auto simp: rapi_keys_def delete_rapis_def Let_def\<close>)
qed

section \<open>Models, chains and health\<close>

lemma apply_lapi_ok: "apply_lapi now l (db, m) = Inr st' \<Longrightarrow> db_ok db \<Longrightarrow> db_ok (fst st')"
  by (auto simp: apply_lapi_def Let_def and_then_Inr insert_lapi_ok split: option.splits elim!: write_db_ok(2))

lemma apply_order_ok: "apply_order x (db, m) = Inr st' \<Longrightarrow> db_ok db \<Longrightarrow> db_ok (fst st')"
  by (auto simp: apply_order_def and_then_Inr insert_order_ok split: option.splits)

lemma reset_health_ok: "db_ok db \<Longrightarrow> db_ok (reset_health db)"
proof -
  assume ok: "db_ok db"
  let ?db = "reset_health db"
  have parts: "platform_ids ?db = platform_ids db" "credential_ids ?db = credential_ids db" "rapi_ids ?db = rapi_ids db"
    "lapi_ids ?db = lapi_ids db" "cred_homes ?db = cred_homes db" "rapi_keys ?db = rapi_keys db"
    by (simp_all add: reset_health_def platform_ids_def credential_ids_def rapi_ids_def lapi_ids_def cred_homes_def
        rapi_keys_def comp_def)
  have "List.map_filter xc_token_hash (db_credentials ?db) = List.map_filter xc_token_hash (db_credentials db)"
    by (simp add: reset_health_def List.map_filter_def filter_map comp_def)
  then have "unique_credentials ?db = unique_credentials db" by (simp only: unique_credentials_def)
  then have "constraints ?db"
    using ok unfolding db_ok_def constraints_def references_ok_def parts
    by (simp add: reset_health_def unique_platforms_def unique_rapis_def unique_lapis_def
        unique_bindings_def unique_orders_def comp_def filter_map)
  moreover have "shape_ex S D ?db = shape_ex S D db" for S D
    by (rule shape_cong) (simp_all add: parts, simp_all add: reset_health_def)
  ultimately show ?thesis using ok by (simp add: db_ok_ex ok_ex_def)
qed

section \<open>The whole of it\<close>

lemma apply_rows_ok:
  assumes "apply_rows env now b db = Inr (db', m')" and "db_ok db" and v: "valid_bundle b"
  shows "db_ok db'"
proof -
  have no_space: "trim_space [] = []" by (simp add: trim_space_def trim_front.simps [of _ "[]"])
  from v have urls: "\<forall>p \<in> set (b_platforms b). bp_base_url p \<noteq> []" and models: "\<forall>r \<in> set (b_rapis b). br_model r \<noteq> []"
    by (auto simp: valid_bundle_def Let_def platform_key_of_def no_space)
  from assms(1) obtain s1 s2 s3 s4 s5 where
    e1: "each (apply_platform env now) (b_platforms b) (db, no_maps) = Inr s1"
    and e2: "each (apply_credential env now) (b_credentials b) (delete_stale_platforms s1) = Inr s2"
    and e3: "each collect_binding (b_bindings b) (delete_stale_credentials s2) = Inr s3"
    and e4: "each (apply_rapi now) (b_rapis b) s3 = Inr s4"
    and e5: "each (apply_lapi now) (b_lapis b) (delete_stale_rapis s4) = Inr s5"
    and e6: "each apply_order (b_orders b) (let (db, m) = delete_stale_lapis s5 in (db\<lparr>db_orders := []\<rparr>, m)) = Inr (db', m')"
    unfolding apply_rows_def and_then_Inr by blast
  have 1: "db_ok (fst s1) \<and> maps_ok (fst s1) (snd s1) \<and> am_rapi (snd s1) = Map.empty"
  proof (rule each_induct [OF e1])
    show "db_ok (fst (db, no_maps)) \<and> maps_ok (fst (db, no_maps)) (snd (db, no_maps)) \<and> am_rapi (snd (db, no_maps)) = Map.empty"
      using assms(2) by (simp add: maps_ok_def no_maps_def)
    fix p s t assume "p \<in> set (b_platforms b)" "db_ok (fst s) \<and> maps_ok (fst s) (snd s) \<and> am_rapi (snd s) = Map.empty"
      "apply_platform env now p s = Inr t"
    then show "db_ok (fst t) \<and> maps_ok (fst t) (snd t) \<and> am_rapi (snd t) = Map.empty"
      using apply_platform_ok [of env now p "fst s" "snd s" "fst t" "snd t"] urls by simp
  qed
  then have "base_ok (snd s1) (delete_stale_platforms s1)"
    using delete_platforms_ok [of "fst s1"] by (simp add: base_ok_def delete_stale_platforms_def split_beta db_ok_def)
  then have "base_ok (snd s1) s2"
    by (rule each_induct [OF e2]) (use apply_credential_ok in \<open>fastforce\<close>)
  then have "base_ok (snd s1) (delete_stale_credentials s2)"
    by (simp add: base_ok_def delete_stale_credentials_def split_beta delete_credentials_base)
  then have b3: "base_ok (snd s1) s3"
    by (rule each_induct [OF e3]) (auto simp: collect_binding_def base_ok_def Let_def split: option.splits)
  have "rapis_ok s3"
    using b3 1 maps_ok_inverse [of "fst s1" "snd s1"] inverse_maps_cong [of "snd s3" "snd s1"]
    by (auto simp: base_ok_def rapis_ok_def split_beta ok_ex_def shape_ex_def)
  then have "rapis_ok s4"
    by (rule each_induct [OF e4]) (use apply_rapi_ok models in \<open>metis prod.collapse\<close>)
  then have "db_ok (fst (delete_stale_rapis s4))" using delete_stale_rapis_ok by (metis prod.collapse)
  then have "db_ok (fst s5)"
    by (rule each_induct [OF e5]) (use apply_lapi_ok in \<open>metis prod.collapse\<close>)
  then have "db_ok (fst (let (db, m) = delete_stale_lapis s5 in (db\<lparr>db_orders := []\<rparr>, m)))"
    using orders_filter_ok [OF delete_lapis_ok, of "fst s5" "\<lambda>_. False"]
    by (simp add: delete_stale_lapis_def split_beta)
  then have "db_ok (fst (db', m'))"
    by (rule each_induct [OF e6]) (use apply_order_ok in \<open>metis prod.collapse\<close>)
  then show ?thesis by simp
qed

lemma apply_bundle_ok:
  "db_ok db \<Longrightarrow> apply_bundle env now e source_url db = Inr db' \<Longrightarrow> db_ok db'"
  by (auto simp: apply_bundle_def validate_def and_then_Inr validate_valid reset_health_ok apply_rows_ok
      split: option.splits if_splits)

end
