(* ===== verification/LocalRun.thy ===== *)
theory LocalRun
  imports ApplyInv
begin

text \<open>
  The local store as a state machine: every operation as a transaction on the database, and the runs of them.
  Whatever the operations and their arguments, the invariant of \<open>LocalDbInv\<close> holds after each.
\<close>

section \<open>Steps\<close>

datatype store_op =
    CreatePlatform platform
  | UpdatePlatform platform
  | DeletePlatform int
  | DeletePlatformCascade int
  | SetPlatformEnabled int bool
  | SetPlatformAvailable int bool
  | SetPlatformSortOrder "int list"
  | UpdatePlatformFormats int string bool string
  | CreateRapi rapi
  | UpdateRapi rapi
  | DeleteRapi int
  | DeleteRapiCascade int
  | SetRapiEnabled int bool
  | SetRapiAvailable int bool
  | SetRapiUnavailableWithReason int bool string
  | UpdateRapiFormats int string
  | UpdateRapiHeaders int string
  | SetRapiSortOrder "int list"
  | CreateLapi lapi
  | UpdateLapi lapi
  | DeleteLapi int
  | SetLapiEnabled int bool
  | SetLapiSortOrder "int list"
  | SetLapiRapiOrder int "int list"
  | EnsureDynamicPlatformKey int
  | SetPlatformKeys int "platform_key list"
  | AddPlatformKey platform_key
  | UpdatePlatformKey platform_key
  | DeletePlatformKey int
  | DetachKeyFromRapis int
  | DisableExpiredKeys
  | ReorderKeysByGlobalOrder "int list"
  | DisablePlatformKey int
  | MarkKeyPermanentFailure int string
  | MarkKeyTemporaryFailure int string
  | ClearKeyFailure int
  | BlockKeyForModel int int
  | UnblockKeyForModel int int
  | ClearKeyModelBlocksForKey int
  | RecordRequest int int
  | ApplyBundle "envelope option" string
  | RewindLastGoodVersion int

definition state_of :: "db_error + local_db \<times> 'a \<Rightarrow> db_error + local_db" where
  "state_of r = and_then r (\<lambda>(db, x). Inr db)"

fun store_result :: "db_env \<Rightarrow> instant \<Rightarrow> store_op \<Rightarrow> local_db \<Rightarrow> db_error + local_db" where
  "store_result env now (CreatePlatform p) db = state_of (create_platform env now p db)"
| "store_result env now (UpdatePlatform p) db = update_platform env now p db"
| "store_result env now (DeletePlatform i) db = delete_platform i db"
| "store_result env now (DeletePlatformCascade i) db = delete_platform_cascade i db"
| "store_result env now (SetPlatformEnabled i b) db = set_platform_enabled i b now db"
| "store_result env now (SetPlatformAvailable i b) db = set_platform_available i b now db"
| "store_result env now (SetPlatformSortOrder ids) db = set_platform_sort_order ids db"
| "store_result env now (UpdatePlatformFormats i f propagate e) db = update_platform_formats i f propagate e now db"
| "store_result env now (CreateRapi r) db = state_of (create_rapi now r db)"
| "store_result env now (UpdateRapi r) db = update_rapi now r db"
| "store_result env now (DeleteRapi i) db = delete_rapi i db"
| "store_result env now (DeleteRapiCascade i) db = delete_rapi_cascade i db"
| "store_result env now (SetRapiEnabled i b) db = set_rapi_enabled i b now db"
| "store_result env now (SetRapiAvailable i b) db = set_rapi_available i b now db"
| "store_result env now (SetRapiUnavailableWithReason i b s) db = set_rapi_unavailable_with_reason i b s now db"
| "store_result env now (UpdateRapiFormats i f) db = update_rapi_formats i f now db"
| "store_result env now (UpdateRapiHeaders i h) db = update_rapi_headers i h now db"
| "store_result env now (SetRapiSortOrder ids) db = set_rapi_sort_order ids db"
| "store_result env now (CreateLapi l) db = state_of (create_lapi now l db)"
| "store_result env now (UpdateLapi l) db = update_lapi l db"
| "store_result env now (DeleteLapi i) db = delete_lapi i db"
| "store_result env now (SetLapiEnabled i b) db = set_lapi_enabled i b db"
| "store_result env now (SetLapiSortOrder ids) db = set_lapi_sort_order ids db"
| "store_result env now (SetLapiRapiOrder i chain) db = set_lapi_rapi_order i chain db"
| "store_result env now (EnsureDynamicPlatformKey i) db = state_of (ensure_dynamic_platform_key i now db)"
| "store_result env now (SetPlatformKeys i ks) db = set_platform_keys env now i ks db"
| "store_result env now (AddPlatformKey k) db = state_of (add_platform_key env now k db)"
| "store_result env now (UpdatePlatformKey k) db = update_platform_key env now k db"
| "store_result env now (DeletePlatformKey i) db = delete_platform_key i db"
| "store_result env now (DetachKeyFromRapis i) db = fst (detach_key_from_rapis i db)"
| "store_result env now DisableExpiredKeys db = Inr (fst (disable_expired_keys now db))"
| "store_result env now (ReorderKeysByGlobalOrder ids) db = reorder_keys_by_global_order ids db"
| "store_result env now (DisablePlatformKey i) db = disable_platform_key i now db"
| "store_result env now (MarkKeyPermanentFailure i s) db = store_key_permanent_failure i s now db"
| "store_result env now (MarkKeyTemporaryFailure i s) db = store_key_temporary_failure i s now db"
| "store_result env now (ClearKeyFailure i) db = clear_key_failure i now db"
| "store_result env now (BlockKeyForModel k r) db = store_block_key k r db"
| "store_result env now (UnblockKeyForModel k r) db = Inr (store_unblock_key k r db)"
| "store_result env now (ClearKeyModelBlocksForKey k) db = Inr (store_clear_blocks k db)"
| "store_result env now (RecordRequest r l) db = store_record_request r l db"
| "store_result env now (ApplyBundle e url) db = apply_bundle env now e url db"
| "store_result env now (RewindLastGoodVersion v) db = Inr (rewind_last_good_version v db)"

definition store_step :: "db_env \<Rightarrow> instant \<times> store_op \<Rightarrow> local_db \<Rightarrow> db_error option \<times> local_db" where
  "store_step env step = transact (store_result env (fst step) (snd step))"

definition store_run :: "db_env \<Rightarrow> (instant \<times> store_op) list \<Rightarrow> local_db \<Rightarrow> local_db" where
  "store_run env steps db = fold (\<lambda>s db. snd (store_step env s db)) steps db"

section \<open>Each operation keeps the invariant\<close>

lemma state_of_Inr: "state_of r = Inr db \<longleftrightarrow> (\<exists>x. r = Inr (db, x))"
  by (auto simp: state_of_def and_then_Inr)

lemma enumerate_each_ok:
  assumes "each (\<lambda>(n, i). g n i) (enumerate 0 xs) db = Inr db'" and "db_ok db"
    and "\<And>n i db db'. db_ok db \<Longrightarrow> g n i db = Inr db' \<Longrightarrow> db_ok db'"
  shows "db_ok db'"
  by (rule each_induct [where I = db_ok, OF assms(1,2)]) (use assms(3) in \<open>auto split: prod.splits\<close>)

lemma platform_ops_ok:
  assumes "db_ok db"
  shows "create_platform env now p db = Inr (db', i) \<Longrightarrow> db_ok db'"
    and "update_platform env now p db = Inr db' \<Longrightarrow> db_ok db'"
    and "delete_platform j db = Inr db' \<Longrightarrow> db_ok db'"
    and "set_platform_enabled j b now db = Inr db' \<Longrightarrow> db_ok db'"
    and "set_platform_available j b now db = Inr db' \<Longrightarrow> db_ok db'"
    and "set_platform_sort_order ids db = Inr db' \<Longrightarrow> db_ok db'"
  subgoal using assms by (auto simp: create_platform_def Let_def and_then_Inr split: if_splits intro: insert_platform_ok)
  subgoal using assms by (auto simp: update_platform_def Let_def and_then_Inr split: if_splits elim!: write_db_ok)
  subgoal using assms by (auto simp: delete_platform_def Let_def delete_platforms_ok split: if_splits)
  subgoal using assms by (auto simp: set_platform_enabled_def elim!: write_db_ok)
  subgoal using assms by (auto simp: set_platform_available_def elim!: write_db_ok)
  subgoal using assms unfolding set_platform_sort_order_def
    by (elim enumerate_each_ok) (auto elim!: write_db_ok)
  done

lemma write_rapis_db_ok:
  "checked (db\<lparr>db_rapis := update_where p f (db_rapis db)\<rparr>) = Inr db' \<Longrightarrow> db_ok db \<Longrightarrow>
   (\<And>x. xr_id (f x) = xr_id x \<and> xr_platform_id (f x) = xr_platform_id x \<and> xr_key_ids (f x) = xr_key_ids x) \<Longrightarrow> db_ok db'"
  unfolding db_ok_ex by (erule write_rapis_ok)

lemma update_platform_formats_ok:
  assumes "db_ok db" and "update_platform_formats i f propagate e now db = Inr db'"
  shows "db_ok db'"
proof -
  obtain d where w: "(if e \<noteq> []
        then write_platform i (\<lambda>p. p\<lparr>xp_supported_formats := f, xp_format_endpoints := e, xp_updated_at := now\<rparr>) db
        else write_platform i (\<lambda>p. p\<lparr>xp_supported_formats := f, xp_updated_at := now\<rparr>) db) = Inr d"
    and r: "db' = d \<or> checked (d\<lparr>db_rapis := update_where (\<lambda>r. xr_platform_id r = i)
      (\<lambda>r. r\<lparr>xr_supported_formats := f, xr_updated_at := now\<rparr>) (db_rapis d)\<rparr>) = Inr db'"
    using assms(2) unfolding update_platform_formats_def and_then_Inr by (auto split: if_splits)
  have "db_ok d" using w assms(1) by (cases "e = []") (auto elim!: write_db_ok(1))
  then show ?thesis using r by (auto elim!: write_rapis_db_ok)
qed

lemma delete_platform_cascade_ok: "db_ok db \<Longrightarrow> delete_platform_cascade i db = Inr db' \<Longrightarrow> db_ok db'"
proof -
  assume "db_ok db" and d: "delete_platform_cascade i db = Inr db'"
  define d2 where "d2 = (let gone = map xr_id (filter (\<lambda>r. xr_platform_id r = i) (db_rapis db));
          db = db\<lparr>db_orders := filter (\<lambda>x. xo_rapi_id x \<notin> set gone) (db_orders db)\<rparr>
        in db\<lparr>db_metrics := filter (\<lambda>(r, l). r \<notin> set gone) (db_metrics db)\<rparr>)"
  let ?d3 = "delete_rapis (\<lambda>r. xr_platform_id r = i) d2"
  let ?d4 = "delete_credentials (\<lambda>c. xc_platform_id c = i) ?d3"
  have "db_ok d2" using \<open>db_ok db\<close> by (simp add: d2_def Let_def orders_filter_ok)
  then have "ok_ex (\<lambda>_. False) (\<lambda>_ _. False) ?d3" by (simp add: db_ok_ex delete_rapis_ok)
  from delete_credentials_ok [OF this, of "\<lambda>c. xc_platform_id c = i"]
  have "db_ok ?d4"
    unfolding db_ok_ex by (rule ok_weaken) (auto simp: rapi_keys_def delete_credentials_def delete_rapis_def Let_def)
  then show ?thesis using d by (auto simp: delete_platform_cascade_def d2_def Let_def delete_platforms_ok)
qed

lemma update_rapi_ok:
  assumes "db_ok db" and "update_rapi now r db = Inr db'"
  shows "db_ok db'"
proof -
  let ?i = "ra_id r"
  obtain d where d: "write_rapi ?i (rapi_columns now r) db = Inr d" "sync_bindings ?i (ra_platform_id r) (ra_key_ids r) d = Inr db'"
    using assms(2) by (auto simp: update_rapi_def and_then_Inr)
  then have eq: "d = db\<lparr>db_rapis := update_where (\<lambda>x. xr_id x = ?i) (rapi_columns now r) (db_rapis db)\<rparr>"
    and c: "constraints d" by (auto simp: write_rapi_def checked_Inr)
  have keys: "rapi_keys d = map (\<lambda>(i, q, k). (i, if i = ?i then ra_platform_id r else q, k)) (rapi_keys db)"
    by (simp add: eq rapi_keys_def update_where_def rapi_columns_def)
  have "ids_ok d = ids_ok db" "bindings_of i d = bindings_of i db" "cred_homes d = cred_homes db" for i
    by (simp_all add: eq ids_ok_def platform_ids_def credential_ids_def rapi_ids_def lapi_ids_def bindings_of_def
        cred_homes_def update_where_map rapi_columns_def)
  then have "ok_ex (\<lambda>j. j = ?i) (\<lambda>j _. j = ?i) d"
    using assms(1) c unfolding db_ok_def ok_ex_def shape_ex_def keys scoped_at_def derived_at_def bound_ids_of by auto
  then show ?thesis by (rule sync_bindings_ok [OF d(2)]) (auto simp: keys split: if_splits)
qed

lemma rapi_ops_ok:
  assumes "db_ok db"
  shows "create_rapi now r db = Inr (db', i) \<Longrightarrow> db_ok db'"
    and "delete_rapi j db = Inr db' \<Longrightarrow> db_ok db'"
    and "delete_rapi_cascade j db = Inr db' \<Longrightarrow> db_ok db'"
    and "set_rapi_enabled j b now db = Inr db' \<Longrightarrow> db_ok db'"
    and "set_rapi_available j b now db = Inr db' \<Longrightarrow> db_ok db'"
    and "set_rapi_unavailable_with_reason j b s now db = Inr db' \<Longrightarrow> db_ok db'"
    and "update_rapi_formats j s now db = Inr db' \<Longrightarrow> db_ok db'"
    and "update_rapi_headers j s now db = Inr db' \<Longrightarrow> db_ok db'"
    and "set_rapi_sort_order ids db = Inr db' \<Longrightarrow> db_ok db'"
  subgoal premises c
  proof -
    from c obtain d row where d: "insert_rapi row db = Inr (d, i)" "xr_platform_id row = ra_platform_id r"
      "sync_bindings i (ra_platform_id r) (ra_key_ids r) d = Inr db'"
      unfolding create_rapi_def and_then_Inr by (auto simp: and_then_Inr)
    show ?thesis
      by (rule sync_bindings_ok [OF d(3)])
        (use insert_rapi_ok [OF d(1) assms [unfolded db_ok_ex]] d(2) in \<open>auto elim: ok_weaken\<close>)
  qed
  subgoal using assms by (auto simp: delete_rapi_def Let_def db_ok_ex delete_rapis_ok split: if_splits)
  subgoal using assms orders_filter_ok [OF assms]
    by (auto simp: delete_rapi_cascade_def Let_def db_ok_ex [symmetric] intro!: delete_rapis_ok [of "\<lambda>_. False" "\<lambda>_ _. False", folded db_ok_ex])
  subgoal using assms by (auto simp: set_rapi_enabled_def elim!: write_db_ok)
  subgoal using assms by (auto simp: set_rapi_available_def elim!: write_db_ok)
  subgoal using assms by (auto simp: set_rapi_unavailable_with_reason_def elim!: write_db_ok)
  subgoal using assms by (auto simp: update_rapi_formats_def elim!: write_db_ok)
  subgoal using assms by (auto simp: update_rapi_headers_def elim!: write_db_ok)
  subgoal using assms unfolding set_rapi_sort_order_def
    by (elim enumerate_each_ok) (auto elim!: write_db_ok)
  done

lemma lapi_ops_ok:
  assumes "db_ok db"
  shows "update_lapi l db = Inr db' \<Longrightarrow> db_ok db'"
    and "delete_lapi i db = Inr db' \<Longrightarrow> db_ok db'"
    and "set_lapi_enabled i b db = Inr db' \<Longrightarrow> db_ok db'"
    and "set_lapi_sort_order ids db = Inr db' \<Longrightarrow> db_ok db'"
    and "set_lapi_rapi_order i chain db = Inr db' \<Longrightarrow> db_ok db'"
  subgoal using assms by (auto simp: update_lapi_def elim!: write_db_ok)
  subgoal using orders_filter_ok [OF assms] by (auto simp: delete_lapi_def Let_def intro!: delete_lapis_ok)
  subgoal using assms by (auto simp: set_lapi_enabled_def elim!: write_db_ok)
  subgoal using assms unfolding set_lapi_sort_order_def
    by (elim enumerate_each_ok) (auto elim!: write_db_ok)
  subgoal using orders_filter_ok [OF assms] unfolding set_lapi_rapi_order_def
    by (elim enumerate_each_ok) (simp_all add: insert_order_ok)
  done

lemma write_credential_homes:
  "write_credential i f db = Inr db' \<Longrightarrow> (\<And>x. xc_id (f x) = xc_id x \<and> xc_platform_id (f x) = xc_platform_id x) \<Longrightarrow>
   cred_homes db' = cred_homes db"
  by (auto simp: write_credential_def checked_Inr cred_homes_def update_where_map)

text \<open>A new key of a platform, bound to its endpoints.\<close>

lemma insert_and_bind_ok:
  assumes "ok_ex (\<lambda>_. False) (\<lambda>_ q. q = p) db" and "insert_credential row db = Inr (d, i)" and "xc_platform_id row = p"
    and "bind_credential_to_platform p i d = Inr d'"
  shows "ok_ex (\<lambda>_. False) (\<lambda>_ q. q = p) d'" "set (cred_homes db) \<subseteq> set (cred_homes d')"
  using insert_credential_ok [OF assms(2,1)] bind_platform_ok [OF assms(4)] assms(3) by simp_all

lemma set_platform_key_ok:
  assumes "set_platform_key env now p exist nk (db, keep) = Inr (db', keep')" and "ok_ex (\<lambda>_. False) (\<lambda>_ q. q = p) db"
  shows "ok_ex (\<lambda>_. False) (\<lambda>_ q. q = p) db' \<and> set (cred_homes db) \<subseteq> set (cred_homes db')"
proof -
  obtain n k where nk: "nk = (n, k)" by (cases nk)
  from assms(1) obtain token where step: "(if pk_id k > 0 \<and> pk_id k \<in> set exist
        then and_then (wrap_cred_err (write_credential (pk_id k)
               (\<lambda>c. (key_columns env now k token c)\<lparr>xc_sort_order := int n\<rparr>) db)) (\<lambda>db. Inr (db, keep @ [pk_id k]))
        else and_then (wrap_cred_err (insert_credential (key_row env now p k token (int n)) db)) (\<lambda>(db, i).
               and_then (bind_credential_to_platform p i db) (\<lambda>db. Inr (db, keep @ [i])))) = Inr (db', keep')"
    unfolding set_platform_key_def nk Let_def by (auto simp: and_then_Inr)
  show ?thesis
  proof (cases "pk_id k > 0 \<and> pk_id k \<in> set exist")
    case True
    then have w: "write_credential (pk_id k) (\<lambda>c. (key_columns env now k token c)\<lparr>xc_sort_order := int n\<rparr>) db = Inr db'"
      using step by (auto simp: and_then_Inr)
    show ?thesis
      using write_credential_ok [OF w assms(2)] write_credential_homes [OF w] by (simp add: key_columns_def)
  next
    case False
    then obtain d i where i: "insert_credential (key_row env now p k token (int n)) db = Inr (d, i)"
      "bind_credential_to_platform p i d = Inr db'" using step by (auto simp: and_then_Inr)
    show ?thesis using insert_and_bind_ok [OF assms(2) i(1) _ i(2)] by (simp add: key_row_def)
  qed
qed

lemma set_platform_keys_ok:
  assumes "db_ok db" and "set_platform_keys env now p ks db = Inr db'"
  shows "db_ok db'"
proof -
  let ?exist = "platform_credentials p db"
  let ?I = "\<lambda>a. ok_ex (\<lambda>_. False) (\<lambda>_ q. q = p) (fst a) \<and> set (cred_homes db) \<subseteq> set (cred_homes (fst a))"
  obtain d keep where d: "each (set_platform_key env now p ?exist) (enumerate 0 ks) (db, []) = Inr (d, keep)"
    and db': "db' = refresh_key_ids_for_platform p (delete_credentials (\<lambda>c. xc_id c \<in> set ?exist \<and> xc_id c \<notin> set keep) d)"
    using assms(2) by (auto simp: set_platform_keys_def Let_def and_then_Inr)
  have "?I (d, keep)"
  proof (rule each_induct [OF d])
    show "?I (db, [])" using assms(1) by (simp add: db_ok_weaken)
    fix x a a' assume "?I a" "set_platform_key env now p ?exist x a = Inr a'"
    then show "?I a'" using set_platform_key_ok [of env now p ?exist x "fst a" "snd a" "fst a'" "snd a'"] by auto
  qed
  then have ok: "ok_ex (\<lambda>_. False) (\<lambda>_ q. q = p) d" and homes: "set (cred_homes db) \<subseteq> set (cred_homes d)" by simp_all
  have ids: "ids_ok d" using ok by (simp add: ok_ex_def shape_ex_def)
  have home: "xc_platform_id c = p" if "c \<in> set (db_credentials d)" "xc_id c \<in> set ?exist" for c
  proof (rule cred_home_unique [OF ids])
    show "(xc_id c, xc_platform_id c) \<in> set (cred_homes d)" using that(1) by (auto simp: cred_home_row)
    show "(xc_id c, p) \<in> set (cred_homes d)" using homes that(2) by (auto simp: platform_credentials_home)
  qed
  show ?thesis
    unfolding db' refresh_key_ids_for_platform_def
    by (rule refresh_db_ok [OF delete_credentials_ok [OF ok], where Q = "\<lambda>_ q. q = p"]) (use home in auto)
qed

lemma credential_ops_ok:
  assumes "db_ok db"
  shows "ensure_dynamic_platform_key j now db = Inr (db', i) \<Longrightarrow> db_ok db'"
    and "add_platform_key env now k db = Inr (db', i) \<Longrightarrow> db_ok db'"
    and "update_platform_key env now k db = Inr db' \<Longrightarrow> db_ok db'"
    and "delete_platform_key j db = Inr db' \<Longrightarrow> db_ok db'"
    and "disable_platform_key j now db = Inr db' \<Longrightarrow> db_ok db'"
    and "store_key_failure t j s now db = Inr db' \<Longrightarrow> db_ok db'"
    and "clear_key_failure j now db = Inr db' \<Longrightarrow> db_ok db'"
  subgoal using assms
    by (auto simp: ensure_dynamic_platform_key_def Let_def and_then_Inr db_ok_ex split: if_splits option.splits
        dest: insert_credential_ok(1))
  subgoal premises a
  proof -
    from a obtain token d d' where d: "insert_credential (key_row env now (pk_platform_id k) k token
        (next_sort_order (pk_platform_id k) db)) db = Inr (d, i)" "bind_credential_to_platform (pk_platform_id k) i d = Inr d'"
      "db' = refresh_key_ids_for_platform (pk_platform_id k) d'"
      unfolding add_platform_key_def by (auto simp: and_then_Inr)
    show ?thesis
      unfolding d(3) refresh_key_ids_for_platform_def
      by (rule refresh_db_ok [OF insert_and_bind_ok(1) [OF db_ok_weaken [OF assms] d(1) _ d(2)], where Q = "\<lambda>_ q. q = pk_platform_id k"])
        (simp_all add: key_row_def)
  qed
  subgoal using assms by (auto simp: update_platform_key_def and_then_Inr key_columns_def elim!: write_db_ok)
  subgoal premises a
  proof -
    from a obtain c where c: "find (\<lambda>c. xc_id c = j) (db_credentials db) = Some c"
      and db': "db' = refresh_key_ids_for_platform (xc_platform_id c) (delete_credentials (\<lambda>c. xc_id c = j) db)"
      by (auto simp: delete_platform_key_def split: option.splits)
    have m: "c \<in> set (db_credentials db)" "xc_id c = j" using c by (auto simp: find_Some_iff)
    have "x = c" if "x \<in> set (db_credentials db)" "xc_id x = j" for x
      using credential_row_unique [of db x c] assms that m by (simp add: db_ok_def)
    then show ?thesis
      unfolding db' refresh_key_ids_for_platform_def
      by (intro refresh_db_ok [OF delete_credentials_ok [OF assms [unfolded db_ok_ex]], where Q = "\<lambda>_ q. q = xc_platform_id c"]) auto
  qed
  subgoal using assms by (auto simp: disable_platform_key_def elim!: write_db_ok)
  subgoal using assms by (auto simp: store_key_failure_def elim!: write_db_ok)
  subgoal using assms by (auto simp: clear_key_failure_def elim!: write_db_ok)
  done

lemma detach_ok: "db_ok db \<Longrightarrow> fst (detach_key_from_rapis i db) = Inr db' \<Longrightarrow> db_ok db'"
proof -
  assume ok: "db_ok db" and d: "fst (detach_key_from_rapis i db) = Inr db'"
  let ?hit = "\<lambda>j. (j, i) \<in> set (map (\<lambda>b. (xb_rapi_id b, xb_credential_id b)) (db_bindings db))"
  let ?d = "db\<lparr>db_bindings := filter (\<lambda>b. xb_credential_id b \<noteq> i) (db_bindings db)\<rparr>"
  have "ok_ex (\<lambda>_. False) (\<lambda>j q. False \<or> ?hit j) ?d"
    by (rule bindings_filter_ok [OF ok [unfolded db_ok_ex]]) force
  then have "db_ok (refresh_key_ids (map xr_id (filter (\<lambda>r. ?hit (xr_id r)) (db_rapis db))) ?d)"
    unfolding refresh_key_ids_def
    by (rule refresh_db_ok [where Q = "\<lambda>j _. j \<in> xr_id ` {r \<in> set (db_rapis db). ?hit (xr_id r)}"])
      (fastforce simp: rapi_keys_row image_iff)+
  then show ?thesis using ok d by (auto simp: detach_key_from_rapis_def Let_def split: if_splits)
qed

lemma reorder_ok: "db_ok db \<Longrightarrow> reorder_keys_by_global_order ids db = Inr db' \<Longrightarrow> db_ok db'"
  unfolding reorder_keys_by_global_order_def
  by (erule each_induct [where I = db_ok], assumption, erule (1) enumerate_each_ok) (auto elim!: write_db_ok)

lemma disable_expired_ok: "db_ok db \<Longrightarrow> db_ok (fst (disable_expired_keys now db))"
proof -
  assume ok: "db_ok db"
  let ?db = "fst (disable_expired_keys now db)"
  obtain p where db': "?db = db\<lparr>db_credentials := update_where p (\<lambda>c. c\<lparr>xc_enabled := False, xc_updated_at := now\<rparr>) (db_credentials db)\<rparr>"
    by (simp add: disable_expired_keys_def Let_def)
  have ids: "credential_ids ?db = credential_ids db" by (simp add: db' credential_ids_def update_where_map)
  have "List.map_filter xc_token_hash (update_where q (\<lambda>c. c\<lparr>xc_enabled := False, xc_updated_at := now\<rparr>) cs) =
      List.map_filter xc_token_hash cs" for q cs
    by (induction cs) (simp_all add: update_where_def map_filter_simps split: option.splits)
  note tokens = this
  have "(\<forall>c \<in> set (update_where p (\<lambda>c. c\<lparr>xc_enabled := False, xc_updated_at := now\<rparr>) cs). xc_platform_id c \<in> S) \<longleftrightarrow>
      (\<forall>c \<in> set cs. xc_platform_id c \<in> S)" for S cs
    by (induction cs) (simp_all add: update_where_def)
  then have "references_ok ?db = references_ok db"
    unfolding references_ok_def by (simp add: db' ids [unfolded db'] platform_ids_def rapi_ids_def lapi_ids_def)
  then have "constraints ?db"
    using ok by (simp add: db_ok_def constraints_def unique_platforms_def unique_credentials_def unique_rapis_def
        unique_lapis_def unique_bindings_def unique_orders_def db' tokens)
  moreover have "shape_ex S D ?db = shape_ex S D db" for S D
    by (rule shape_cong)
      (simp_all add: db' platform_ids_def cred_homes_def rapi_keys_def lapi_ids_def update_where_map)
  ultimately show ?thesis using ok by (simp add: db_ok_ex ok_ex_def)
qed

lemma pair_ops_ok:
  assumes "db_ok db"
  shows "store_block_key k r db = Inr db' \<Longrightarrow> db_ok db'" and "store_record_request r l db = Inr db' \<Longrightarrow> db_ok db'"
    and "db_ok (store_unblock_key k r db)" and "db_ok (store_clear_blocks k db)" and "db_ok (rewind_last_good_version v db)"
  using assms by (auto simp: store_block_key_def store_record_request_def store_unblock_key_def store_clear_blocks_def
      rewind_last_good_version_def split: if_splits)

section \<open>Runs\<close>

lemmas op_ok = platform_ops_ok delete_platform_cascade_ok update_platform_formats_ok update_rapi_ok rapi_ops_ok lapi_ops_ok
  insert_lapi_ok [rotated] set_platform_keys_ok credential_ops_ok detach_ok reorder_ok pair_ops_ok(1,2) apply_bundle_ok

lemma store_result_ok: "db_ok db \<Longrightarrow> store_result env now op db = Inr db' \<Longrightarrow> db_ok db'"
  by (cases op; simp only: store_result.simps state_of_Inr create_lapi_def store_key_permanent_failure_def store_key_temporary_failure_def;
      (elim exE)?; ((erule (1) op_ok) | (auto simp: disable_expired_ok pair_ops_ok(3-5))))

lemma store_step_ok: "db_ok db \<Longrightarrow> db_ok (snd (store_step env s db))"
  by (auto simp: store_step_def transact_def store_result_ok split: sum.splits)

lemma empty_db_ok: "db_ok empty_db"
  by (simp add: db_ok_def empty_db_def constraints_def unique_platforms_def unique_credentials_def unique_rapis_def
      unique_lapis_def unique_bindings_def unique_orders_def references_ok_def ids_ok_def platform_ids_def credential_ids_def
      rapi_ids_def lapi_ids_def rapi_keys_def map_filter_simps)

text \<open>C36: Whatever sequence of writes runs on a new database, each successful or failed, the configuration, the marks
  of the keys, the blocks and metrics and the snapshots of the centre included, at every moment the unique indexes
  hold, and so do the foreign keys of credentials, endpoints, bindings and chains; an endpoint is bound to credentials of
  its own platform only; and the column \<open>key_ids\<close> of each endpoint, from which the gateway draws the keys,
  lists exactly the credentials bound to it. The writes are those of \<open>store_op\<close>: the migrations at start are
  not among them, and tables that hold none of this (token cache, trends, settings, logs, probe results) are not modelled.\<close>

theorem store_run_ok: "db_ok (store_run env steps empty_db)"
proof -
  have "db_ok (fold (\<lambda>s db. snd (store_step env s db)) steps db)" if "db_ok db" for db
    using that by (induction steps arbitrary: db) (simp_all add: store_step_ok)
  then show ?thesis using empty_db_ok by (simp add: store_run_def)
qed

end
