(* ===== verification/KeyIds.thy ===== *)
theory KeyIds
  imports LocalRun KeyPool
begin

text \<open>
  The column \<open>key_ids\<close> as it is read back: by the local store, \<open>parse_id_csv\<close>, and by the gateway,
  \<open>filter_keys_by_key_ids\<close>. The numbers written come back as they are, but the column of an endpoint without
  bindings is the empty text, which the gateway takes for no restriction.
\<close>

section \<open>Numbers in a comma-separated text\<close>

lemma nat_str_nonempty [simp]: "nat_str n \<noteq> []"
  by (subst nat_str.simps) simp

lemma digits_value_snoc:
  "digits_value (s @ [c]) n = (case digits_value s n of None \<Rightarrow> None | Some m \<Rightarrow> digits_value [c] m)"
  by (induction s arbitrary: n) (simp_all add: Let_def)

lemma digits_value_nat_str: "digits_value (nat_str n) 0 = Some (int n)"
proof (induction n rule: nat_str.induct)
  case (1 n)
  show ?case
  proof (cases "n < 10")
    case True
    then show ?thesis by (subst nat_str.simps) (simp add: of_char_of)
  next
    case False
    then have "digits_value (nat_str n) 0 = digits_value [char_of (48 + n mod 10)] (int (n div 10))"
      using 1 by (subst nat_str.simps) (simp add: digits_value_snoc del: digits_value.simps)
    also have "\<dots> = Some (int n)"
    proof -
      have "10 * int (n div 10) + int (n mod 10) = int n" by presburger
      moreover have "int (n mod 10) \<le> 9" by (simp add: zmod_int)
      ultimately show ?thesis by (simp add: of_char_of Let_def)
    qed
    finally show ?thesis .
  qed
qed

abbreviation digits :: string where "digits \<equiv> ''0123456789''"

lemma digit_char: "m < 10 \<Longrightarrow> char_of (48 + m) \<in> set digits" for m :: nat
proof -
  assume "m < 10"
  then have "m \<in> {0, 1, 2, 3, 4, 5, 6, 7, 8, 9}" by auto
  then show ?thesis by (elim insertE emptyE) (simp_all, code_simp+)
qed

lemma nat_str_digits: "set (nat_str n) \<subseteq> set digits"
proof (induction n rule: nat_str.induct)
  case (1 n)
  show ?case
  proof (cases "n < 10")
    case True then show ?thesis using digit_char [of n] by (subst nat_str.simps) simp
  next
    case False
    then have eq: "set (nat_str n) = insert (char_of (48 + n mod 10)) (set (nat_str (n div 10)))"
      by (subst nat_str.simps) simp
    show ?thesis unfolding eq by (rule insert_subsetI [OF digit_char 1 [OF False]]) simp
  qed
qed

lemma int_str_chars: "set (int_str i) \<subseteq> insert CHR ''-'' (set digits)"
proof (cases "i < 0")
  case True
  then have "set (int_str i) = insert CHR ''-'' (set (nat_str (nat (- i))))" by (simp add: int_str_def)
  then show ?thesis using nat_str_digits [of "nat (- i)"] by (simp only: insert_mono)
next
  case False
  then have "set (int_str i) = set (nat_str (nat i))" by (simp add: int_str_def)
  then show ?thesis using subset_insertI2 [OF nat_str_digits [of "nat i"]] by (simp only:)
qed

lemma split_words:
  assumes "ws \<noteq> []" and "\<And>w. w \<in> set ws \<Longrightarrow> c \<notin> set w"
  shows "split_on c (join_with [c] ws) = ws"
proof -
  have word: "split_on c w = [w]" if "c \<notin> set w" for w using that by (induction w) auto
  have first: "split_on c (w @ c # s) = w # split_on c s" if "c \<notin> set w" for w s using that by (induction w) auto
  show ?thesis using assms
  proof (induction "[c]" ws rule: join_with.induct)
    case (2 s) then show ?case by (simp add: word)
  next
    case (3 s t ss)
    then show ?case using first [of s "join_with [c] (t # ss)"] by simp
  qed simp
qed

lemma solid_digit: "ch \<in> insert CHR ''-'' (set digits) \<Longrightarrow> ch \<notin> \<Union> (set ` set space_runes)"
  using solid_chars by fastforce

lemma int_str_nonempty [simp]: "int_str i \<noteq> []"
  by (simp add: int_str_def)

lemma trim_int_str [simp]: "trim_space (int_str i) = int_str i"
proof (rule trim_space_plain)
  show "hd (int_str i) \<notin> \<Union> (set ` set space_runes)"
    using subsetD [OF int_str_chars hd_in_set [OF int_str_nonempty]] by (rule solid_digit)
  show "last (int_str i) \<notin> \<Union> (set ` set space_runes)"
    using subsetD [OF int_str_chars last_in_set [OF int_str_nonempty]] by (rule solid_digit)
qed simp

lemma nat_str_hd: "\<exists>c s. nat_str n = c # s \<and> c \<noteq> CHR ''-'' \<and> c \<noteq> CHR ''+''"
proof (cases "nat_str n")
  case (Cons c s)
  then have "c \<in> set digits" using subsetD [OF nat_str_digits [of n], of c] by simp
  then show ?thesis using Cons by auto
qed simp

lemma atoi_int_str: "in_int64 i \<Longrightarrow> atoi (int_str i) = Some i"
proof (cases "i < 0")
  case True
  assume "in_int64 i"
  then show ?thesis
    using True by (simp add: atoi_def int_str_def digits_value_nat_str Let_def)
next
  case False
  assume "in_int64 i"
  moreover obtain c s where "nat_str (nat i) = c # s" "c \<noteq> CHR ''-''" "c \<noteq> CHR ''+''"
    using nat_str_hd by blast
  ultimately show ?thesis
    using False digits_value_nat_str [of "nat i"] by (simp add: atoi_def int_str_def Let_def)
qed

lemma takeWhile_digits: "set s \<subseteq> set digits \<Longrightarrow> takeWhile (\<lambda>c. CHR ''0'' \<le> c \<and> c \<le> CHR ''9'') s = s"
proof -
  have "\<forall>c \<in> set digits. CHR ''0'' \<le> c \<and> c \<le> CHR ''9''" by code_simp
  then show "set s \<subseteq> set digits \<Longrightarrow> ?thesis" by (intro iffD2 [OF takeWhile_eq_all_conv]) blast
qed

lemma scan_int_str: "in_int64 i \<Longrightarrow> scan_int (int_str i) = Some i"
proof (cases "i < 0")
  case True
  assume "in_int64 i"
  then show ?thesis
    using True takeWhile_digits [OF nat_str_digits [of "nat (- i)"]]
    by (simp add: scan_int_def int_str_def digits_value_nat_str Let_def del: takeWhile_eq_all_conv)
next
  case False
  assume "in_int64 i"
  moreover obtain c s where "nat_str (nat i) = c # s" "c \<noteq> CHR ''-''" "c \<noteq> CHR ''+''"
    using nat_str_hd by blast
  ultimately show ?thesis
    using False digits_value_nat_str [of "nat i"] takeWhile_digits [OF nat_str_digits [of "nat i"]]
    by (simp add: scan_int_def int_str_def Let_def del: takeWhile.simps takeWhile_eq_all_conv)
qed

lemma split_id_csv: "ids \<noteq> [] \<Longrightarrow> split_on CHR '','' (id_csv ids) = map int_str ids"
  unfolding id_csv_def
proof (rule split_words)
  fix w assume "w \<in> set (map int_str ids)"
  then obtain i where "w = int_str i" by auto
  then show "CHR '','' \<notin> set w" using subsetD [OF int_str_chars [of i], of "CHR '',''"] by auto
qed simp

lemma map_filter_int_str:
  assumes "\<And>i. i \<in> set ids \<Longrightarrow> f (int_str i) = Some i"
  shows "List.map_filter (\<lambda>p. let p = trim_space p in if p = [] then None else f p) (map int_str ids) = ids"
  using assms by (induction ids) (simp_all add: map_filter_simps Let_def)

lemma parse_id_csv_back: "\<forall>i \<in> set ids. in_int64 i \<Longrightarrow> parse_id_csv (id_csv ids) = ids"
proof (cases "ids = []")
  case True
  moreover have "trim_space [] = []" by (simp add: trim_space_def trim_front.simps)
  ultimately show ?thesis by (simp add: parse_id_csv_def id_csv_def map_filter_simps Let_def)
next
  case False
  then show "\<forall>i \<in> set ids. in_int64 i \<Longrightarrow> ?thesis"
    unfolding parse_id_csv_def split_id_csv [OF False] by (intro map_filter_int_str scan_int_str) simp
qed

lemma id_csv_solid:
  assumes "ids \<noteq> []" shows "trim_space (id_csv ids) = id_csv ids" "id_csv ids \<noteq> []"
proof -
  have ends: "id_csv ids \<noteq> [] \<and> hd (id_csv ids) \<in> insert CHR ''-'' (set digits) \<and>
      last (id_csv ids) \<in> insert CHR ''-'' (set digits)"
    using assms
  proof (induction ids)
    case (Cons i ids)
    note hd = subsetD [OF int_str_chars hd_in_set [OF int_str_nonempty], of i]
      and last = subsetD [OF int_str_chars last_in_set [OF int_str_nonempty], of i]
    show ?case
    proof (cases ids)
      case Nil
      then show ?thesis using hd last by (simp add: id_csv_def)
    next
      case (Cons j js)
      then have "id_csv (i # ids) = int_str i @ CHR '','' # id_csv ids" by (simp add: id_csv_def)
      then show ?thesis using Cons.IH hd Cons by simp
    qed
  qed simp
  then show "id_csv ids \<noteq> []" by simp
  from ends show "trim_space (id_csv ids) = id_csv ids"
    by (intro trim_space_plain) (use solid_digit in blast)+
qed

lemma filter_keys_back:
  assumes "\<forall>i \<in> set ids. in_int64 i" and "ids \<noteq> []"
  shows "filter_keys_by_key_ids keys (id_csv ids) = filter (\<lambda>k. pk_id k \<in> set ids) keys"
proof -
  have "allowed_ids (id_csv ids) = ids"
    unfolding allowed_ids_def split_id_csv [OF assms(2)]
    by (intro map_filter_int_str atoi_int_str) (use assms(1) in simp)
  then show ?thesis using id_csv_solid [OF assms(2)] assms(2) by (simp add: filter_keys_by_key_ids_def Let_def)
qed

section \<open>What the gateway reads\<close>

text \<open>C39: the column \<open>key_ids\<close> written for a list of credentials is read back as that list by the local
  store, and by the gateway as the keys of these credentials in their order, save that the empty list is read as
  every key.\<close>

theorem key_ids_read_back:
  assumes "\<forall>i \<in> set ids. in_int64 i"
  shows "parse_id_csv (id_csv ids) = ids \<and>
    filter_keys_by_key_ids keys (id_csv ids) = (if ids = [] then keys else filter (\<lambda>k. pk_id k \<in> set ids) keys)"
proof (cases "ids = []")
  case True
  have "trim_space [] = []" by (simp add: trim_space_def trim_front.simps)
  then show ?thesis using parse_id_csv_back [of ids] True by (simp add: filter_keys_by_key_ids_def id_csv_def)
next
  case False
  then show ?thesis using parse_id_csv_back [OF assms] filter_keys_back [OF assms False] by simp
qed

theorem key_ids_read_back_witness:
  "id_csv [3, -17] = ''3,-17'' \<and> parse_id_csv ''3,-17'' = [3, -17] \<and> filter_keys_by_key_ids [] (id_csv [3, -17]) = []"
proof -
  have e: "id_csv [3, -17] = ''3,-17''" by code_simp
  have "\<forall>i \<in> set [3, -17 :: int]. in_int64 i" by simp
  from key_ids_read_back [OF this, of "[]"] show ?thesis by (simp add: e)
qed

text \<open>Removing a key in the dashboard: it is detached from its endpoints and deleted, in two transactions. The
  names of these endpoints are reported as having lost the key.\<close>

definition remove_platform_key :: "int \<Rightarrow> local_db \<Rightarrow> (db_error option \<times> local_db) \<times> string list" where
  "remove_platform_key i db =
     (case detach_key_from_rapis i db of
        (Inl e, names) \<Rightarrow> ((Some e, db), names)
      | (Inr db, names) \<Rightarrow> (transact (delete_platform_key i) db, names))"

lemma refresh_where_parts [simp]:
  "db_bindings (refresh_where p db) = db_bindings db" "db_credentials (refresh_where p db) = db_credentials db"
  by (simp_all add: refresh_where_def)

lemma refresh_key_parts [simp]:
  "db_bindings (refresh_key_ids ids db) = db_bindings db" "db_credentials (refresh_key_ids ids db) = db_credentials db"
  "db_bindings (refresh_key_ids_for_platform p db) = db_bindings db"
  by (simp_all add: refresh_key_ids_def refresh_key_ids_for_platform_def)

lemma bound_binding: "i \<in> set (bound_ids j db) \<Longrightarrow> \<exists>b \<in> set (db_bindings db). xb_rapi_id b = j \<and> xb_credential_id b = i"
  by (auto simp: bound_ids_def)

lemma refresh_ids [simp]: "map xr_id (db_rapis (refresh_where p db)) = map xr_id (db_rapis db)"
  by (simp add: refresh_where_def update_where_map)

lemma remove_platform_key_result:
  assumes "db_ok db" and "i \<in> set (credential_ids db)"
  shows "\<exists>db'. remove_platform_key i db = ((None, db'), snd (detach_key_from_rapis i db)) \<and> db_ok db' \<and>
    db_bindings db' = filter (\<lambda>b. xb_credential_id b \<noteq> i) (db_bindings db) \<and> map xr_id (db_rapis db') = map xr_id (db_rapis db)"
proof -
  obtain d names where d: "detach_key_from_rapis i db = (Inr d, names)"
    by (cases "detach_key_from_rapis i db") (auto simp: detach_key_from_rapis_def Let_def split: if_splits)
  have ref: "references_ok db" using assms(1) by (simp add: db_ok_def constraints_def)
  have b: "db_bindings d = filter (\<lambda>b. xb_credential_id b \<noteq> i) (db_bindings db)"
    and r: "map xr_id (db_rapis d) = map xr_id (db_rapis db)" and c: "db_credentials d = db_credentials db"
  proof -
    have "filter (\<lambda>b. xb_credential_id b \<noteq> i) (db_bindings db) = db_bindings db"
      if "filter (\<lambda>r. (xr_id r, i) \<in> (\<lambda>b. (xb_rapi_id b, xb_credential_id b)) ` set (db_bindings db)) (db_rapis db) = []"
    proof -
      have "xb_credential_id x \<noteq> i" if x: "x \<in> set (db_bindings db)" for x
      proof
        assume "xb_credential_id x = i"
        moreover obtain r where "r \<in> set (db_rapis db)" "xr_id r = xb_rapi_id x"
          using ref x by (fastforce simp: references_ok_def rapi_ids_def)
        ultimately show False using \<open>filter _ _ = []\<close> x by (force simp: filter_empty_conv)
      qed
      then show ?thesis by (simp add: filter_id_conv)
    qed
    then show "db_bindings d = filter (\<lambda>b. xb_credential_id b \<noteq> i) (db_bindings db)"
      and "map xr_id (db_rapis d) = map xr_id (db_rapis db)" and "db_credentials d = db_credentials db"
      using d by (auto simp: detach_key_from_rapis_def Let_def refresh_key_ids_def split: if_splits)
  qed
  have "i \<in> set (map xc_id (db_credentials d))" using assms(2) by (simp add: c credential_ids_def)
  then obtain k where k: "find (\<lambda>c. xc_id c = i) (db_credentials d) = Some k"
    by (cases "find (\<lambda>c. xc_id c = i) (db_credentials d)") (auto simp: find_None_iff)
  then have del: "delete_platform_key i d = Inr (refresh_key_ids_for_platform (xc_platform_id k) (delete_credentials (\<lambda>c. xc_id c = i) d))"
    (is "_ = Inr ?d") by (simp add: delete_platform_key_def)
  have "db_ok d" using detach_ok [OF assms(1), of i d] d by simp
  then have "db_ok ?d" using credential_ops_ok(4) [OF _ del] by simp
  moreover have "db_bindings ?d = db_bindings d"
    by (auto simp: delete_credentials_def Let_def b intro!: filter_cong)
  moreover have "map xr_id (db_rapis ?d) = map xr_id (db_rapis d)"
    by (simp add: refresh_key_ids_for_platform_def) (simp add: delete_credentials_def Let_def)
  moreover have "remove_platform_key i db = ((None, ?d), names)" by (simp add: remove_platform_key_def d del transact_def)
  ultimately show ?thesis using b r d by auto
qed

text \<open>C40: an endpoint restricted to a single key of its platform is, once that key is removed in the dashboard,
  restricted no more: the dashboard is told that the endpoint lost the key, while the gateway, which drew this key
  only, now draws every key of the platform for it.\<close>

theorem whitelist_emptied_opens:
  assumes "db_ok db" and "r \<in> set (db_rapis db)" and "bound_ids (xr_id r) db = [i]" and "in_int64 i"
  shows "filter_keys_by_key_ids keys (xr_key_ids r) = filter (\<lambda>k. pk_id k = i) keys \<and>
    (\<exists>db' names. remove_platform_key i db = ((None, db'), names) \<and> xr_alias r \<in> set names \<and>
      (\<exists>r' \<in> set (db_rapis db'). xr_id r' = xr_id r \<and> filter_keys_by_key_ids keys (xr_key_ids r') = keys))"
proof -
  from bound_binding [of i "xr_id r" db] assms(3) obtain b where b: "b \<in> set (db_bindings db)" "xb_rapi_id b = xr_id r"
    "xb_credential_id b = i" by auto
  then have "i \<in> set (credential_ids db)" using assms(1) by (auto simp: db_ok_def constraints_def references_ok_def)
  from remove_platform_key_result [OF assms(1) this] obtain db' where db': "remove_platform_key i db = ((None, db'), snd (detach_key_from_rapis i db))"
    "db_ok db'" "db_bindings db' = filter (\<lambda>b. xb_credential_id b \<noteq> i) (db_bindings db)"
    "map xr_id (db_rapis db') = map xr_id (db_rapis db)" by blast
  have "xr_id r \<in> set (map xr_id (db_rapis db'))" using assms(2) db'(4) by simp
  then obtain r' where r': "r' \<in> set (db_rapis db')" "xr_id r' = xr_id r" by auto
  have derived: "xr_key_ids x = id_csv (bound_ids (xr_id x) d)" if "db_ok d" "x \<in> set (db_rapis d)" for d x
    using that by (auto simp: db_ok_def derived_at_def rapi_keys_def)
  have "set (bound_ids (xr_id r) db') \<subseteq> set (bound_ids (xr_id r) db) - {i}"
    by (auto simp: bound_ids_def db'(3))
  then have "bound_ids (xr_id r') db' = []" using assms(3) r'(2) by simp
  moreover have "trim_space [] = []" by (simp add: trim_space_def trim_front.simps)
  ultimately have "filter_keys_by_key_ids keys (xr_key_ids r') = keys"
    using derived [OF db'(2) r'(1)] by (simp add: filter_keys_by_key_ids_def id_csv_def)
  moreover have "xr_alias r \<in> set (snd (detach_key_from_rapis i db))"
    using b assms(2) by (force simp: detach_key_from_rapis_def Let_def filter_empty_conv)
  moreover have "filter_keys_by_key_ids keys (xr_key_ids r) = filter (\<lambda>k. pk_id k = i) keys"
    using derived [OF assms(1,2)] filter_keys_back [of "[i]" keys] assms(3,4) by simp
  ultimately show ?thesis using db'(1) r' by blast
qed

definition two_keys :: local_db where
  "two_keys =
     (let p = \<lparr>xp_id = 1, xp_name = ''p'', xp_base_url = ''u'', xp_token = [], xp_last_token_fetch = None, xp_enabled = True,
            xp_available = True, xp_notes = [], xp_supported_formats = [], xp_format_endpoints = [], xp_custom_headers = [],
            xp_login_account = [], xp_sort_order = 0, xp_created_at = 0, xp_updated_at = 0\<rparr>;
          c = \<lparr>xc_id = 1, xc_platform_id = 1, xc_token_hash = Some ''h'', xc_token = [], xc_label = [], xc_enabled = True,
            xc_failure_type = 0, xc_failure_reason = [], xc_failed_at = None, xc_expires_at = None, xc_is_free = False,
            xc_sort_order = 0, xc_created_at = 0, xc_updated_at = 0\<rparr>;
          r = \<lparr>xr_id = 1, xr_alias = ''m'', xr_model = ''m'', xr_vendor = [], xr_series = [], xr_model_name = [],
            xr_version = [], xr_suffix = [], xr_platform_id = 1, xr_enabled = True, xr_available = True,
            xr_unavailable_reason = [], xr_base_cost = 1, xr_high_cost = 1, xr_rpm_limit = 0, xr_rph_limit = 0,
            xr_rpd_limit = 0, xr_tpm_limit = 0, xr_tph_limit = 0, xr_tpd_limit = 0, xr_time_period_rules = [],
            xr_supported_formats = [], xr_custom_headers = [], xr_key_ids = ''1'', xr_notes = [], xr_source = [],
            xr_sort_order = 0, xr_created_at = 0, xr_updated_at = 0\<rparr>
      in empty_db\<lparr>db_platforms := [p], db_credentials := [c, c\<lparr>xc_id := 2, xc_token_hash := Some ''g''\<rparr>], db_rapis := [r],
           db_bindings := [new_binding 1 1], db_seq_platform := 2, db_seq_credential := 3, db_seq_rapi := 2\<rparr>)"

lemma two_keys_ok: "db_ok two_keys"
proof -
  have "constraints two_keys" by code_simp
  moreover have "ids_ok two_keys" by code_simp
  moreover have "rapi_keys two_keys = [(1, 1, ''1'')]" "bindings_of 1 two_keys = [new_binding 1 1]"
    "cred_homes two_keys = [(1, 1), (2, 1)]" "id_csv (bound_ids 1 two_keys) = ''1''" by code_simp+
  ultimately show ?thesis by (auto simp: db_ok_def scoped_at_def derived_at_def)
qed

theorem whitelist_emptied_opens_witness:
  "\<forall>k. \<exists>db' names. remove_platform_key 1 two_keys = ((None, db'), names) \<and> names = [''m''] \<and> map xr_key_ids (db_rapis two_keys) = [''1''] \<and>
     (\<exists>r'. r' \<in> set (db_rapis db') \<and> filter_keys_by_key_ids [k] (xr_key_ids r') = [k])"
proof (intro allI, goal_cases)
  case (1 k)
  obtain r where r: "db_rapis two_keys = [r]" "xr_id r = 1" "xr_alias r = ''m''" "xr_key_ids r = ''1''"
    by (simp add: two_keys_def Let_def)
  have b: "bound_ids (xr_id r) two_keys = [1]" "snd (detach_key_from_rapis 1 two_keys) = [''m'']"
    unfolding r(2) by code_simp+
  obtain db' names where "remove_platform_key 1 two_keys = ((None, db'), names)"
    "\<exists>r' \<in> set (db_rapis db'). filter_keys_by_key_ids [k] (xr_key_ids r') = [k]"
    using whitelist_emptied_opens [OF two_keys_ok _ b(1), of "[k]"] r(1) by auto
  moreover from this(1) have "names = [''m'']" using b(2) by (auto simp: remove_platform_key_def split: prod.splits sum.splits)
  ultimately show ?case using r by auto
qed

end
