(* ===== verification/Spec2Isabelle.thy ===== *)
theory Spec2Isabelle
  imports PlatformEntity SchedPick SchedWait MergeValid Recovery KeyIds
begin

text \<open>
  A verification library for the API gateway, a Go program that stands between the clients of language
  models and many upstream providers. Every theory is translated from the code under \<open>src/\<close>, file by file and
  with the names of the code; the paths below are relative to \<open>src/\<close>.

  \<^bold>\<open>The program.\<close> A client names a model, a \<open>lapi\<close>. The gateway (\<open>internal/gateway\<close>) looks up its chain of
  endpoints, each a \<open>rapi\<close> on a platform with a pool of keys, asks the scheduler
  (\<open>internal/scheduler\<close>) for the cheapest endpoint that can serve, takes a key of its pool, converts the
  request to the protocol of the upstream and the answer back (\<open>internal/apiformat\<close>), and tells the scheduler how
  the call went. The scheduler keeps one state machine per key, endpoint and platform (\<open>internal/entity\<close>, on the
  engine \<open>internal/fsm\<close>); a recovery pass probes what was taken out. The definitions live in a local
  SQLite database (\<open>internal/db\<close>), with tokens encrypted (\<open>internal/crypto\<close>), and are exchanged as snapshots with a
  centre (\<open>internal/bundle\<close>, \<open>internal/service\<close>).

  \<^bold>\<open>Theories.\<close>

  \<^item> \<open>GoPrelude\<close>: instants, byte strings, Go's string functions, association lists, stable sorting.
    \<open>Json\<close>: the values of \<open>encoding/json\<close>. \<open>Models\<close>: \<open>internal/models/models.go\<close>.

  \<^item> \<open>Fsm\<close>: the engine \<open>Machine\<close> with \<open>Fire\<close> and \<open>Advance\<close>, and the locales by which a table of transitions
    gives its invariants. \<open>EntityBase\<close>, \<open>KeyEntity\<close>, \<open>RapiEntity\<close>, \<open>PlatformEntity\<close>: \<open>entity.go\<close>, \<open>key.go\<close>,
    \<open>rapi.go\<close>, \<open>platform.go\<close>. An entity is its machine with its data; its calls to the store are a list in the
    \<open>world\<close>.

  \<^item> \<open>SchedCost\<close>: configuration, counters, limits, price rules, the order of selection. \<open>Scheduler\<close>: the manager,
    its entities, selection of endpoints and keys, marks, snapshot. \<open>SchedWait\<close>: the wait queues as a step relation.
    \<open>SchedPick\<close>: what selection promises.

  \<^item> \<open>ApiFormat\<close>: formats and addresses. \<open>ConvRequest\<close>, \<open>ConvResponse\<close>, \<open>ConvStream\<close>: the three conversions, the last
    with its state over the events of a stream. \<open>ConvRequestProps\<close>, \<open>ConvStreamProps\<close>: round trips, losses and the
    protocol a client sees. \<open>Probe\<close>: probing an address.

  \<^item> \<open>KeyBlocks\<close>: the blacklist of key and model pairs. \<open>KeyPool\<close>: the loop over the keys of an endpoint.
    \<open>Upstream\<close>: the request sent and the usage read. \<open>GatewayRequest\<close>: a client request from parsing to the
    answer. \<open>Recovery\<close>: the recovery passes. \<open>KeyPoolProps\<close>, \<open>GatewayProps\<close>: their properties. All in
    \<open>gateway.go\<close>; the state is the record \<open>gateway\<close>, extended in \<open>request_state\<close> by what one request has.

  \<^item> \<open>Bundle\<close>, \<open>BundleMerge\<close>, \<open>MergeValid\<close>: snapshots, \<open>Validate\<close> and the merge at the centre. \<open>SyncMerge\<close>: the
    merge at the edge, \<open>internal/service/sync_merge.go\<close>.

  \<^item> \<open>Crypto\<close>: the encryption of tokens. \<open>LocalDb\<close>: the tables of the database, statements checked against the
    schema, bindings and the column derived from them. \<open>LocalStore\<close>: the operations of \<open>db.go\<close> and
    \<open>credential.go\<close>. \<open>BundleApply\<close>: \<open>ApplyBundle\<close> and \<open>ExportBundle\<close>. \<open>LocalDbInv\<close>, \<open>ApplyInv\<close>,
    \<open>LocalRun\<close>: the invariant, its proof through \<open>ApplyBundle\<close>, and that for every write and run. \<open>KeyIds\<close>: the
    derived column as it is read back.

  \<^bold>\<open>What is proved.\<close>

  \<^item> State machines and scheduler: invariants over any sequence of calls, the states in which a
    key or an endpoint is pinned, cooldowns and backoffs to the nanosecond, selection sound, complete and best,
    rotation fair, limits exact, queues bounded and cleared.

  \<^item> Requests: a client is served by one upstream answer converted for it; what is sent is well formed; a
    refused request changes nothing; the loop over a pool ends, given that the cooldowns exceed the
    duration of the request; what happens to an exhausted pool and what recovery restores. The loops over
    endpoints are instances of the locale \<open>retry_loop\<close>.

  \<^item> Conversions: round trip of requests, acceptance of streams by a strict client, numbering of tool
    calls, and the inputs that are lost or refused.

  \<^item> Snapshots and database: \<open>Validate\<close> is an equivalence with a specification; merges keep and add what they
    say and stay valid; the database keeps its constraints and its derived column under every operation; tokens and
    the derived column come back.

  Some theorems state behaviour that is a defect, for example a removed key that opens an endpoint to all keys, or a
  client that hangs up and cools a key for everyone.

  \<^bold>\<open>Conventions.\<close> Text is a list of bytes. An \<open>int\<close> of Go is an \<open>int\<close>, and the 64-bit bounds are written out
  where a parsed or computed value can reach them. An error is a left value of a sum or a \<open>None\<close>; a panic is a
  value of its own. A method under a mutex is one step. An instant is a number of nanoseconds; each reading of a clock is
  an argument. What the code gets from outside is a parameter: the JSON codec, the outcomes of HTTP exchanges with the
  instants around them (\<open>attempt\<close>, \<open>turn\<close>, \<open>probe_run\<close>), what other requests do to the scheduler meanwhile, SHA-256,
  AES-GCM, the parser of URLs, Unicode case tables, the platform's runtime figures. Hypotheses about
  parameters say that encoding and decoding, or sealing and opening, are inverse.

  \<^bold>\<open>Bounds and loops.\<close> Recursion is structural or over the elements still to come. The loop of \<open>tryKeyForRAPI\<close> and
  the loops over endpoints have no bound in the code and are partial functions with result \<open>option\<close>; their termination is
  a theorem of its own. The search for a free name of \<open>allocName\<close> is modelled both unbounded and with one candidate
  more than there are names. The limits of the code are kept: 32 KB of a stream for its log and usage,
  1 MB for a line of a stream, 20 conflicts in a merge summary.

  \<^bold>\<open>Not modelled.\<close> The migrations of old databases, request statistics and settings of \<open>internal/db\<close> (SQL of
  one use, or counters nothing decides on); failures of SQLite other than those of the schema; the HTTP
  handlers of \<open>internal/service\<close> apart from the removal of a key, its synchronisation loop and the fetching of
  snapshots (\<open>bundle/pull.go\<close>); the client of the centre (\<open>internal/supabase\<close>), whose effects are in a remote service;
  logging, notification texts, the commands and the dashboard.
\<close>

end
